(* ===== verification/Warp_Prelude.thy ===== *)
theory Warp_Prelude
  imports Complex_Main "HOL-Library.Word" "HOL-Library.Sublist"
begin

text \<open>
  Shared vocabulary of the development: Rust's machine integers as words, its \<open>Result\<close> and
  its panics as values, \<open>iter().find\<close> / \<open>iter_mut().find\<close> / \<open>position\<close> and \<open>remove\<close> on vectors,
  the string operations the code uses, and interfaces (a keyed store with in-place update,
  machines and step relations with an invariant, a simulation) whose lemmas the components share.
\<close>

section \<open>Machine integers, results and panics\<close>

type_synonym u8 = "8 word"
type_synonym u16 = "16 word"
type_synonym u32 = "32 word"
type_synonym u64 = "64 word"
type_synonym i32 = "32 word"
type_synonym bytes = "u8 list"

datatype ('a, 'e) result = Ok 'a | Err 'e

text \<open>A computation that may panic: \<open>Panic\<close> is an \<open>unwrap\<close> or \<open>expect\<close> that fails.\<close>

datatype 'a outcome = Return 'a | Panic

text \<open>Facts about the state a step leaves alone are collected in \<open>frame\<close>.\<close>

named_theorems frame

section \<open>Vectors: find, update in place, remove\<close>

text \<open>
  \<open>xs.iter_mut().find(p)\<close> followed by a mutation of the element found, and
  \<open>xs.iter().position(p)\<close> followed by \<open>xs.remove(pos)\<close>. The lookup itself is \<open>List.find\<close>.
\<close>

fun upd_first :: "('a \<Rightarrow> bool) \<Rightarrow> ('a \<Rightarrow> 'a) \<Rightarrow> 'a list \<Rightarrow> 'a list" where
  "upd_first P f [] = []"
| "upd_first P f (x # xs) = (if P x then f x # xs else x # upd_first P f xs)"

fun del_first :: "('a \<Rightarrow> bool) \<Rightarrow> 'a list \<Rightarrow> 'a list" where
  "del_first P [] = []"
| "del_first P (x # xs) = (if P x then xs else x # del_first P xs)"

lemma length_upd_first [simp, frame]: "length (upd_first P f xs) = length xs"
  by (induction xs) auto

lemma upd_first_missing [simp]: "find P xs = None \<Longrightarrow> upd_first P f xs = xs"
  by (induction xs) (auto split: if_splits)

lemma del_first_missing [simp]: "find P xs = None \<Longrightarrow> del_first P xs = xs"
  by (induction xs) (auto split: if_splits)

lemma find_upd_first_same:
  "find P xs = Some x \<Longrightarrow> P (f x) \<Longrightarrow> find P (upd_first P f xs) = Some (f x)"
  by (induction xs) (auto split: if_splits)

lemma find_upd_first_other:
  "(\<And>x. P x \<Longrightarrow> \<not> Q x \<and> \<not> Q (f x)) \<Longrightarrow> find Q (upd_first P f xs) = find Q xs"
  by (induction xs) auto

lemma map_upd_first [frame]:
  "(\<And>x. g (f x) = g x) \<Longrightarrow> map g (upd_first P f xs) = map g xs"
  by (induction xs) auto

lemma set_upd_first: "set (upd_first P f xs) \<subseteq> set xs \<union> f ` set xs"
  by (induction xs) auto

lemma set_del_first: "set (del_first P xs) \<subseteq> set xs"
  by (induction xs) auto

lemma list_all_upd_first:
  "list_all R xs \<Longrightarrow> (\<And>x. R x \<Longrightarrow> P x \<Longrightarrow> R (f x)) \<Longrightarrow> list_all R (upd_first P f xs)"
  by (induction xs) auto

lemma list_all_del_first: "list_all R xs \<Longrightarrow> list_all R (del_first P xs)"
  by (induction xs) auto

lemma distinct_map_del_first: "distinct (map g xs) \<Longrightarrow> distinct (map g (del_first P xs))"
proof (induction xs)
  case (Cons x xs)
  then show ?case using set_del_first [of P xs] by auto
qed simp

lemma find_Some_prop: "find P xs = Some x \<Longrightarrow> P x \<and> x \<in> set xs"
  by (induction xs) (auto split: if_splits)

lemma find_None_all: "find P xs = None \<longleftrightarrow> (\<forall>x \<in> set xs. \<not> P x)"
  by (induction xs) auto

lemma find_append: "find P (xs @ ys) = (case find P xs of None \<Rightarrow> find P ys | Some x \<Rightarrow> Some x)"
  by (induction xs) auto

lemma find_del_first_unique:
  "distinct (map g xs) \<Longrightarrow> find (\<lambda>x. g x = k) (del_first (\<lambda>x. g x = k) xs) = None"
proof (induction xs)
  case (Cons x xs)
  show ?case
  proof (cases "g x = k")
    case True
    with Cons.prems have "k \<notin> g ` set xs" by simp
    then have "find (\<lambda>x. g x = k) xs = None" by (auto simp only: find_None_all image_iff)
    with True show ?thesis by simp
  next
    case False
    with Cons show ?thesis by simp
  qed
qed simp

lemma find_del_first_other:
  "(\<And>x. P x \<Longrightarrow> \<not> Q x) \<Longrightarrow> find Q (del_first P xs) = find Q xs"
  by (induction xs) auto

lemma length_del_first:
  "find P xs = Some x \<Longrightarrow> length xs = Suc (length (del_first P xs))"
  by (induction xs) (auto split: if_splits)

section \<open>A keyed store with in-place update\<close>

text \<open>
  The contract of a table whose entries are mutated through a key: \<open>get\<close> reads an entry,
  \<open>modify q k f\<close> applies the closure \<open>f\<close> to the entry under \<open>k\<close> (\<open>q\<close> is what the operation
  observes of the environment), and \<open>keeps f\<close> says the closure does not change what entries are
  found by.
\<close>

locale keyed_store =
  fixes get :: "'s \<Rightarrow> 'k \<Rightarrow> 'v option"
    and modify :: "'q \<Rightarrow> 'k \<Rightarrow> ('v \<Rightarrow> 'v) \<Rightarrow> 's \<Rightarrow> 's"
    and keeps :: "('v \<Rightarrow> 'v) \<Rightarrow> bool"
  assumes get_same: "keeps f \<Longrightarrow> get (modify q k f s) k = map_option f (get s k)"
    and get_other: "keeps f \<Longrightarrow> j \<noteq> k \<Longrightarrow> get (modify q k f s) j = get s j"
begin

lemma get_modify:
  "keeps f \<Longrightarrow> get (modify q k f s) j = (if j = k then map_option f (get s j) else get s j)"
  by (simp add: get_same get_other)

lemma dom_modify: "keeps f \<Longrightarrow> dom (get (modify q k f s)) = dom (get s)"
  by (auto simp: get_modify dom_def)

lemma modify_all:
  assumes "keeps f" and "\<And>k v. get s k = Some v \<Longrightarrow> P v" and "\<And>v. P v \<Longrightarrow> P (f v)"
    and "get (modify q k f s) j = Some w"
  shows "P w"
  using assms by (auto simp: get_modify split: if_splits)

text \<open>A run of updates under one key composes the closures, in order, on that entry only.\<close>

definition modify_run :: "'k \<Rightarrow> ('q \<times> ('v \<Rightarrow> 'v)) list \<Rightarrow> 's \<Rightarrow> 's" where
  "modify_run k fs s = fold (\<lambda>(q, f). modify q k f) fs s"

lemma get_modify_run:
  assumes "\<forall>(q, f) \<in> set fs. keeps f"
  shows "get (modify_run k fs s) j =
    (if j = k then map_option (fold (\<lambda>(q, f). f) fs) (get s j) else get s j)"
  using assms
proof (induction fs arbitrary: s)
  case Nil
  then show ?case by (simp add: modify_run_def id_def option.map_ident)
next
  case (Cons p fs)
  obtain q f where p: "p = (q, f)" by (cases p)
  have "get (modify_run k fs (modify q k f s)) j =
      (if j = k then map_option (fold (\<lambda>(q, f). f) fs) (get (modify q k f s) j)
       else get (modify q k f s) j)"
    using Cons by auto
  then show ?case
    using Cons.prems p by (auto simp: modify_run_def get_modify option.map_comp comp_def)
qed

text \<open>Updates under different keys commute, observed through \<open>get\<close>.\<close>

lemma modify_commute:
  "keeps f \<Longrightarrow> keeps g \<Longrightarrow> j \<noteq> k \<Longrightarrow>
    get (modify p j f (modify q k g s)) = get (modify q k g (modify p j f s))"
  by (auto simp: get_modify fun_eq_iff)

end

section \<open>State machines with an invariant\<close>

text \<open>
  A component driven by operations, each of which keeps an invariant. The contract is one step;
  the lemmas lift it to any sequence of operations, that is to any interleaving of tasks whose
  atomic sections are the operations.
\<close>

locale invariant_machine =
  fixes step :: "'e \<Rightarrow> 's \<Rightarrow> 's"
    and ok_event :: "'e \<Rightarrow> 's \<Rightarrow> bool"
    and inv :: "'s \<Rightarrow> bool"
  assumes step_inv: "inv s \<Longrightarrow> ok_event e s \<Longrightarrow> inv (step e s)"
begin

fun ok_run :: "'e list \<Rightarrow> 's \<Rightarrow> bool" where
  "ok_run [] s = True"
| "ok_run (e # es) s = (ok_event e s \<and> ok_run es (step e s))"

lemma run_inv: "inv s \<Longrightarrow> ok_run es s \<Longrightarrow> inv (fold step es s)"
  by (induction es arbitrary: s) (auto intro: step_inv)

lemma run_invariant_prefix:
  "inv s \<Longrightarrow> ok_run (es @ fs) s \<Longrightarrow> inv (fold step es s)"
  by (induction es arbitrary: s) (auto intro: step_inv)

lemma run_inv_all: "inv s \<Longrightarrow> (\<And>e s. ok_event e s) \<Longrightarrow> inv (fold step es s)"
  by (induction es arbitrary: s) (auto intro: step_inv)

end

text \<open>
  The same for a step relation, where what a step may do is a matter of its rules; and a step
  relation each of whose steps, from states that satisfy the invariant, is a run of another.
\<close>

locale step_invariant =
  fixes step :: "'s \<Rightarrow> 's \<Rightarrow> bool"
    and inv :: "'s \<Rightarrow> bool"
  assumes step_kept: "step s s' \<Longrightarrow> inv s \<Longrightarrow> inv s'"
begin

lemma run_kept: "step\<^sup>*\<^sup>* s s' \<Longrightarrow> inv s \<Longrightarrow> inv s'"
  by (induction rule: rtranclp_induct) (auto intro: step_kept)

end

locale simulation = step_invariant +
  fixes fine :: "'t \<Rightarrow> 't \<Rightarrow> bool"
    and view :: "'s \<Rightarrow> 't"
  assumes step_simulated: "step s s' \<Longrightarrow> inv s \<Longrightarrow> fine\<^sup>*\<^sup>* (view s) (view s')"
begin

lemma run_simulated: "step\<^sup>*\<^sup>* s s' \<Longrightarrow> inv s \<Longrightarrow> fine\<^sup>*\<^sup>* (view s) (view s')"
proof (induction rule: rtranclp_induct)
  case (step s1 s2)
  then show ?case using run_kept [OF step(1)] step_simulated [OF step(2)] by (meson rtranclp_trans)
qed simp

end

text \<open>A machine driven by operations is one whose rules are its operations.\<close>

sublocale invariant_machine < events: step_invariant "\<lambda>s s'. \<exists>e. ok_event e s \<and> s' = step e s" inv
  by unfold_locales (auto intro: step_inv)

section \<open>Numbers and characters\<close>

text \<open>Rust's \<open>a.saturating_sub(b)\<close> on an unsigned word.\<close>

definition saturating_sub :: "'l::len word \<Rightarrow> 'l word \<Rightarrow> 'l word" where
  "saturating_sub a b = (if a < b then 0 else a - b)"

lemma unat_saturating_sub: "unat (saturating_sub a b) = unat a - unat b"
  by (auto simp: saturating_sub_def unat_sub_if' word_less_nat_alt word_le_nat_alt)

definition is_ascii_digit :: "char \<Rightarrow> bool" where
  "is_ascii_digit c \<longleftrightarrow> (48 :: nat) \<le> of_char c \<and> of_char c \<le> (57 :: nat)"

definition is_ascii_alphanumeric :: "char \<Rightarrow> bool" where
  "is_ascii_alphanumeric c \<longleftrightarrow>
     is_ascii_digit c \<or> ((65 :: nat) \<le> of_char c \<and> of_char c \<le> (90 :: nat))
     \<or> ((97 :: nat) \<le> of_char c \<and> of_char c \<le> (122 :: nat))"

text \<open>
  \<open>s.parse::<uN>()\<close>: an optional plus sign, then one or more decimal digits whose value fits
  under \<open>bound\<close>; every overflow and every other character is an error.
\<close>

fun parse_digits :: "nat \<Rightarrow> nat \<Rightarrow> string \<Rightarrow> nat option" where
  "parse_digits bound acc [] = Some acc"
| "parse_digits bound acc (c # cs) =
     (if is_ascii_digit c
      then (let v = 10 * acc + (of_char c - 48)
            in if v < bound then parse_digits bound v cs else None)
      else None)"

definition parse_uint :: "nat \<Rightarrow> string \<Rightarrow> nat option" where
  "parse_uint bound s =
     (let ds = (case s of CHR ''+'' # cs \<Rightarrow> cs | _ \<Rightarrow> s)
      in if ds = [] then None else parse_digits bound 0 ds)"

lemma parse_digits_bound: "parse_digits bound acc s = Some n \<Longrightarrow> acc < bound \<Longrightarrow> n < bound"
  by (induction bound acc s rule: parse_digits.induct) (auto simp: Let_def split: if_splits)

lemma parse_uint_bound: "parse_uint bound s = Some n \<Longrightarrow> 0 < bound \<Longrightarrow> n < bound"
  by (auto simp: parse_uint_def Let_def split: if_splits dest: parse_digits_bound)

text \<open>Decimal rendering, \<open>n.to_string()\<close>.\<close>

fun nat_to_string :: "nat \<Rightarrow> string" where
  "nat_to_string n =
     (if n < 10 then [char_of (48 + n)]
      else nat_to_string (n div 10) @ [char_of (48 + n mod 10)])"

declare nat_to_string.simps [simp del]

lemma nat_to_string_nonempty: "nat_to_string n \<noteq> []"
  by (subst nat_to_string.simps) simp

lemma is_ascii_digit_char_of [simp]: "d < (10 :: nat) \<Longrightarrow> is_ascii_digit (char_of (48 + d))"
  by (simp add: is_ascii_digit_def)

lemma nat_to_string_digits: "list_all is_ascii_digit (nat_to_string n)"
proof (induction n rule: nat_to_string.induct)
  case (1 n)
  then show ?case by (subst nat_to_string.simps) auto
qed

lemma parse_digits_snoc:
  "parse_digits bound acc (s @ [c]) =
     (case parse_digits bound acc s of None \<Rightarrow> None | Some v \<Rightarrow> parse_digits bound v [c])"
  by (induction bound acc s rule: parse_digits.induct) (auto simp: Let_def)

lemma parse_nat_to_string: "n < bound \<Longrightarrow> parse_digits bound 0 (nat_to_string n) = Some n"
proof (induction n rule: nat_to_string.induct)
  case (1 n)
  show ?case
  proof (cases "n < 10")
    case True
    then show ?thesis using 1 by (subst nat_to_string.simps) simp
  next
    case False
    then have "parse_digits bound 0 (nat_to_string (n div 10)) = Some (n div 10)"
      using 1 by auto
    then show ?thesis
      using False 1 by (subst nat_to_string.simps) (simp add: parse_digits_snoc)
  qed
qed

text \<open>Printing a number and parsing it back gives the number.\<close>

lemma parse_uint_nat_to_string: "n < bound \<Longrightarrow> parse_uint bound (nat_to_string n) = Some n"
proof -
  assume n: "n < bound"
  obtain c cs where s: "nat_to_string n = c # cs"
    using nat_to_string_nonempty [of n] by (cases "nat_to_string n") auto
  have "is_ascii_digit c" using nat_to_string_digits [of n] s by simp
  then have "c \<noteq> CHR ''+''" by (auto simp: is_ascii_digit_def)
  then have "(case nat_to_string n of CHR ''+'' # cs \<Rightarrow> cs | _ \<Rightarrow> nat_to_string n) = nat_to_string n"
    using s by (auto split: list.splits char.splits bool.splits)
  then show ?thesis
    using n nat_to_string_nonempty [of n] by (simp add: parse_uint_def parse_nat_to_string)
qed

section \<open>Strings\<close>

text \<open>
  Rust strings are UTF-8 byte sequences; a \<open>string\<close> holds those bytes. Every character the code
  searches for is ASCII, so byte-wise search and replacement are exact.
\<close>

fun str_contains :: "string \<Rightarrow> string \<Rightarrow> bool" where
  "str_contains pat [] = (pat = [])"
| "str_contains pat (c # cs) = (take (length pat) (c # cs) = pat \<or> str_contains pat cs)"

text \<open>\<open>s.replace([c1, c2, ...], "_")\<close> with single-character patterns.\<close>

definition replace_chars :: "char list \<Rightarrow> char \<Rightarrow> string \<Rightarrow> string" where
  "replace_chars ps d s = map (\<lambda>c. if c \<in> set ps then d else c) s"

lemma length_replace_chars [simp]: "length (replace_chars ps d s) = length s"
  by (simp add: replace_chars_def)

lemma replace_chars_clean: "d \<notin> set ps \<Longrightarrow> c \<in> set ps \<Longrightarrow> c \<notin> set (replace_chars ps d s)"
  by (auto simp: replace_chars_def)

lemma replace_chars_id: "set s \<inter> set ps = {} \<Longrightarrow> replace_chars ps d s = s"
  unfolding replace_chars_def by (rule map_idI) auto

text \<open>\<open>s.trim_end_matches(pat)\<close>: the suffix is removed as often as it occurs.\<close>

function trim_end_matches :: "string \<Rightarrow> string \<Rightarrow> string" where
  "trim_end_matches pat s =
     (if pat \<noteq> [] \<and> suffix pat s then trim_end_matches pat (take (length s - length pat) s) else s)"
  by pat_completeness auto
termination
proof (relation "measure (\<lambda>(pat, s). length s)")
  fix pat s :: string
  assume "pat \<noteq> [] \<and> suffix pat s"
  then have "0 < length pat" "length pat \<le> length s" by (auto dest: suffix_length_le)
  then have "length s - length pat < length s" by linarith
  then show "((pat, take (length s - length pat) s), (pat, s)) \<in> measure (\<lambda>(pat, s). length s)"
    by simp
qed simp

declare trim_end_matches.simps [simp del]

lemma trim_end_matches_append:
  "pat \<noteq> [] \<Longrightarrow> trim_end_matches pat (s @ pat) = trim_end_matches pat s"
  by (subst trim_end_matches.simps) (simp add: suffix_def)

lemma trim_end_matches_id: "\<not> suffix pat s \<Longrightarrow> trim_end_matches pat s = s"
  by (subst trim_end_matches.simps) simp

end
