(* ===== verification/Warp_Types.thy ===== *)
theory Warp_Types
  imports Warp_Prelude
begin

text \<open>
  The data model of the crate: the protobuf messages of \<open>proto/warpinator.proto\<close> that the code
  reads and writes, and the types of \<open>src/types\<close> (messages, remotes, transfers) with their
  constructors and conversions. Record fields carry a short prefix of their type, since Isabelle's
  field names are global; enum variants keep the names of the source, prefixed where two enums
  share one.
\<close>

section \<open>Protocol messages\<close>

record op_info =
  oi_ident :: string
  oi_timestamp :: u64
  oi_readable_name :: string
  oi_use_compression :: bool

record stop_info =
  si_info :: "op_info option"
  si_error :: bool

record transfer_op_request =
  tor_info :: "op_info option"
  tor_sender_name :: string
  tor_receiver_name :: string
  tor_receiver :: string
  tor_size :: u64
  tor_count :: u64
  tor_name_if_single :: string
  tor_mime_if_single :: string
  tor_top_dir_basenames :: "string list"

record file_time =
  ft_mtime :: u64
  ft_mtime_usec :: u32

record file_chunk =
  fc_relative_path :: string
  fc_file_type :: i32
  fc_symlink_target :: string
  fc_chunk :: bytes
  fc_file_mode :: u32
  fc_time :: "file_time option"

record text_message =
  tm_ident :: string
  tm_timestamp :: u64
  tm_message :: string

record service_registration =
  sr_service_id :: string
  sr_ip :: string
  sr_port :: u32
  sr_hostname :: string
  sr_api_version :: u32
  sr_auth_port :: u32
  sr_ipv6 :: string

record lookup_name =
  ln_id :: string
  ln_readable_name :: string

record remote_machine_info =
  mi_display_name :: string
  mi_user_name :: string
  mi_feature_flags :: u32

section \<open>Protocol features\<close>

text \<open>
  \<open>ProtocolFeatures\<close> is a bit set over a \<open>u32\<close>; with the \<open>messaging\<close> feature (a default of the
  crate) one flag is known, and \<open>from_bits_truncate\<close> keeps the known bits only.
\<close>

unbundle bit_operations_syntax

definition features_none :: u32 where
  "features_none = 0"

definition message_support :: u32 where
  "message_support = 1"

definition features_default :: u32 where
  "features_default = features_none OR message_support"

definition from_bits_truncate :: "u32 \<Rightarrow> u32" where
  "from_bits_truncate b = b AND message_support"

definition features_contains :: "u32 \<Rightarrow> u32 \<Rightarrow> bool" where
  "features_contains fs f \<longleftrightarrow> fs AND f = f"

lemma features_default_supports_messages: "features_contains features_default message_support"
  by (simp add: features_contains_def features_default_def features_none_def message_support_def)

lemma from_bits_truncate_contains:
  "features_contains (from_bits_truncate b) message_support = features_contains b message_support"
  by (simp add: features_contains_def from_bits_truncate_def and.assoc)

section \<open>Text messages\<close>

datatype direction = Sent | Received

record message =
  m_uuid :: string
  m_remote_uuid :: string
  m_direction :: direction
  m_timestamp :: u64
  m_content :: string

text \<open>
  \<open>Message::new\<close>: the fresh UUID (its text form) and the clock are read from the environment.
\<close>

definition message_new :: "string \<Rightarrow> u64 \<Rightarrow> string \<Rightarrow> direction \<Rightarrow> string \<Rightarrow> message" where
  "message_new uuid now remote_uuid dir content =
     \<lparr>m_uuid = uuid, m_remote_uuid = remote_uuid, m_direction = dir, m_timestamp = now,
      m_content = content\<rparr>"

definition message_as_proto :: "message \<Rightarrow> string \<Rightarrow> text_message" where
  "message_as_proto m service_id =
     \<lparr>tm_ident = service_id, tm_timestamp = m_timestamp m, tm_message = m_content m\<rparr>"

definition message_from_proto :: "string \<Rightarrow> u64 \<Rightarrow> text_message \<Rightarrow> message" where
  "message_from_proto uuid now v = message_new uuid now (tm_ident v) Received (tm_message v)"

section \<open>Remotes\<close>

text \<open>IP addresses are the numbers \<open>IpAddr\<close> holds; \<open>Warp_Address\<close> parses their text.\<close>

datatype ip_addr = V4 "32 word" | V6 "128 word"

datatype remote_connection_error = SslError | GroupCodeMismatch | NoCertificate | RC_DuplexError

datatype remote_state =
    RS_Error remote_connection_error
  | Disconnected
  | Connecting
  | AwaitingDuplex
  | Connected

section \<open>Transfers\<close>

datatype io_error_kind =
    IO_NotFound
  | IO_PermissionDenied
  | IO_ReadOnlyFilesystem
  | IO_StorageFull
  | IO_FileTooLarge
  | IO_InvalidFilename
  | IO_OutOfMemory
  | IO_Other nat  \<comment> \<open>every other kind of \<open>std::io::ErrorKind\<close>, by number\<close>

datatype vfs_error =
    VFS_AlreadySet | VFS_NotSet | VFS_FileNotFound | VFS_FileAlreadyExists
  | VFS_PermissionDenied | VFS_InvalidPath | VFS_FileCreateError

datatype status_code =
    InvalidArgument | NotFound | Internal | Unimplemented | FailedPrecondition | Unavailable
  | OtherCode nat

datatype status = Status (st_code: status_code) (st_message: string)

datatype transfer_error =
    ConnectionLost
  | StorageFull
  | FailedToProcessFiles
  | FailedToStartTransfer status
  | UnsafePath
  | FilesNotFound
  | PermissionDenied
  | FileTooLarge
  | InvalidFilename
  | OutOfMemory
  | IoError io_error_kind
  | RemoteError
  | VirtualFilesystemError vfs_error

fun transfer_error_of_io :: "io_error_kind \<Rightarrow> transfer_error" where
  "transfer_error_of_io IO_NotFound = FilesNotFound"
| "transfer_error_of_io IO_PermissionDenied = PermissionDenied"
| "transfer_error_of_io IO_ReadOnlyFilesystem = PermissionDenied"
| "transfer_error_of_io IO_StorageFull = StorageFull"
| "transfer_error_of_io IO_FileTooLarge = FileTooLarge"
| "transfer_error_of_io IO_InvalidFilename = InvalidFilename"
| "transfer_error_of_io IO_OutOfMemory = OutOfMemory"
| "transfer_error_of_io e = IoError e"

datatype transfer_state =
    Initializing
  | WaitingPermission
  | InProgress
  | Paused
  | Completed
  | Stopped
  | Canceled
  | Denied
  | Failed transfer_error

text \<open>\<open>std::mem::discriminant\<close> of a transfer state: the variant, without its payload.\<close>

fun discriminant :: "transfer_state \<Rightarrow> nat" where
  "discriminant Initializing = 0"
| "discriminant WaitingPermission = 1"
| "discriminant InProgress = 2"
| "discriminant Paused = 3"
| "discriminant Completed = 4"
| "discriminant Stopped = 5"
| "discriminant Canceled = 6"
| "discriminant Denied = 7"
| "discriminant (Failed e) = 8"

text \<open>
  Paths are component lists, which is how Rust compares them; cancellation tokens are opaque
  handles.
\<close>

datatype component = RootDir | CurDir | ParentDir | Normal string

type_synonym path = "component list"
type_synonym token = nat

datatype transfer_kind =
    Outgoing (tk_source_paths: "path list") (tk_token: token)
  | Incoming (tk_destination: path)

record transfer =
  t_uuid :: string
  t_remote_uuid :: string
  t_protocol_id :: u64
  t_state :: transfer_state
  t_timestamp :: u64
  t_total_bytes :: u64
  t_bytes_transferred :: u64
  t_bytes_per_second :: u64
  t_file_count :: u64
  t_entry_names :: "string list"
  t_single_name :: "string option"
  t_single_mime_type :: "string option"
  t_kind :: transfer_kind

text \<open>A version 4 UUID as the code uses it: its text and its two 64-bit halves.\<close>

record uuid =
  u_text :: string
  u_hi :: u64
  u_lo :: u64

definition transfer_new_outgoing ::
  "uuid \<Rightarrow> u64 \<Rightarrow> string \<Rightarrow> path list \<Rightarrow> token \<Rightarrow> transfer" where
  "transfer_new_outgoing u now remote_uuid source_paths tok =
     \<lparr>t_uuid = u_text u, t_remote_uuid = remote_uuid, t_protocol_id = u_hi u + u_lo u,
      t_state = Initializing, t_timestamp = now, t_total_bytes = 0, t_bytes_transferred = 0,
      t_bytes_per_second = 0, t_file_count = 0, t_entry_names = [], t_single_name = None,
      t_single_mime_type = None, t_kind = Outgoing source_paths tok\<rparr>"

definition transfer_as_proto :: "transfer \<Rightarrow> string \<Rightarrow> transfer_op_request" where
  "transfer_as_proto t service_id =
     \<lparr>tor_info = Some \<lparr>oi_ident = service_id, oi_timestamp = t_protocol_id t,
                        oi_readable_name = [], oi_use_compression = False\<rparr>,
      tor_sender_name = [], tor_receiver_name = [], tor_receiver = service_id,
      tor_size = t_total_bytes t, tor_count = t_file_count t,
      tor_name_if_single = (case t_single_name t of None \<Rightarrow> [] | Some n \<Rightarrow> n),
      tor_mime_if_single = (case t_single_mime_type t of None \<Rightarrow> [] | Some n \<Rightarrow> n),
      tor_top_dir_basenames = t_entry_names t\<rparr>"

text \<open>\<open>From<TransferOpRequest>\<close>: both \<open>expect\<close>s fail when the request has no \<open>OpInfo\<close>.\<close>

definition transfer_from_request ::
  "string \<Rightarrow> u64 \<Rightarrow> transfer_op_request \<Rightarrow> transfer outcome" where
  "transfer_from_request uuid now v =
     (case tor_info v of
        None \<Rightarrow> Panic
      | Some info \<Rightarrow> Return
         \<lparr>t_uuid = uuid, t_remote_uuid = oi_ident info, t_protocol_id = oi_timestamp info,
          t_state = WaitingPermission, t_timestamp = now, t_total_bytes = tor_size v,
          t_bytes_transferred = 0, t_bytes_per_second = 0, t_file_count = tor_count v,
          t_entry_names = tor_top_dir_basenames v,
          t_single_name =
            (if tor_count v = 1 \<and> tor_name_if_single v \<noteq> []
             then Some (tor_name_if_single v) else None),
          t_single_mime_type =
            (if tor_count v = 1 \<and> tor_mime_if_single v \<noteq> []
             then Some (tor_mime_if_single v) else None),
          t_kind = Incoming [RootDir]\<rparr>)"

record remote =
  r_uuid :: string
  r_ip :: ip_addr
  r_port :: u16
  r_auth_port :: u16
  r_service_name :: string
  r_features :: u32
  r_display_name :: string
  r_username :: string
  r_hostname :: string
  r_picture :: "bytes option"
  r_picture_version :: u8
  r_state :: remote_state
  r_messages :: "message list"
  r_transfers :: "transfer list"
  r_service_static :: bool
  r_service_available :: bool
  r_cert_pem :: "bytes option"

definition remote_new ::
  "string \<Rightarrow> ip_addr \<Rightarrow> u16 \<Rightarrow> u16 \<Rightarrow> string \<Rightarrow> string \<Rightarrow> remote" where
  "remote_new uuid ip port auth_port service_name hostname =
     \<lparr>r_uuid = uuid, r_ip = ip, r_port = port, r_auth_port = auth_port,
      r_service_name = service_name, r_features = features_none, r_display_name = [],
      r_username = [], r_hostname = hostname, r_picture = None, r_picture_version = 0,
      r_state = Disconnected, r_messages = [], r_transfers = [], r_service_static = False,
      r_service_available = False, r_cert_pem = None\<rparr>"

text \<open>
  An outgoing transfer is well formed when a single file has a name and any other transfer has
  none; \<open>process_paths\<close> leaves transfers so (the theory of paths proves it).
\<close>

definition single_consistent :: "transfer \<Rightarrow> bool" where
  "single_consistent t \<longleftrightarrow>
     (case t_single_name t of None \<Rightarrow> t_single_mime_type t = None
      | Some n \<Rightarrow> n \<noteq> [] \<and> t_file_count t = 1 \<and> t_single_mime_type t \<noteq> Some [])"

lemma transfer_from_as_proto:
  assumes "single_consistent t"
  shows "transfer_from_request u now (transfer_as_proto t sid) =
    Return (t\<lparr>t_uuid := u, t_remote_uuid := sid, t_state := WaitingPermission,
              t_timestamp := now, t_bytes_transferred := 0, t_bytes_per_second := 0,
              t_kind := Incoming [RootDir]\<rparr>)"
proof (cases t)
  case (fields uuid ruuid pid st ts tb bt bps fc names single mime kind)
  show ?thesis using assms
    by (cases single; cases mime)
      (simp_all add: fields transfer_from_request_def transfer_as_proto_def single_consistent_def)
qed

end
