(* ===== verification/Warp_Config.thy ===== *)
theory Warp_Config
  imports Warp_Types
begin

text \<open>
  The configuration builders of \<open>src/config\<close>: every setter, the defaults, and \<open>build\<close>. Setters
  take the builder by value and return it, as the source does. Values behind \<open>Arc<RwLock<_>>\<close>
  (display name and picture) are plain fields with their two update operations.
\<close>

section \<open>Protocol configuration\<close>

text \<open>A \<open>Duration\<close> is its length in nanoseconds.\<close>

type_synonym duration = nat

definition from_secs :: "nat \<Rightarrow> duration" where
  "from_secs n = n * 1000000000"

definition reconnect_interval_default :: duration where
  "reconnect_interval_default = from_secs 30"

definition connect_timeout_default :: duration where
  "connect_timeout_default = from_secs 10"

definition ping_interval_default :: duration where
  "ping_interval_default = from_secs 10"

definition ping_timeout_default :: duration where
  "ping_timeout_default = from_secs 5"

record protocol_config_builder =
  pb_features :: "u32 option"
  pb_reconnect_interval :: "duration option"
  pb_connect_timeout :: "duration option"
  pb_ping_interval :: "duration option"
  pb_ping_timeout :: "duration option"

record protocol_config =
  pc_features :: u32
  pc_reconnect_interval :: duration
  pc_connect_timeout :: duration
  pc_ping_interval :: duration
  pc_ping_timeout :: duration

definition protocol_builder_new :: protocol_config_builder where
  "protocol_builder_new =
     \<lparr>pb_features = None, pb_reconnect_interval = None, pb_connect_timeout = None,
      pb_ping_interval = None, pb_ping_timeout = None\<rparr>"

datatype protocol_setter =
    SetFeatures u32
  | SetReconnectInterval duration
  | SetConnectTimeout duration
  | SetPingInterval duration
  | SetPingTimeout duration

fun protocol_set :: "protocol_setter \<Rightarrow> protocol_config_builder \<Rightarrow> protocol_config_builder" where
  "protocol_set (SetFeatures f) b = b\<lparr>pb_features := Some f\<rparr>"
| "protocol_set (SetReconnectInterval d) b = b\<lparr>pb_reconnect_interval := Some d\<rparr>"
| "protocol_set (SetConnectTimeout d) b = b\<lparr>pb_connect_timeout := Some d\<rparr>"
| "protocol_set (SetPingInterval d) b = b\<lparr>pb_ping_interval := Some d\<rparr>"
| "protocol_set (SetPingTimeout d) b = b\<lparr>pb_ping_timeout := Some d\<rparr>"

definition unwrap_or :: "'a option \<Rightarrow> 'a \<Rightarrow> 'a" where
  "unwrap_or x d = (case x of None \<Rightarrow> d | Some v \<Rightarrow> v)"

lemma unwrap_or_simps [simp]: "unwrap_or None d = d" "unwrap_or (Some v) d = v"
  by (simp_all add: unwrap_or_def)

definition protocol_build :: "protocol_config_builder \<Rightarrow> protocol_config" where
  "protocol_build b =
     \<lparr>pc_features = unwrap_or (pb_features b) features_default,
      pc_reconnect_interval = unwrap_or (pb_reconnect_interval b) reconnect_interval_default,
      pc_connect_timeout = unwrap_or (pb_connect_timeout b) connect_timeout_default,
      pc_ping_interval = unwrap_or (pb_ping_interval b) ping_interval_default,
      pc_ping_timeout = unwrap_or (pb_ping_timeout b) ping_timeout_default\<rparr>"

definition protocol_config_default :: protocol_config where
  "protocol_config_default =
     \<lparr>pc_features = features_default, pc_reconnect_interval = reconnect_interval_default,
      pc_connect_timeout = connect_timeout_default, pc_ping_interval = ping_interval_default,
      pc_ping_timeout = ping_timeout_default\<rparr>"

section \<open>User configuration\<close>

definition default_warp_port :: u16 where "default_warp_port = 42000"
definition default_reg_port :: u16 where "default_reg_port = 42001"
definition default_group_code :: string where "default_group_code = ''Warpinator''"
definition default_hostname_name :: string where "default_hostname_name = ''warpinator''"
definition default_display_name :: string where "default_display_name = ''Warpinator RS''"
definition default_username :: string where "default_username = ''warpinator-rs''"

definition unspecified_v4 :: "32 word" where "unspecified_v4 = 0"
definition unspecified_v6 :: "128 word" where "unspecified_v6 = 0"

record user_config_builder =
  ub_port :: "u16 option"
  ub_reg_port :: "u16 option"
  ub_bind_addr_v4 :: "32 word option"
  ub_bind_addr_v6 :: "128 word option"
  ub_group_code :: "string option"
  ub_hostname :: "string option"
  ub_username :: "string option"
  ub_display_name :: "string option"
  ub_picture :: "bytes option"

record user_config =
  uc_port :: u16
  uc_reg_port :: u16
  uc_bind_addr_v4 :: "32 word option"
  uc_bind_addr_v6 :: "128 word option"
  uc_group_code :: string
  uc_hostname :: string
  uc_username :: string
  uc_display_name :: string
  uc_picture :: "bytes option"

definition user_builder_new :: user_config_builder where
  "user_builder_new =
     \<lparr>ub_port = None, ub_reg_port = None, ub_bind_addr_v4 = None, ub_bind_addr_v6 = None,
      ub_group_code = None, ub_hostname = None, ub_username = None, ub_display_name = None,
      ub_picture = None\<rparr>"

text \<open>
  The setters. \<open>SetDefaultBindV4\<close>, \<open>SetDefaultBindV6\<close> and \<open>SetDefaultHostname\<close> carry what the
  operating system answered (\<open>None\<close> for an error of \<open>local_ip\<close>, \<open>local_ipv6\<close> or
  \<open>hostname::get\<close>); an address of the other family becomes the unspecified address.
\<close>

datatype user_setter =
    SetPort u16
  | SetRegPort u16
  | SetBindV4 "32 word"
  | SetDefaultBindV4 "ip_addr option"
  | SetBindV6 "128 word"
  | SetDefaultBindV6 "ip_addr option"
  | SetGroupCode string
  | SetHostname string
  | SetDefaultHostname "string option"
  | SetUsername string
  | SetDisplayName string
  | SetPicture bytes

fun v4_or_unspecified :: "ip_addr \<Rightarrow> 32 word" where
  "v4_or_unspecified (V4 a) = a"
| "v4_or_unspecified (V6 a) = unspecified_v4"

fun v6_or_unspecified :: "ip_addr \<Rightarrow> 128 word" where
  "v6_or_unspecified (V6 a) = a"
| "v6_or_unspecified (V4 a) = unspecified_v6"

fun user_set :: "user_setter \<Rightarrow> user_config_builder \<Rightarrow> user_config_builder" where
  "user_set (SetPort p) b = b\<lparr>ub_port := Some p\<rparr>"
| "user_set (SetRegPort p) b = b\<lparr>ub_reg_port := Some p\<rparr>"
| "user_set (SetBindV4 a) b = b\<lparr>ub_bind_addr_v4 := Some a\<rparr>"
| "user_set (SetDefaultBindV4 r) b = b\<lparr>ub_bind_addr_v4 := map_option v4_or_unspecified r\<rparr>"
| "user_set (SetBindV6 a) b = b\<lparr>ub_bind_addr_v6 := Some a\<rparr>"
| "user_set (SetDefaultBindV6 r) b = b\<lparr>ub_bind_addr_v6 := map_option v6_or_unspecified r\<rparr>"
| "user_set (SetGroupCode s) b = b\<lparr>ub_group_code := Some s\<rparr>"
| "user_set (SetHostname s) b = b\<lparr>ub_hostname := Some s\<rparr>"
| "user_set (SetDefaultHostname r) b = b\<lparr>ub_hostname := r\<rparr>"
| "user_set (SetUsername s) b = b\<lparr>ub_username := Some s\<rparr>"
| "user_set (SetDisplayName s) b = b\<lparr>ub_display_name := Some s\<rparr>"
| "user_set (SetPicture p) b = b\<lparr>ub_picture := Some p\<rparr>"

definition user_build :: "user_config_builder \<Rightarrow> user_config" where
  "user_build b0 =
     (let b = (if ub_bind_addr_v4 b0 = None \<and> ub_bind_addr_v6 b0 = None
               then b0\<lparr>ub_bind_addr_v4 := Some unspecified_v4\<rparr> else b0)
      in \<lparr>uc_port = unwrap_or (ub_port b) default_warp_port,
          uc_reg_port = unwrap_or (ub_reg_port b) default_reg_port,
          uc_bind_addr_v4 = ub_bind_addr_v4 b, uc_bind_addr_v6 = ub_bind_addr_v6 b,
          uc_group_code = unwrap_or (ub_group_code b) default_group_code,
          uc_hostname = unwrap_or (ub_hostname b) default_hostname_name,
          uc_username = unwrap_or (ub_username b) default_username,
          uc_display_name = unwrap_or (ub_display_name b) default_display_name,
          uc_picture = ub_picture b\<rparr>)"

definition user_config_default :: user_config where
  "user_config_default =
     \<lparr>uc_port = default_warp_port, uc_reg_port = default_reg_port,
      uc_bind_addr_v4 = Some unspecified_v4, uc_bind_addr_v6 = Some unspecified_v6,
      uc_group_code = default_group_code, uc_hostname = default_hostname_name,
      uc_username = default_username, uc_display_name = default_display_name,
      uc_picture = None\<rparr>"

definition set_display_name :: "user_config \<Rightarrow> string \<Rightarrow> user_config" where
  "set_display_name c s = c\<lparr>uc_display_name := s\<rparr>"

definition set_picture :: "user_config \<Rightarrow> bytes option \<Rightarrow> user_config" where
  "set_picture c p = c\<lparr>uc_picture := p\<rparr>"

lemma user_build_has_address:
  "uc_bind_addr_v4 (user_build b) \<noteq> None \<or> uc_bind_addr_v6 (user_build b) \<noteq> None"
  by (auto simp: user_build_def Let_def)

text \<open>
  A builder that never sets an address builds the default configuration, except that the default
  also binds the unspecified IPv6 address.
\<close>

lemma user_build_new:
  "user_build user_builder_new = user_config_default\<lparr>uc_bind_addr_v6 := None\<rparr>"
  by (simp add: user_build_def user_builder_new_def user_config_default_def)

lemma protocol_build_new: "protocol_build protocol_builder_new = protocol_config_default"
  by (simp add: protocol_build_def protocol_builder_new_def protocol_config_default_def)

text \<open>Setters for different fields commute, so the order of a builder chain only matters per field.\<close>

fun protocol_field :: "protocol_setter \<Rightarrow> nat" where
  "protocol_field (SetFeatures f) = 0"
| "protocol_field (SetReconnectInterval d) = 1"
| "protocol_field (SetConnectTimeout d) = 2"
| "protocol_field (SetPingInterval d) = 3"
| "protocol_field (SetPingTimeout d) = 4"

lemma protocol_set_commute:
  "protocol_field a \<noteq> protocol_field b \<Longrightarrow>
    protocol_set a (protocol_set b s) = protocol_set b (protocol_set a s)"
  by (cases a; cases b) simp_all

end
