(* ===== verification/Warp_Manager.thy ===== *)
theory Warp_Manager
  imports Warp_Config
begin

text \<open>
  \<open>src/server/remote_manager.rs\<close>: the shared state (remotes, workers, events) and its atomic
  operations. Each operation but \<open>add_remote\<close> holds the write lock of \<open>remotes\<close> for its whole effect,
  events included, so an execution of the crate, whatever its tasks, is a sequence of these
  operations and of the three sections of \<open>add_remote\<close>. Third-party
  objects appear by what the code does to them: \<open>event_tx.send\<close> appends to \<open>mg_events\<close>,
  \<open>state_tx.send\<close> to the worker's \<open>w_sent\<close>, \<open>token.cancel()\<close> to \<open>mg_cancelled\<close>; what
  \<open>event_tx.len()\<close> returns is an argument. Workers are shared by \<open>Arc\<close>: \<open>mg_workers\<close> maps a UUID to
  an index of the arena.
\<close>

section \<open>State\<close>

datatype warp_event =
    RemoteAdded string
  | RemoteUpdated string
  | TransferAdded string string
  | TransferUpdated string string
  | TransferRemoved string string
  | MessageAdded string string
  | MessageRemoved string string

datatype update_error = UE_NotFound

record worker =
  w_uuid :: string
  w_channel :: "nat option"
  w_client :: "nat option"
  w_token :: token
  w_sent :: "remote_state list"
  w_loop :: bool

definition worker_new :: "string \<Rightarrow> token \<Rightarrow> worker" where
  "worker_new uuid tok =
     \<lparr>w_uuid = uuid, w_channel = None, w_client = None, w_token = tok, w_sent = [],
      w_loop = False\<rparr>"

record manager =
  mg_remotes :: "string \<rightharpoonup> remote"
  mg_workers :: "string \<rightharpoonup> nat"
  mg_arena :: "worker list"
  mg_events :: "warp_event list"
  mg_cancelled :: "token list"
  mg_protocol :: protocol_config
  mg_hostname :: string
  mg_ip :: ip_addr
  mg_fullname :: string
  mg_registration :: service_registration

definition service_api_version :: u16 where "service_api_version = 2"

text \<open>\<open>Ipv4Addr::to_string\<close>: four decimal octets.\<close>

definition octet :: "32 word \<Rightarrow> nat \<Rightarrow> nat" where
  "octet a i = unat a div 256 ^ i mod 256"

definition ipv4_text :: "32 word \<Rightarrow> string" where
  "ipv4_text a =
     nat_to_string (octet a 3) @ ''.'' @ nat_to_string (octet a 2) @ ''.'' @
     nat_to_string (octet a 1) @ ''.'' @ nat_to_string (octet a 0)"

definition manager_new :: "protocol_config \<Rightarrow> user_config \<Rightarrow> string \<Rightarrow> manager option" where
  "manager_new pc uc fullname =
     (case uc_bind_addr_v4 uc of
        None \<Rightarrow> None
      | Some a \<Rightarrow> Some
         \<lparr>mg_remotes = Map.empty, mg_workers = Map.empty, mg_arena = [], mg_events = [],
          mg_cancelled = [], mg_protocol = pc, mg_hostname = uc_hostname uc, mg_ip = V4 a,
          mg_fullname = fullname,
          mg_registration =
            \<lparr>sr_service_id = fullname, sr_ip = ipv4_text a, sr_port = ucast (uc_port uc),
             sr_hostname = uc_hostname uc, sr_api_version = ucast service_api_version,
             sr_auth_port = ucast (uc_reg_port uc), sr_ipv6 = []\<rparr>\<rparr>)"

section \<open>Operations\<close>

definition send_event :: "warp_event \<Rightarrow> manager \<Rightarrow> manager" where
  "send_event e m = m\<lparr>mg_events := mg_events m @ [e]\<rparr>"

definition put_remote :: "string \<Rightarrow> remote \<Rightarrow> manager \<Rightarrow> manager" where
  "put_remote uuid r m = m\<lparr>mg_remotes := (mg_remotes m)(uuid \<mapsto> r)\<rparr>"

text \<open>
  \<open>add_remote\<close> takes the two locks one after the other and sends the event after both: three
  atomic sections. It returns the handle of the new worker, whose loop is spawned.
\<close>

definition insert_worker :: "token \<Rightarrow> string \<Rightarrow> manager \<Rightarrow> nat \<times> manager" where
  "insert_worker tok uuid m =
     (let i = length (mg_arena m)
      in (i, m\<lparr>mg_arena := mg_arena m @ [worker_new uuid tok],
               mg_workers := (mg_workers m)(uuid \<mapsto> i)\<rparr>))"

definition insert_remote :: "remote \<Rightarrow> manager \<Rightarrow> manager" where
  "insert_remote r m = put_remote (r_uuid r) r m"

definition announce_remote :: "nat \<Rightarrow> string \<Rightarrow> manager \<Rightarrow> manager" where
  "announce_remote i uuid m =
     send_event (RemoteAdded uuid)
       (m\<lparr>mg_arena := (mg_arena m)[i := (mg_arena m ! i)\<lparr>w_loop := True\<rparr>]\<rparr>)"

definition add_remote :: "token \<Rightarrow> remote \<Rightarrow> manager \<Rightarrow> nat \<times> manager" where
  "add_remote tok r m =
     (let uuid = r_uuid r; (i, m1) = insert_worker tok uuid m
      in (i, announce_remote i uuid (insert_remote r m1)))"

definition update_remote ::
  "string \<Rightarrow> (remote \<Rightarrow> remote) \<Rightarrow> manager \<Rightarrow> (unit, update_error) result \<times> manager" where
  "update_remote uuid f m =
     (case mg_remotes m uuid of
        Some r \<Rightarrow> (Ok (), send_event (RemoteUpdated uuid) (put_remote uuid (f r) m))
      | None \<Rightarrow> (Err UE_NotFound, m))"

text \<open>The asynchronous variant awaits the closure while it holds the lock.\<close>

definition update_remote_async ::
  "string \<Rightarrow> (remote \<Rightarrow> remote) \<Rightarrow> manager \<Rightarrow> (unit, update_error) result \<times> manager" where
  "update_remote_async uuid f m =
     (case mg_remotes m uuid of
        Some r \<Rightarrow> (Ok (), send_event (RemoteUpdated uuid) (put_remote uuid (f r) m))
      | None \<Rightarrow> (Err UE_NotFound, m))"

definition add_transfer ::
  "string \<Rightarrow> transfer \<Rightarrow> manager \<Rightarrow> (unit, update_error) result \<times> manager" where
  "add_transfer ru t m =
     (case mg_remotes m ru of
        Some r \<Rightarrow> (Ok (), send_event (TransferAdded ru (t_uuid t))
                          (put_remote ru (r\<lparr>r_transfers := r_transfers r @ [t]\<rparr>) m))
      | None \<Rightarrow> (Err UE_NotFound, m))"

definition has_uuid :: "string \<Rightarrow> transfer \<Rightarrow> bool" where
  "has_uuid u t = (t_uuid t = u)"

definition update_transfer ::
  "nat \<Rightarrow> string \<Rightarrow> string \<Rightarrow> (transfer \<Rightarrow> transfer) \<Rightarrow> manager
    \<Rightarrow> (unit, update_error) result \<times> manager" where
  "update_transfer qlen ru tu f m =
     (case mg_remotes m ru of
        None \<Rightarrow> (Err UE_NotFound, m)
      | Some r \<Rightarrow>
         (case find (has_uuid tu) (r_transfers r) of
            None \<Rightarrow> (Err UE_NotFound, m)
          | Some t \<Rightarrow>
             (let m1 = put_remote ru
                         (r\<lparr>r_transfers := upd_first (has_uuid tu) f (r_transfers r)\<rparr>) m
              in (Ok (),
                  if qlen < 128 \<or> discriminant (t_state (f t)) \<noteq> discriminant (t_state t)
                  then send_event (TransferUpdated ru tu) m1 else m1))))"

definition remove_transfer ::
  "string \<Rightarrow> string \<Rightarrow> manager \<Rightarrow> (unit, update_error) result \<times> manager" where
  "remove_transfer ru tu m =
     (case mg_remotes m ru of
        None \<Rightarrow> (Err UE_NotFound, m)
      | Some r \<Rightarrow>
         (case find (has_uuid tu) (r_transfers r) of
            None \<Rightarrow> (Err UE_NotFound, m)
          | Some t \<Rightarrow>
             (Ok (), send_event (TransferRemoved ru tu)
                (put_remote ru (r\<lparr>r_transfers := del_first (has_uuid tu) (r_transfers r)\<rparr>) m))))"

definition add_message ::
  "string \<Rightarrow> message \<Rightarrow> manager \<Rightarrow> (unit, update_error) result \<times> manager" where
  "add_message ru msg m =
     (case mg_remotes m ru of
        Some r \<Rightarrow> (Ok (), send_event (MessageAdded ru (m_uuid msg))
                          (put_remote ru (r\<lparr>r_messages := r_messages r @ [msg]\<rparr>) m))
      | None \<Rightarrow> (Err UE_NotFound, m))"

definition remove_message ::
  "string \<Rightarrow> string \<Rightarrow> manager \<Rightarrow> (unit, update_error) result \<times> manager" where
  "remove_message ru mu m =
     (case mg_remotes m ru of
        None \<Rightarrow> (Err UE_NotFound, m)
      | Some r \<Rightarrow>
         (case find (\<lambda>x. m_uuid x = mu) (r_messages r) of
            None \<Rightarrow> (Err UE_NotFound, m)
          | Some x \<Rightarrow>
             (Ok (), send_event (MessageRemoved ru mu)
                (put_remote ru (r\<lparr>r_messages := del_first (\<lambda>x. m_uuid x = mu) (r_messages r)\<rparr>) m))))"

definition get_worker :: "string \<Rightarrow> manager \<Rightarrow> nat option" where
  "get_worker uuid m = mg_workers m uuid"

definition get_remote :: "string \<Rightarrow> manager \<Rightarrow> remote option" where
  "get_remote uuid m = mg_remotes m uuid"

text \<open>\<open>remotes()\<close> lists the values in the map's iteration order, which is an argument.\<close>

definition get_remotes :: "string list \<Rightarrow> manager \<Rightarrow> remote list" where
  "get_remotes order m = List.map_filter (mg_remotes m) order"

definition get_transfer :: "string \<Rightarrow> string \<Rightarrow> manager \<Rightarrow> transfer option" where
  "get_transfer ru tu m =
     (case mg_remotes m ru of None \<Rightarrow> None | Some r \<Rightarrow> find (has_uuid tu) (r_transfers r))"

definition transfer_by_protocol_id :: "string \<Rightarrow> u64 \<Rightarrow> manager \<Rightarrow> transfer option" where
  "transfer_by_protocol_id ru pid m =
     (case mg_remotes m ru of
        None \<Rightarrow> None | Some r \<Rightarrow> find (\<lambda>t. t_protocol_id t = pid) (r_transfers r))"

definition get_transfers :: "string \<Rightarrow> manager \<Rightarrow> transfer list option" where
  "get_transfers ru m = map_option r_transfers (mg_remotes m ru)"

definition get_message :: "string \<Rightarrow> string \<Rightarrow> manager \<Rightarrow> message option" where
  "get_message ru mu m =
     (case mg_remotes m ru of None \<Rightarrow> None | Some r \<Rightarrow> find (\<lambda>x. m_uuid x = mu) (r_messages r))"

definition get_messages :: "string \<Rightarrow> manager \<Rightarrow> message list option" where
  "get_messages ru m = map_option r_messages (mg_remotes m ru)"

section \<open>Reading after writing\<close>

lemma send_event_simps [simp, frame]:
  "mg_remotes (send_event e m) = mg_remotes m" "mg_workers (send_event e m) = mg_workers m"
  "mg_arena (send_event e m) = mg_arena m" "mg_events (send_event e m) = mg_events m @ [e]"
  "mg_cancelled (send_event e m) = mg_cancelled m" "mg_fullname (send_event e m) = mg_fullname m"
  by (simp_all add: send_event_def)

lemma put_remote_simps [simp, frame]:
  "mg_remotes (put_remote u r m) = (mg_remotes m)(u \<mapsto> r)"
  "mg_workers (put_remote u r m) = mg_workers m" "mg_arena (put_remote u r m) = mg_arena m"
  "mg_events (put_remote u r m) = mg_events m" "mg_cancelled (put_remote u r m) = mg_cancelled m"
  "mg_fullname (put_remote u r m) = mg_fullname m"
  by (simp_all add: put_remote_def)

lemma update_remote_async_eq: "update_remote_async = update_remote"
  by (simp add: fun_eq_iff update_remote_async_def update_remote_def)

lemma mg_remotes_update_remote [simp]:
  "mg_remotes (snd (update_remote u f m)) = (mg_remotes m)(u := map_option f (mg_remotes m u))"
  by (auto simp: update_remote_def fun_eq_iff split: option.splits)

lemma mg_remotes_update_transfer:
  "mg_remotes (snd (update_transfer q ru tu f m)) =
    (mg_remotes m)(ru := map_option
       (\<lambda>r. r\<lparr>r_transfers := upd_first (has_uuid tu) f (r_transfers r)\<rparr>) (mg_remotes m ru))"
proof (cases "mg_remotes m ru")
  case None
  then show ?thesis by (simp add: update_transfer_def fun_eq_iff)
next
  case (Some r)
  then show ?thesis
    by (cases "find (has_uuid tu) (r_transfers r)")
      (simp_all add: update_transfer_def Let_def fun_eq_iff)
qed

lemma update_frame [simp, frame]:
  "mg_workers (snd (update_remote u f m)) = mg_workers m"
  "mg_arena (snd (update_remote u f m)) = mg_arena m"
  "mg_cancelled (snd (update_remote u f m)) = mg_cancelled m"
  "mg_fullname (snd (update_remote u f m)) = mg_fullname m"
  "mg_workers (snd (update_transfer q ru tu g m)) = mg_workers m"
  "mg_arena (snd (update_transfer q ru tu g m)) = mg_arena m"
  "mg_cancelled (snd (update_transfer q ru tu g m)) = mg_cancelled m"
  "mg_fullname (snd (update_transfer q ru tu g m)) = mg_fullname m"
  by (auto simp: update_remote_def update_transfer_def Let_def split: option.splits)

lemma update_remote_result:
  "fst (update_remote u f m) = (if mg_remotes m u = None then Err UE_NotFound else Ok ())"
  by (simp add: update_remote_def split: option.splits)

lemma update_transfer_result:
  "fst (update_transfer q ru tu f m) =
    (if get_transfer ru tu m = None then Err UE_NotFound else Ok ())"
  by (simp add: update_transfer_def get_transfer_def Let_def split: option.splits)

text \<open>A closure that keeps the transfer's identity.\<close>

definition keeps_uuid :: "(transfer \<Rightarrow> transfer) \<Rightarrow> bool" where
  "keeps_uuid f \<longleftrightarrow> (\<forall>t. t_uuid (f t) = t_uuid t)"

text \<open>The two keyed stores of the manager: remotes by UUID, transfers by the pair of UUIDs.\<close>

interpretation remotes: keyed_store
  "\<lambda>m u. get_remote u m" "\<lambda>(q :: unit) u f m. snd (update_remote u f m)" "\<lambda>f. True"
  by unfold_locales (simp_all add: get_remote_def)

interpretation transfers: keyed_store
  "\<lambda>m k. get_transfer (fst k) (snd k) m"
  "\<lambda>q k f m. snd (update_transfer q (fst k) (snd k) f m)" keeps_uuid
proof unfold_locales
  fix f q m and k :: "string \<times> string"
  assume f: "keeps_uuid f"
  show "get_transfer (fst k) (snd k) (snd (update_transfer q (fst k) (snd k) f m)) =
      map_option f (get_transfer (fst k) (snd k) m)"
  proof (cases "mg_remotes m (fst k)")
    case (Some r)
    show ?thesis
    proof (cases "find (has_uuid (snd k)) (r_transfers r)")
      case None
      with Some show ?thesis by (simp add: get_transfer_def mg_remotes_update_transfer)
    next
      case (Some t)
      then have "has_uuid (snd k) (f t)"
        using f find_Some_prop [OF Some] by (simp add: has_uuid_def keeps_uuid_def)
      with Some \<open>mg_remotes m (fst k) = Some r\<close> show ?thesis
        by (simp add: get_transfer_def mg_remotes_update_transfer find_upd_first_same)
    qed
  qed (simp add: get_transfer_def mg_remotes_update_transfer)
next
  fix f q m and j k :: "string \<times> string"
  assume f: "keeps_uuid f" and ne: "j \<noteq> k"
  show "get_transfer (fst j) (snd j) (snd (update_transfer q (fst k) (snd k) f m)) =
      get_transfer (fst j) (snd j) m"
  proof (cases "fst j = fst k")
    case True
    with ne have "snd j \<noteq> snd k" by (simp add: prod_eq_iff)
    then have "find (has_uuid (snd j)) (upd_first (has_uuid (snd k)) f xs) =
        find (has_uuid (snd j)) xs" for xs
      using f by (intro find_upd_first_other) (auto simp: has_uuid_def keeps_uuid_def)
    then show ?thesis
      using True
      by (auto simp: get_transfer_def mg_remotes_update_transfer split: option.splits)
  next
    case False
    then show ?thesis by (simp add: get_transfer_def mg_remotes_update_transfer)
  qed
qed

end
