(* ===== verification/Warp_Manager_Inv.thy ===== *)
theory Warp_Manager_Inv
  imports Warp_Manager
begin

text \<open>
  The invariant of the remote manager and its preservation by every atomic operation, hence by
  every interleaving of the tasks of the crate.
\<close>

section \<open>The atomic operations\<close>

text \<open>
  Every atomic section of the crate on the shared state. The closures of \<open>update_remote\<close> and
  \<open>update_transfer\<close> are arbitrary functions here; the side conditions that the code's closures meet
  are in \<open>op_ok\<close>. The last three are the worker's own fields and \<open>token.cancel()\<close>.
\<close>

datatype mgr_op =
    InsertWorker token string
  | InsertRemote remote
  | AnnounceRemote nat string
  | UpdateRemote string "remote \<Rightarrow> remote"
  | AddTransfer string transfer
  | UpdateTransfer nat string string "transfer \<Rightarrow> transfer"
  | RemoveTransfer string string
  | AddMessage string message
  | RemoveMessage string string
  | UpdateWorker nat "worker \<Rightarrow> worker"
  | CancelToken token

definition update_worker :: "nat \<Rightarrow> (worker \<Rightarrow> worker) \<Rightarrow> manager \<Rightarrow> manager" where
  "update_worker i f m =
     (if i < length (mg_arena m) then m\<lparr>mg_arena := (mg_arena m)[i := f (mg_arena m ! i)]\<rparr> else m)"

definition cancel_token :: "token \<Rightarrow> manager \<Rightarrow> manager" where
  "cancel_token tok m = m\<lparr>mg_cancelled := mg_cancelled m @ [tok]\<rparr>"

lemma update_worker_simps [simp, frame]:
  "mg_remotes (update_worker i f m) = mg_remotes m"
  "mg_workers (update_worker i f m) = mg_workers m"
  "mg_events (update_worker i f m) = mg_events m"
  "mg_cancelled (update_worker i f m) = mg_cancelled m"
  "mg_fullname (update_worker i f m) = mg_fullname m"
  "length (mg_arena (update_worker i f m)) = length (mg_arena m)"
  by (simp_all add: update_worker_def)

lemma cancel_token_simps [simp, frame]:
  "mg_remotes (cancel_token t m) = mg_remotes m"
  "mg_workers (cancel_token t m) = mg_workers m"
  "mg_events (cancel_token t m) = mg_events m"
  "mg_arena (cancel_token t m) = mg_arena m"
  "mg_fullname (cancel_token t m) = mg_fullname m"
  "mg_cancelled (cancel_token t m) = mg_cancelled m @ [t]"
  by (simp_all add: cancel_token_def)

fun mgr_step :: "mgr_op \<Rightarrow> manager \<Rightarrow> manager" where
  "mgr_step (InsertWorker tok u) m = snd (insert_worker tok u m)"
| "mgr_step (InsertRemote r) m = insert_remote r m"
| "mgr_step (AnnounceRemote i u) m = announce_remote i u m"
| "mgr_step (UpdateRemote u f) m = snd (update_remote u f m)"
| "mgr_step (AddTransfer ru t) m = snd (add_transfer ru t m)"
| "mgr_step (UpdateTransfer q ru tu f) m = snd (update_transfer q ru tu f m)"
| "mgr_step (RemoveTransfer ru tu) m = snd (remove_transfer ru tu m)"
| "mgr_step (AddMessage ru x) m = snd (add_message ru x m)"
| "mgr_step (RemoveMessage ru mu) m = snd (remove_message ru mu m)"
| "mgr_step (UpdateWorker i f) m = update_worker i f m"
| "mgr_step (CancelToken tok) m = cancel_token tok m"

text \<open>
  What the code's calls guarantee: closures on a remote leave its UUID, messages and transfers
  alone; closures on a transfer leave its identity alone; a new transfer has a fresh UUID and
  names the remote it is filed under; a new remote starts without transfers and comes after its
  worker, and its event comes after both (neither map ever loses an entry, so what the task did
  before still holds).
\<close>

definition remote_closure_ok :: "(remote \<Rightarrow> remote) \<Rightarrow> bool" where
  "remote_closure_ok f \<longleftrightarrow>
     (\<forall>r. r_uuid (f r) = r_uuid r \<and> r_transfers (f r) = r_transfers r)"

definition transfer_closure_ok :: "(transfer \<Rightarrow> transfer) \<Rightarrow> bool" where
  "transfer_closure_ok f \<longleftrightarrow>
     (\<forall>t. t_uuid (f t) = t_uuid t \<and> t_remote_uuid (f t) = t_remote_uuid t)"

fun op_ok :: "mgr_op \<Rightarrow> manager \<Rightarrow> bool" where
  "op_ok (InsertRemote r) m \<longleftrightarrow> r_transfers r = [] \<and> r_uuid r \<in> dom (mg_workers m)"
| "op_ok (AnnounceRemote i u) m \<longleftrightarrow> i < length (mg_arena m) \<and> u \<in> dom (mg_remotes m)"
| "op_ok (UpdateRemote u f) m \<longleftrightarrow> remote_closure_ok f"
| "op_ok (AddTransfer ru t) m \<longleftrightarrow> t_remote_uuid t = ru \<and> get_transfer ru (t_uuid t) m = None"
| "op_ok (UpdateTransfer q ru tu f) m \<longleftrightarrow> transfer_closure_ok f"
| "op_ok (UpdateWorker i f) m \<longleftrightarrow> (\<forall>w. w_uuid (f w) = w_uuid w)"
| "op_ok _ m \<longleftrightarrow> True"

section \<open>The invariant\<close>

fun event_remote :: "warp_event \<Rightarrow> string" where
  "event_remote (RemoteAdded u) = u"
| "event_remote (RemoteUpdated u) = u"
| "event_remote (TransferAdded u t) = u"
| "event_remote (TransferUpdated u t) = u"
| "event_remote (TransferRemoved u t) = u"
| "event_remote (MessageAdded u x) = u"
| "event_remote (MessageRemoved u x) = u"

definition remote_wf :: "string \<Rightarrow> remote \<Rightarrow> bool" where
  "remote_wf u r \<longleftrightarrow>
     r_uuid r = u \<and> distinct (map t_uuid (r_transfers r))
     \<and> (\<forall>t \<in> set (r_transfers r). t_remote_uuid t = u)"

definition workers_wf :: "manager \<Rightarrow> bool" where
  "workers_wf m \<longleftrightarrow>
     (\<forall>u i. mg_workers m u = Some i \<longrightarrow> i < length (mg_arena m) \<and> w_uuid (mg_arena m ! i) = u)"

definition mgr_inv :: "manager \<Rightarrow> bool" where
  "mgr_inv m \<longleftrightarrow>
     (\<forall>u r. mg_remotes m u = Some r \<longrightarrow> remote_wf u r)
     \<and> dom (mg_remotes m) \<subseteq> dom (mg_workers m)
     \<and> workers_wf m
     \<and> (\<forall>e \<in> set (mg_events m). event_remote e \<in> dom (mg_remotes m))"

lemma mgr_inv_new: "manager_new pc uc name = Some m \<Longrightarrow> mgr_inv m"
  by (auto simp: manager_new_def mgr_inv_def workers_wf_def split: option.splits)

text \<open>
  Every operation but \<open>add_remote\<close> replaces at most one remote and reports it: the shape from
  which preservation follows.
\<close>

lemma mgr_inv_put:
  assumes "mgr_inv m" and "u \<in> dom (mg_remotes m)" and "remote_wf u r"
    and "mg_remotes m' = (mg_remotes m)(u \<mapsto> r)" and "mg_workers m' = mg_workers m"
    and "mg_arena m' = mg_arena m"
    and "set (mg_events m') \<subseteq> insert e (set (mg_events m))" and "event_remote e = u"
  shows "mgr_inv m'"
proof -
  have d: "dom (mg_remotes m') = dom (mg_remotes m)" using assms(2,4) by auto
  show ?thesis
    unfolding mgr_inv_def d workers_wf_def
    using assms unfolding mgr_inv_def workers_wf_def by (auto split: if_splits)
qed

lemma remote_wf_upd:
  assumes "remote_wf u r" and "transfer_closure_ok f"
  shows "remote_wf u (r\<lparr>r_transfers := upd_first P f (r_transfers r)\<rparr>)"
proof -
  have "map t_uuid (upd_first P f (r_transfers r)) = map t_uuid (r_transfers r)"
    using assms(2) by (intro map_upd_first) (simp add: transfer_closure_ok_def)
  moreover have "t_remote_uuid t = u" if "t \<in> set (upd_first P f (r_transfers r))" for t
    using that set_upd_first assms by (fastforce simp: remote_wf_def transfer_closure_ok_def)
  ultimately show ?thesis using assms(1) by (simp add: remote_wf_def)
qed

lemma remote_wf_del:
  "remote_wf u r \<Longrightarrow> remote_wf u (r\<lparr>r_transfers := del_first P (r_transfers r)\<rparr>)"
  using set_del_first [of P "r_transfers r"] by (auto simp: remote_wf_def distinct_map_del_first)

lemma remote_wf_add:
  "remote_wf u r \<Longrightarrow> t_remote_uuid t = u \<Longrightarrow> find (has_uuid (t_uuid t)) (r_transfers r) = None \<Longrightarrow>
    remote_wf u (r\<lparr>r_transfers := r_transfers r @ [t]\<rparr>)"
proof -
  assume wf: "remote_wf u r" and u: "t_remote_uuid t = u"
    and fresh: "find (has_uuid (t_uuid t)) (r_transfers r) = None"
  have "t_uuid t \<notin> t_uuid ` set (r_transfers r)"
    using fresh unfolding find_None_all has_uuid_def by (metis imageE)
  then show ?thesis using wf u by (auto simp: remote_wf_def)
qed

lemma mgr_inv_remote: "mgr_inv m \<Longrightarrow> mg_remotes m u = Some r \<Longrightarrow> remote_wf u r"
  by (simp add: mgr_inv_def)

lemma mgr_inv_update_transfer:
  assumes "mgr_inv m" and "transfer_closure_ok f"
  shows "mgr_inv (snd (update_transfer q ru tu f m))"
proof (cases "get_transfer ru tu m")
  case None
  then have "snd (update_transfer q ru tu f m) = m"
    by (auto simp: update_transfer_def get_transfer_def split: option.splits)
  then show ?thesis using assms(1) by simp
next
  case (Some t)
  then obtain r where r: "mg_remotes m ru = Some r"
    by (auto simp: get_transfer_def split: option.splits)
  show ?thesis
  proof (rule mgr_inv_put [OF assms(1)])
    show "remote_wf ru (r\<lparr>r_transfers := upd_first (has_uuid tu) f (r_transfers r)\<rparr>)"
      using mgr_inv_remote [OF assms(1) r] assms(2) by (rule remote_wf_upd)
    show "set (mg_events (snd (update_transfer q ru tu f m)))
        \<subseteq> insert (TransferUpdated ru tu) (set (mg_events m))"
      by (auto simp: update_transfer_def Let_def split: option.splits)
  qed (use r in \<open>auto simp: mg_remotes_update_transfer\<close>)
qed

lemma mgr_inv_insert_worker: "mgr_inv m \<Longrightarrow> mgr_inv (snd (insert_worker tok u m))"
  by (auto simp: mgr_inv_def insert_worker_def Let_def workers_wf_def worker_new_def nth_append
      intro: less_SucI)

lemma mgr_inv_insert_remote:
  assumes "mgr_inv m" and "r_transfers r = []" and "r_uuid r \<in> dom (mg_workers m)"
  shows "mgr_inv (insert_remote r m)"
  using assms by (auto simp: mgr_inv_def insert_remote_def workers_wf_def remote_wf_def)

lemma mgr_inv_announce_remote:
  assumes "mgr_inv m" and "i < length (mg_arena m)" and "u \<in> dom (mg_remotes m)"
  shows "mgr_inv (announce_remote i u m)"
  using assms
  by (auto simp: mgr_inv_def announce_remote_def workers_wf_def nth_list_update)

lemma mgr_inv_update_worker:
  assumes "mgr_inv m" and "\<And>w. w_uuid (f w) = w_uuid w"
  shows "mgr_inv (update_worker i f m)"
proof -
  have "w_uuid (mg_arena (update_worker i f m) ! j) = w_uuid (mg_arena m ! j)" for j
    by (cases "j = i") (simp_all add: update_worker_def assms(2))
  then show ?thesis using assms(1) by (simp add: mgr_inv_def workers_wf_def)
qed

lemma mgr_inv_cancel_token: "mgr_inv m \<Longrightarrow> mgr_inv (cancel_token tok m)"
  by (simp add: mgr_inv_def workers_wf_def)

lemma mgr_inv_update_remote:
  assumes "mgr_inv m" and "remote_closure_ok f"
  shows "mgr_inv (snd (update_remote u f m))"
proof (cases "mg_remotes m u")
  case None
  then show ?thesis using assms(1) by (simp add: update_remote_def)
next
  case (Some r)
  have wf: "remote_wf u (f r)"
    using mgr_inv_remote [OF assms(1) Some] assms(2)
    by (simp add: remote_wf_def remote_closure_ok_def)
  show ?thesis
    by (rule mgr_inv_put [OF assms(1) _ wf, where e = "RemoteUpdated u"])
      (use Some in \<open>auto simp: update_remote_def\<close>)
qed

lemma mgr_inv_add_transfer:
  assumes "mgr_inv m" and "t_remote_uuid t = ru" and "get_transfer ru (t_uuid t) m = None"
  shows "mgr_inv (snd (add_transfer ru t m))"
proof (cases "mg_remotes m ru")
  case None
  then show ?thesis using assms(1) by (simp add: add_transfer_def)
next
  case (Some r)
  have wf: "remote_wf ru (r\<lparr>r_transfers := r_transfers r @ [t]\<rparr>)"
    using mgr_inv_remote [OF assms(1) Some] assms(2,3) Some
    by (intro remote_wf_add) (auto simp: get_transfer_def)
  show ?thesis
    by (rule mgr_inv_put [OF assms(1) _ wf, where e = "TransferAdded ru (t_uuid t)"])
      (use Some in \<open>auto simp: add_transfer_def\<close>)
qed

lemma mgr_inv_remove_transfer:
  assumes "mgr_inv m"
  shows "mgr_inv (snd (remove_transfer ru tu m))"
proof (cases "get_transfer ru tu m")
  case None
  then show ?thesis
    using assms by (auto simp: remove_transfer_def get_transfer_def split: option.splits)
next
  case (Some t)
  then obtain r where r: "mg_remotes m ru = Some r" "find (has_uuid tu) (r_transfers r) = Some t"
    by (auto simp: get_transfer_def split: option.splits)
  show ?thesis
    by (rule mgr_inv_put [OF assms _ remote_wf_del [OF mgr_inv_remote [OF assms r(1)]],
          where e = "TransferRemoved ru tu"])
      (use r in \<open>auto simp: remove_transfer_def\<close>)
qed

lemma remote_wf_messages: "remote_wf u r \<Longrightarrow> remote_wf u (r\<lparr>r_messages := xs\<rparr>)"
  by (simp add: remote_wf_def)

lemma mgr_inv_add_message:
  assumes "mgr_inv m"
  shows "mgr_inv (snd (add_message ru x m))"
proof (cases "mg_remotes m ru")
  case None
  then show ?thesis using assms by (simp add: add_message_def)
next
  case (Some r)
  show ?thesis
    by (rule mgr_inv_put [OF assms _ remote_wf_messages [OF mgr_inv_remote [OF assms Some]],
          where e = "MessageAdded ru (m_uuid x)"])
      (use Some in \<open>auto simp: add_message_def\<close>)
qed

lemma mgr_inv_remove_message:
  assumes "mgr_inv m"
  shows "mgr_inv (snd (remove_message ru mu m))"
proof (cases "get_message ru mu m")
  case None
  then show ?thesis
    using assms by (auto simp: remove_message_def get_message_def split: option.splits)
next
  case (Some x)
  then obtain r where r: "mg_remotes m ru = Some r"
    "find (\<lambda>x. m_uuid x = mu) (r_messages r) = Some x"
    by (auto simp: get_message_def split: option.splits)
  show ?thesis
    by (rule mgr_inv_put [OF assms _ remote_wf_messages [OF mgr_inv_remote [OF assms r(1)]],
          where e = "MessageRemoved ru mu"])
      (use r in \<open>auto simp: remove_message_def\<close>)
qed

lemmas mgr_inv_ops =
  mgr_inv_insert_worker mgr_inv_insert_remote mgr_inv_announce_remote mgr_inv_update_remote mgr_inv_add_transfer mgr_inv_update_transfer
  mgr_inv_remove_transfer mgr_inv_add_message mgr_inv_remove_message mgr_inv_update_worker
  mgr_inv_cancel_token

lemma mgr_step_inv: "mgr_inv m \<Longrightarrow> op_ok e m \<Longrightarrow> mgr_inv (mgr_step e m)"
  by (cases e) (auto intro: mgr_inv_ops)

interpretation mgr: invariant_machine mgr_step op_ok mgr_inv
  by unfold_locales (rule mgr_step_inv)

section \<open>Properties\<close>

text \<open>
  C1. Whatever tasks run and however they interleave, the manager built by \<open>RemoteManager::new\<close>
  keeps its invariant: every remote is filed under its own UUID, its transfers have distinct UUIDs
  and name it, every known remote has a worker and that worker carries its UUID, and every
  event ever sent names a known remote.
\<close>

theorem manager_invariant_all_interleavings:
  assumes "manager_new pc uc name = Some m" and "mgr.ok_run ops m"
  shows "mgr_inv (fold mgr_step ops m)"
  using mgr.run_inv [OF mgr_inv_new [OF assms(1)] assms(2)] .

definition sample_user :: user_config where
  "sample_user = user_config_default\<lparr>uc_bind_addr_v4 := Some 0x7F000001\<rparr>"

definition sample_manager :: manager where
  "sample_manager = the (manager_new protocol_config_default sample_user ''me'')"

definition sample_remote :: remote where
  "sample_remote = remote_new ''peer'' (V4 1) 42000 42001 ''peer'' ''host''"

definition sample_incoming :: transfer where
  "sample_incoming =
     (transfer_new_outgoing \<lparr>u_text = ''t1'', u_hi = 3, u_lo = 4\<rparr> 5 ''peer'' [] 9)
       \<lparr>t_kind := Incoming [RootDir], t_state := WaitingPermission\<rparr>"

definition sample_ops :: "mgr_op list" where
  "sample_ops = [InsertWorker 1 ''peer'', InsertRemote sample_remote, AnnounceRemote 0 ''peer'',
     AddTransfer ''peer'' sample_incoming,
     UpdateTransfer 0 ''peer'' ''t1'' (\<lambda>t. t\<lparr>t_state := InProgress\<rparr>),
     UpdateRemote ''peer'' (\<lambda>r. r\<lparr>r_state := Connected\<rparr>), RemoveTransfer ''peer'' ''t1'']"

lemma sample_manager_new:
  "manager_new protocol_config_default sample_user ''me'' = Some sample_manager"
  by (simp add: sample_manager_def manager_new_def sample_user_def)

lemma sample_ops_ok: "mgr.ok_run sample_ops sample_manager"
  by (simp add: sample_ops_def mgr.ok_run.simps sample_manager_def manager_new_def sample_user_def
      sample_remote_def remote_new_def insert_worker_def insert_remote_def announce_remote_def Let_def
      sample_incoming_def
      transfer_new_outgoing_def get_transfer_def transfer_closure_ok_def remote_closure_ok_def)

lemma manager_invariant_witness: "mgr_inv (fold mgr_step sample_ops sample_manager)"
  using manager_invariant_all_interleavings [OF sample_manager_new sample_ops_ok] .

end
