(* ===== verification/Warp_Paths.thy ===== *)
theory Warp_Paths
  imports Warp_Types
begin

text \<open>
  The operations of \<open>std::path\<close> (Unix) that the crate uses, on component lists, which is what
  Rust's own \<open>Path\<close> equality and \<open>starts_with\<close> compare; their text form; and
  \<open>sanitize_path_component\<close> of \<open>transfer_receiver.rs\<close>. \<open>resolve\<close> is the specification side: what a
  path means once its parent components are followed.
\<close>

section \<open>Parsing and printing\<close>

fun split_on :: "char \<Rightarrow> string \<Rightarrow> string list" where
  "split_on c [] = [[]]"
| "split_on c (x # xs) =
     (if x = c then [] # split_on c xs
      else (case split_on c xs of [] \<Rightarrow> [[x]] | w # ws \<Rightarrow> (x # w) # ws))"

definition component_of :: "string \<Rightarrow> component" where
  "component_of w = (if w = ''..'' then ParentDir else Normal w)"

definition body_components :: "string list \<Rightarrow> component list" where
  "body_components ws = map component_of (filter (\<lambda>w. w \<noteq> ''.'') ws)"

text \<open>
  \<open>Path::components\<close>: empty segments are dropped, and so are current-directory segments, except
  one that begins a relative path.
\<close>

definition path_of :: "string \<Rightarrow> path" where
  "path_of s =
     (let ws = filter (\<lambda>w. w \<noteq> []) (split_on CHR ''/'' s)
      in if take 1 s = ''/'' then RootDir # body_components ws
         else (case ws of
                 [] \<Rightarrow> []
               | w # ws' \<Rightarrow> if w = ''.'' then CurDir # body_components ws'
                           else body_components ws))"

fun component_text :: "component \<Rightarrow> string" where
  "component_text RootDir = []"
| "component_text CurDir = ''.''"
| "component_text ParentDir = ''..''"
| "component_text (Normal w) = w"

fun join_slash :: "string list \<Rightarrow> string" where
  "join_slash [] = []"
| "join_slash [w] = w"
| "join_slash (w # ws) = w @ CHR ''/'' # join_slash ws"

definition path_text :: "path \<Rightarrow> string" where
  "path_text p =
     (case p of
        RootDir # cs \<Rightarrow> CHR ''/'' # join_slash (map component_text cs)
      | _ \<Rightarrow> join_slash (map component_text p))"

definition normal_name :: "string \<Rightarrow> bool" where
  "normal_name w \<longleftrightarrow> w \<noteq> [] \<and> w \<noteq> ''.'' \<and> w \<noteq> ''..'' \<and> CHR ''/'' \<notin> set w"

fun body_wf :: "component \<Rightarrow> bool" where
  "body_wf (Normal w) = normal_name w"
| "body_wf ParentDir = True"
| "body_wf _ = False"

text \<open>The component lists that arise as the components of some path.\<close>

definition path_wf :: "path \<Rightarrow> bool" where
  "path_wf p =
     (case p of
        RootDir # cs \<Rightarrow> list_all body_wf cs
      | CurDir # cs \<Rightarrow> list_all body_wf cs
      | _ \<Rightarrow> list_all body_wf p)"

lemma split_on_nonempty [simp]: "split_on c s \<noteq> []"
  by (induction s) (auto split: list.splits)

lemma split_on_no_sep: "c \<notin> set s \<Longrightarrow> split_on c s = [s]"
  by (induction s) auto

lemma split_on_append: "c \<notin> set w \<Longrightarrow> split_on c (w @ c # s) = w # split_on c s"
  by (induction w) auto

lemma split_on_words: "w \<in> set (split_on c s) \<Longrightarrow> c \<notin> set w"
proof (induction s arbitrary: w)
  case (Cons x xs)
  then show ?case by (cases "split_on c xs") (auto split: if_splits)
qed simp

lemma split_on_chars: "w \<in> set (split_on c s) \<Longrightarrow> set w \<subseteq> set s"
proof (induction s arbitrary: w)
  case (Cons x xs)
  then show ?case by (cases "split_on c xs") (fastforce split: if_splits)+
qed simp

lemma split_on_join:
  "ws \<noteq> [] \<Longrightarrow> \<forall>w \<in> set ws. CHR ''/'' \<notin> set w \<Longrightarrow> split_on CHR ''/'' (join_slash ws) = ws"
  by (induction ws rule: join_slash.induct) (auto simp: split_on_no_sep split_on_append)

lemma component_of_text: "body_wf c \<Longrightarrow> component_of (component_text c) = c"
  by (cases c) (auto simp: component_of_def normal_name_def)

lemma component_text_wf:
  "body_wf c \<Longrightarrow> CHR ''/'' \<notin> set (component_text c) \<and> component_text c \<noteq> []
     \<and> component_text c \<noteq> ''.''"
  by (cases c) (auto simp: normal_name_def)

lemma body_components_text:
  "list_all body_wf cs \<Longrightarrow> body_components (map component_text cs) = cs"
  by (induction cs) (auto simp: body_components_def component_of_text component_text_wf)

lemma words_of_body:
  assumes "list_all body_wf cs"
  shows "filter (\<lambda>w. w \<noteq> []) (split_on CHR ''/'' (join_slash (map component_text cs))) =
    map component_text cs"
proof (cases cs)
  case Nil
  then show ?thesis by simp
next
  case (Cons c cs')
  have "split_on CHR ''/'' (join_slash (map component_text cs)) = map component_text cs"
    by (rule split_on_join) (use assms Cons component_text_wf in \<open>auto simp: list_all_iff\<close>)
  moreover have "filter (\<lambda>w. w \<noteq> []) (map component_text cs) = map component_text cs"
    using assms component_text_wf by (auto simp: list_all_iff filter_id_conv)
  ultimately show ?thesis by simp
qed

lemma join_slash_head:
  assumes "list_all body_wf cs" "cs \<noteq> []"
  shows "take 1 (join_slash (map component_text cs)) \<noteq> ''/''"
proof -
  obtain c cs' where cs: "cs = c # cs'" using assms(2) by (cases cs) auto
  have "component_text c \<noteq> []" "CHR ''/'' \<notin> set (component_text c)"
    using assms(1) cs component_text_wf by auto
  then show ?thesis
    using cs by (cases cs'; cases "component_text c") auto
qed

text \<open>Printing a path of normal and parent components and parsing it back gives the path.\<close>

lemma path_of_text_relative:
  assumes "list_all body_wf p"
  shows "path_of (path_text p) = p"
proof (cases p)
  case Nil
  then show ?thesis by (simp add: path_of_def path_text_def)
next
  case (Cons c cs)
  have t: "path_text p = join_slash (map component_text p)"
    using assms Cons by (cases c) (auto simp: path_text_def)
  have "component_text c \<noteq> ''.''" using assms Cons component_text_wf by simp
  then show ?thesis
    using words_of_body [OF assms] join_slash_head [OF assms] body_components_text [OF assms]
    unfolding path_of_def t Let_def by (simp add: Cons)
qed

lemma path_of_text_absolute:
  assumes "list_all body_wf cs"
  shows "path_of (path_text (RootDir # cs)) = RootDir # cs"
  using words_of_body [OF assms] body_components_text [OF assms]
  by (simp add: path_of_def path_text_def)

section \<open>The operations\<close>

definition has_root :: "path \<Rightarrow> bool" where
  "has_root p = (case p of RootDir # _ \<Rightarrow> True | _ \<Rightarrow> False)"

text \<open>\<open>p.join(q)\<close>: an absolute \<open>q\<close> replaces \<open>p\<close>.\<close>

definition path_join :: "path \<Rightarrow> path \<Rightarrow> path" where
  "path_join p q =
     (if has_root q then q else if p = [] then q
      else p @ (case q of CurDir # r \<Rightarrow> r | _ \<Rightarrow> q))"

definition path_starts_with :: "path \<Rightarrow> path \<Rightarrow> bool" where
  "path_starts_with p b = prefix b p"

definition path_parent :: "path \<Rightarrow> path option" where
  "path_parent p = (if p = [] \<or> last p = RootDir then None else Some (butlast p))"

definition path_file_name :: "path \<Rightarrow> string option" where
  "path_file_name p =
     (if p = [] then None else (case last p of Normal w \<Rightarrow> Some w | _ \<Rightarrow> None))"

definition path_strip_prefix :: "path \<Rightarrow> path \<Rightarrow> path option" where
  "path_strip_prefix p b = (if prefix b p then Some (drop (length b) p) else None)"

definition sanitize_path_component :: "string \<Rightarrow> string" where
  "sanitize_path_component name =
     replace_chars [CHR 0x5C, CHR ''<'', CHR ''>'', CHR ''*'', CHR ''|'', CHR ''?'', CHR '':'',
       CHR 0x22] CHR ''_'' name"

lemma sanitize_length [simp]: "length (sanitize_path_component s) = length s"
  by (simp add: sanitize_path_component_def)

lemma sanitize_clean:
  "c \<in> {CHR 0x5C, CHR ''<'', CHR ''>'', CHR ''*'', CHR ''|'', CHR ''?'', CHR '':'', CHR 0x22} \<Longrightarrow>
    c \<notin> set (sanitize_path_component s)"
  unfolding sanitize_path_component_def by (rule replace_chars_clean) auto

lemma path_join_relative:
  "\<not> has_root q \<Longrightarrow> path_starts_with (path_join p q) p"
  by (auto simp: path_starts_with_def path_join_def)

section \<open>What a path denotes\<close>

text \<open>Follow the components from the left; a parent component removes the last name.\<close>

fun resolve_from :: "path \<Rightarrow> path \<Rightarrow> path" where
  "resolve_from acc [] = acc"
| "resolve_from acc (RootDir # cs) = resolve_from [RootDir] cs"
| "resolve_from acc (CurDir # cs) = resolve_from acc cs"
| "resolve_from acc (ParentDir # cs) =
     resolve_from (if acc = [] \<or> last acc = RootDir then acc else butlast acc) cs"
| "resolve_from acc (Normal w # cs) = resolve_from (acc @ [Normal w]) cs"

definition resolve :: "path \<Rightarrow> path" where
  "resolve p = resolve_from [] p"

definition plain :: "component \<Rightarrow> bool" where
  "plain c = (case c of Normal _ \<Rightarrow> True | _ \<Rightarrow> False)"

lemma resolve_from_append: "resolve_from acc (p @ q) = resolve_from (resolve_from acc p) q"
  by (induction acc p rule: resolve_from.induct) auto

lemma resolve_from_plain: "list_all plain q \<Longrightarrow> resolve_from acc q = acc @ q"
  by (induction q arbitrary: acc) (auto simp: plain_def split: component.splits)

text \<open>A path without root and parent components stays below the directory it is joined to.\<close>

lemma path_join_inside:
  assumes "ParentDir \<notin> set q" "\<not> has_root q" "RootDir \<notin> set (tl q)" "CurDir \<notin> set (tl q)"
    and "p \<noteq> []"
  shows "prefix (resolve p) (resolve (path_join p q))"
proof -
  let ?r = "case q of CurDir # r \<Rightarrow> r | _ \<Rightarrow> q"
  have "list_all plain ?r"
    using assms(1-4)
    by (auto simp: list_all_iff plain_def has_root_def split: list.splits component.splits)
  then show ?thesis
    using assms(2,5) by (simp add: path_join_def resolve_def resolve_from_append resolve_from_plain)
qed

lemma body_components_no_root: "RootDir \<notin> set (body_components ws)"
  "CurDir \<notin> set (body_components ws)"
  by (auto simp: body_components_def component_of_def)

lemma tl_path_of: "RootDir \<notin> set (tl (path_of s))" "CurDir \<notin> set (tl (path_of s))"
proof -
  have t: "c \<in> set (tl (body_components ws)) \<Longrightarrow> c \<in> set (body_components ws)" for c ws
    by (cases "body_components ws") auto
  show "RootDir \<notin> set (tl (path_of s))" "CurDir \<notin> set (tl (path_of s))"
    using body_components_no_root
    by (auto simp: path_of_def Let_def dest!: t split: list.splits if_splits)
qed

lemma str_contains_append: "str_contains pat (u @ pat @ v)"
proof (induction u)
  case Nil
  have "take (length pat) (pat @ v) = pat" by simp
  then show ?case by (cases "pat @ v") (auto simp del: append_eq_Cons_conv)
next
  case (Cons x u)
  then show ?case by simp
qed

lemma split_on_infix: "w \<in> set (split_on c s) \<Longrightarrow> \<exists>u v. s = u @ w @ v"
proof (induction s arbitrary: w)
  case (Cons x xs)
  obtain w1 ws where s: "split_on c xs = w1 # ws" by (cases "split_on c xs") auto
  have "\<exists>u v. xs = u @ w1 @ v" using Cons.IH [of w1] s by simp
  have head: "\<exists>v. xs = w1 @ v" using s
  proof (induction xs arbitrary: w1 ws)
    case (Cons y ys)
    then show ?case by (auto split: if_splits list.splits)
  qed simp
  show ?case
  proof (cases "x = c")
    case True
    then show ?thesis using Cons by (auto simp: s) (metis append_Cons append_Nil)+
  next
    case False
    with Cons.prems s consider "w = x # w1" | "w \<in> set ws" by auto
    then show ?thesis
    proof cases
      case 1
      with head show ?thesis by (metis append_Cons append_Nil)
    next
      case 2
      then have "w \<in> set (split_on c xs)" using s by simp
      then show ?thesis using Cons.IH by (metis append_Cons)
    qed
  qed
qed simp

text \<open>A path with a parent component has two dots in its text.\<close>

lemma parent_dir_has_dots:
  assumes "ParentDir \<in> set (path_of s)"
  shows "str_contains ''..'' s"
proof -
  let ?ws = "filter (\<lambda>w. w \<noteq> []) (split_on CHR ''/'' s)"
  have "''..'' \<in> set ?ws"
    using assms
    by (cases ?ws) (auto simp: path_of_def body_components_def component_of_def Let_def
        split: if_splits)
  then have "''..'' \<in> set (split_on CHR ''/'' s)" by simp
  then obtain u v where "s = u @ ''..'' @ v" using split_on_infix by blast
  then show ?thesis using str_contains_append by metis
qed

end
