(* ===== verification/Warp_Vfs.thy ===== *)
theory Warp_Vfs
  imports Warp_Types "HOL-Library.Multiset"
begin

text \<open>
  \<open>src/filesystem/vfs\<close>: the write-once global filesystem and its forwarding functions, and the
  breadth-first walk of \<open>walkdir.rs\<close>. The filesystem itself is supplied by the application (a
  trait object): here a record of functions. The walk is compared with a tree of what the
  directory listings say.
\<close>

section \<open>The virtual filesystem\<close>

record virtual_metadata =
  vm_is_dir :: bool
  vm_name :: string
  vm_size :: u64
  vm_file_count :: u64

definition vm_is_file :: "virtual_metadata \<Rightarrow> bool" where
  "vm_is_file m = (\<not> vm_is_dir m)"

record virtual_entry =
  ve_is_dir :: bool
  ve_path :: string
  ve_name :: string

definition entry_from_metadata :: "string \<Rightarrow> virtual_metadata \<Rightarrow> virtual_entry" where
  "entry_from_metadata p m = \<lparr>ve_is_dir = vm_is_dir m, ve_path = p, ve_name = vm_name m\<rparr>"

type_synonym fd = i32

record virtual_filesystem =
  vf_metadata :: "string \<Rightarrow> (virtual_metadata, vfs_error) result"
  vf_read_dir :: "string \<Rightarrow> (virtual_metadata list, vfs_error) result"
  vf_list_dir :: "string \<Rightarrow> (virtual_entry list, vfs_error) result"
  vf_create_dir :: "string \<Rightarrow> string \<Rightarrow> (string, vfs_error) result"
  vf_open_file :: "string \<Rightarrow> (fd, vfs_error) result"
  vf_create_file :: "string \<Rightarrow> string \<Rightarrow> (fd, vfs_error) result"

text \<open>The \<open>OnceLock\<close>: empty, or set once and for all.\<close>

type_synonym vfs = "virtual_filesystem option"

definition set_virtual_filesystem ::
  "virtual_filesystem \<Rightarrow> vfs \<Rightarrow> (unit, vfs_error) result \<times> vfs" where
  "set_virtual_filesystem v st =
     (case st of None \<Rightarrow> (Ok (), Some v) | Some _ \<Rightarrow> (Err VFS_AlreadySet, st))"

definition vfs_metadata :: "vfs \<Rightarrow> string \<Rightarrow> (virtual_metadata, vfs_error) result" where
  "vfs_metadata st p = (case st of Some v \<Rightarrow> vf_metadata v p | None \<Rightarrow> Err VFS_NotSet)"

definition vfs_read_dir :: "vfs \<Rightarrow> string \<Rightarrow> (virtual_metadata list, vfs_error) result" where
  "vfs_read_dir st p = (case st of Some v \<Rightarrow> vf_read_dir v p | None \<Rightarrow> Err VFS_NotSet)"

definition vfs_list_dir :: "vfs \<Rightarrow> string \<Rightarrow> (virtual_entry list, vfs_error) result" where
  "vfs_list_dir st p = (case st of Some v \<Rightarrow> vf_list_dir v p | None \<Rightarrow> Err VFS_NotSet)"

definition vfs_create_dir :: "vfs \<Rightarrow> string \<Rightarrow> string \<Rightarrow> (string, vfs_error) result" where
  "vfs_create_dir st p d = (case st of Some v \<Rightarrow> vf_create_dir v p d | None \<Rightarrow> Err VFS_NotSet)"

definition vfs_open_file :: "vfs \<Rightarrow> string \<Rightarrow> (fd, vfs_error) result" where
  "vfs_open_file st p = (case st of Some v \<Rightarrow> vf_open_file v p | None \<Rightarrow> Err VFS_NotSet)"

definition vfs_create_file :: "vfs \<Rightarrow> string \<Rightarrow> string \<Rightarrow> (fd, vfs_error) result" where
  "vfs_create_file st p f = (case st of Some v \<Rightarrow> vf_create_file v p f | None \<Rightarrow> Err VFS_NotSet)"

lemma set_virtual_filesystem_once:
  "snd (set_virtual_filesystem w (snd (set_virtual_filesystem v st))) =
    snd (set_virtual_filesystem v st)"
  by (simp add: set_virtual_filesystem_def split: option.splits)

section \<open>The directory walk\<close>

record walk_entry =
  we_is_dir :: bool
  we_path :: string
  we_name :: string
  we_base_path :: string

definition relative_path :: "walk_entry \<Rightarrow> string" where
  "relative_path e =
     (if we_base_path e = [] then we_name e else we_base_path e @ ''/'' @ we_name e)"

definition walk_new :: "string \<Rightarrow> string \<Rightarrow> walk_entry list" where
  "walk_new root_path root_name =
     [\<lparr>we_is_dir = True, we_path = root_path, we_name = root_name, we_base_path = []\<rparr>]"

definition walk_child :: "walk_entry \<Rightarrow> virtual_entry \<Rightarrow> walk_entry" where
  "walk_child e c =
     \<lparr>we_is_dir = ve_is_dir c, we_path = ve_path c, we_name = ve_name c,
      we_base_path = relative_path e\<rparr>"

text \<open>One call of \<open>next\<close>; a directory that cannot be listed is returned without children.\<close>

definition walk_next ::
  "vfs \<Rightarrow> walk_entry list \<Rightarrow> (walk_entry option, vfs_error) result \<times> walk_entry list" where
  "walk_next st q =
     (case q of
        [] \<Rightarrow> (Ok None, [])
      | e # rest \<Rightarrow>
          (Ok (Some e),
           if we_is_dir e
           then (case vfs_list_dir st (we_path e) of
                   Ok cs \<Rightarrow> rest @ map (walk_child e) cs
                 | Err _ \<Rightarrow> rest)
           else rest))"

text \<open>
  The caller's loop: \<open>next\<close> until it returns \<open>None\<close>. The first argument bounds the number of
  calls; \<open>None\<close> means it was not enough.
\<close>

fun walk_run :: "nat \<Rightarrow> vfs \<Rightarrow> walk_entry list \<Rightarrow> walk_entry list option" where
  "walk_run 0 st q = None"
| "walk_run (Suc n) st q =
     (case walk_next st q of
        (Ok (Some e), q') \<Rightarrow> map_option (Cons e) (walk_run n st q')
      | (Ok None, q') \<Rightarrow> Some []
      | (Err x, q') \<Rightarrow> Some [])"

text \<open>What the listings say: a tree with, for every entry, its kind, path, name and children.\<close>

datatype vtree = VNode (vt_is_dir: bool) (vt_path: string) (vt_name: string)
  (vt_children: "vtree list")

definition entry_of_tree :: "vtree \<Rightarrow> virtual_entry" where
  "entry_of_tree t = \<lparr>ve_is_dir = vt_is_dir t, ve_path = vt_path t, ve_name = vt_name t\<rparr>"

definition walk_entry_of :: "string \<times> vtree \<Rightarrow> walk_entry" where
  "walk_entry_of bt = (case bt of (b, t) \<Rightarrow>
     \<lparr>we_is_dir = vt_is_dir t, we_path = vt_path t, we_name = vt_name t, we_base_path = b\<rparr>)"

fun listed :: "vfs \<Rightarrow> vtree \<Rightarrow> bool" where
  "listed st (VNode d p n cs) =
     ((if d then vfs_list_dir st p = Ok (map entry_of_tree cs) \<or>
                 (cs = [] \<and> (case vfs_list_dir st p of Ok _ \<Rightarrow> False | Err _ \<Rightarrow> True))
       else cs = [])
      \<and> (\<forall>c \<in> set cs. listed st c))"

fun tree_entries :: "string \<Rightarrow> vtree \<Rightarrow> walk_entry list" where
  "tree_entries b (VNode d p n cs) =
     walk_entry_of (b, VNode d p n cs)
     # concat (map (tree_entries (relative_path (walk_entry_of (b, VNode d p n cs)))) cs)"

definition forest_entries :: "(string \<times> vtree) list \<Rightarrow> walk_entry list" where
  "forest_entries fs = concat (map (\<lambda>(b, t). tree_entries b t) fs)"

lemma forest_entries_append:
  "forest_entries (fs @ gs) = forest_entries fs @ forest_entries gs"
  by (simp add: forest_entries_def)

definition subforest :: "string \<times> vtree \<Rightarrow> (string \<times> vtree) list" where
  "subforest bt = map (Pair (relative_path (walk_entry_of bt))) (vt_children (snd bt))"

lemma forest_entries_Cons:
  "forest_entries (bt # fs) =
    walk_entry_of bt # forest_entries (subforest bt) @ forest_entries fs"
  by (cases bt; cases "snd bt") (simp add: forest_entries_def subforest_def comp_def)

lemma walk_next_forest:
  assumes "listed st (snd bt)"
  shows "walk_next st (map walk_entry_of (bt # fs)) =
    (Ok (Some (walk_entry_of bt)), map walk_entry_of (fs @ subforest bt))"
proof (cases bt)
  case (Pair b t)
  have child: "walk_child (walk_entry_of bt) \<circ> entry_of_tree =
      walk_entry_of \<circ> Pair (relative_path (walk_entry_of bt))"
    by (auto simp: walk_child_def walk_entry_of_def entry_of_tree_def)
  show ?thesis
    using assms Pair child
    by (cases t) (auto simp: walk_next_def walk_entry_of_def subforest_def
        split: result.splits if_splits)
qed

lemma subforest_listed: "listed st (snd bt) \<Longrightarrow> (b, t) \<in> set (subforest bt) \<Longrightarrow> listed st t"
  by (cases bt; cases "snd bt") (auto simp: subforest_def)

lemma walk_run_forest:
  "\<forall>(b, t) \<in> set fs. listed st t \<Longrightarrow> length (forest_entries fs) < n \<Longrightarrow>
    \<exists>es. walk_run n st (map walk_entry_of fs) = Some es \<and> mset es = mset (forest_entries fs)"
proof (induction n arbitrary: fs)
  case (Suc n)
  show ?case
  proof (cases fs)
    case Nil
    then show ?thesis by (simp add: walk_next_def forest_entries_def)
  next
    case (Cons bt rest)
    have t: "listed st (snd bt)" using Suc.prems(1) Cons by auto
    have "\<forall>(b, t) \<in> set (rest @ subforest bt). listed st t"
      using Suc.prems(1) Cons subforest_listed [OF t] by auto
    moreover have "length (forest_entries (rest @ subforest bt)) < n"
      using Suc.prems(2) by (simp add: Cons forest_entries_Cons forest_entries_append)
    ultimately obtain es where
      "walk_run n st (map walk_entry_of (rest @ subforest bt)) = Some es"
      "mset es = mset (forest_entries (rest @ subforest bt))"
      using Suc.IH by blast
    then show ?thesis
      using walk_next_forest [OF t, of rest]
      by (simp add: Cons forest_entries_Cons forest_entries_append add.commute)
  qed
qed simp

text \<open>
  C39. Walking a directory visits every entry below it exactly once: if the listings describe the
  tree \<open>VNode True p n cs\<close> (a directory whose listing fails counts as empty), then one call of
  \<open>next\<close> per entry, and one more, return all entries of the tree with their relative paths, as a
  multiset, and end with \<open>None\<close>.
\<close>

theorem walk_visits_every_entry_once:
  assumes "listed st (VNode True p n cs)"
  shows "\<exists>es. walk_run (Suc (length (tree_entries [] (VNode True p n cs)))) st (walk_new p n) = Some es
    \<and> mset es = mset (tree_entries [] (VNode True p n cs))"
proof -
  let ?t = "VNode True p n cs"
  have q: "map walk_entry_of [([], ?t)] = walk_new p n"
    by (simp add: walk_new_def walk_entry_of_def)
  have f: "forest_entries [([], ?t)] = tree_entries [] ?t"
    by (simp only: forest_entries_def) simp
  have l: "\<forall>(b, t) \<in> set [([] :: string, ?t)]. listed st t" using assms by simp
  show ?thesis
    using walk_run_forest [OF l, of "Suc (length (tree_entries [] ?t))"]
    unfolding q f by blast
qed

definition sample_vfs :: vfs where
  "sample_vfs = Some
     \<lparr>vf_metadata = (\<lambda>p. Err VFS_FileNotFound), vf_read_dir = (\<lambda>p. Err VFS_FileNotFound),
      vf_list_dir = (\<lambda>p. if p = ''/d'' then Ok [\<lparr>ve_is_dir = False, ve_path = ''/d/a'', ve_name = ''a''\<rparr>]
                         else Err VFS_FileNotFound),
      vf_create_dir = (\<lambda>p d. Err VFS_PermissionDenied), vf_open_file = (\<lambda>p. Err VFS_FileNotFound),
      vf_create_file = (\<lambda>p f. Err VFS_PermissionDenied)\<rparr>"

lemma walk_visits_witness:
  "listed sample_vfs (VNode True ''/d'' ''d'' [VNode False ''/d/a'' ''a'' []])
   \<and> (\<exists>es. walk_run (Suc (length (tree_entries [] (VNode True ''/d'' ''d'' [VNode False ''/d/a'' ''a'' []]))))
           sample_vfs (walk_new ''/d'' ''d'') = Some es
         \<and> mset es = mset (tree_entries [] (VNode True ''/d'' ''d'' [VNode False ''/d/a'' ''a'' []])))"
proof -
  have "listed sample_vfs (VNode True ''/d'' ''d'' [VNode False ''/d/a'' ''a'' []])"
    by (simp add: sample_vfs_def vfs_list_dir_def entry_of_tree_def)
  then show ?thesis using walk_visits_every_entry_once by blast
qed

end
