(* ===== verification/Warp_Speed.thy ===== *)
theory Warp_Speed
  imports Warp_Types
begin

text \<open>
  \<open>src/server/transfers/mod.rs\<close>: file types and the moving average of the transfer speed; and the
  conversions of file times that sender and receiver use. An \<open>f64\<close> is the rational it denotes;
  every arithmetic result is rounded to 53 significant bits, ties to even, as IEEE 754 does in the
  normal range.
\<close>

section \<open>File types\<close>

datatype file_type = File | Directory | Symlink

definition file_type_try_from :: "i32 \<Rightarrow> (file_type, unit) result" where
  "file_type_try_from v =
     (if v = 1 then Ok File else if v = 2 then Ok Directory else if v = 3 then Ok Symlink
      else Err ())"

fun i32_of_file_type :: "file_type \<Rightarrow> i32" where
  "i32_of_file_type File = 1"
| "i32_of_file_type Directory = 2"
| "i32_of_file_type Symlink = 3"

lemma file_type_try_from_into [simp]: "file_type_try_from (i32_of_file_type t) = Ok t"
  by (cases t) (simp_all add: file_type_try_from_def)

lemma file_type_try_from_Ok: "file_type_try_from v = Ok t \<longleftrightarrow> v = i32_of_file_type t"
  by (cases t) (auto simp: file_type_try_from_def)

section \<open>Floating point\<close>

fun bit_count :: "nat \<Rightarrow> nat" where
  "bit_count n = (if n = 0 then 0 else Suc (bit_count (n div 2)))"

declare bit_count.simps [simp del]

definition pow2 :: "int \<Rightarrow> rat" where
  "pow2 e = (if 0 \<le> e then 2 ^ nat e else 1 / 2 ^ nat (- e))"

text \<open>Round a non-negative rational to the nearest \<open>f64\<close>.\<close>

definition round_f64 :: "rat \<Rightarrow> rat" where
  "round_f64 x =
     (if x \<le> 0 then 0
      else let (a, b) = quotient_of x;
               k = int (bit_count (nat a)) - int (bit_count (nat b));
               e = (if pow2 k \<le> x then k else k - 1);
               ulp = pow2 (e - 52);
               f = \<lfloor>x / ulp\<rfloor>;
               r = x / ulp - of_int f;
               n = (if r < 1 / 2 then f else if 1 / 2 < r then f + 1
                    else if even f then f else f + 1)
           in of_int n * ulp)"

definition f64_of_u64 :: "u64 \<Rightarrow> rat" where
  "f64_of_u64 n = round_f64 (of_nat (unat n))"

text \<open>\<open>x as u64\<close>: truncation towards zero, saturating at both ends.\<close>

definition u64_of_f64 :: "rat \<Rightarrow> u64" where
  "u64_of_f64 x =
     (if x \<le> 0 then 0 else if 2 ^ 64 \<le> x then - 1 else word_of_int \<lfloor>x\<rfloor>)"

section \<open>Moving average\<close>

record moving_average =
  ma_samples :: "u64 list"
  ma_window :: nat

definition ma_new :: "nat \<Rightarrow> moving_average" where
  "ma_new w = \<lparr>ma_samples = [], ma_window = w\<rparr>"

text \<open>The sum of the samples is a \<open>u64\<close> and wraps.\<close>

definition current_average :: "moving_average \<Rightarrow> u64" where
  "current_average m =
     (if ma_samples m = [] then 0
      else sum_list (ma_samples m) div of_nat (length (ma_samples m)))"

definition ma_push :: "moving_average \<Rightarrow> u64 \<Rightarrow> rat \<Rightarrow> u64 \<times> moving_average" where
  "ma_push m n elapsed =
     (if elapsed \<le> 0 then (current_average m, m)
      else let bps = u64_of_f64 (round_f64 (f64_of_u64 n / elapsed));
               m1 = m\<lparr>ma_samples := ma_samples m @ [bps]\<rparr>;
               m2 = (if ma_window m1 < length (ma_samples m1)
                     then m1\<lparr>ma_samples := tl (ma_samples m1)\<rparr> else m1)
           in (current_average m2, m2))"

definition ma_wf :: "moving_average \<Rightarrow> bool" where
  "ma_wf m \<longleftrightarrow> length (ma_samples m) \<le> ma_window m"

lemma ma_wf_new [simp]: "ma_wf (ma_new w)"
  by (simp add: ma_wf_def ma_new_def)

lemma ma_push_window [simp, frame]: "ma_window (snd (ma_push m n e)) = ma_window m"
  by (simp add: ma_push_def Let_def)

lemma ma_wf_push: "ma_wf m \<Longrightarrow> ma_wf (snd (ma_push m n e))"
  by (auto simp: ma_push_def ma_wf_def Let_def)

lemma fst_ma_push: "fst (ma_push m n e) = current_average (snd (ma_push m n e))"
  by (auto simp: ma_push_def Let_def)

lemma sum_unat_bounds:
  "(\<forall>x \<in> set xs. unat x \<le> hi) \<Longrightarrow> sum_list (map unat xs) \<le> length xs * hi"
  by (induction xs) auto

lemma sum_unat_lower:
  "(\<forall>x \<in> set xs. lo \<le> unat x) \<Longrightarrow> length xs * lo \<le> sum_list (map unat xs)"
  by (induction xs) auto

lemma unat_sum_list:
  "sum_list (map unat xs) < 2 ^ LENGTH('l) \<Longrightarrow>
    unat (sum_list xs :: 'l::len word) = sum_list (map unat xs)"
proof (induction xs)
  case (Cons x xs)
  then have "unat (sum_list xs) = sum_list (map unat xs)" by simp
  with Cons.prems show ?case by (simp add: unat_word_ariths)
qed simp

text \<open>When the sum does not overflow, the average lies between the least and the greatest sample.\<close>

lemma current_average_between:
  assumes ne: "ma_samples m \<noteq> []"
    and len: "length (ma_samples m) < 2 ^ 64"
    and no: "sum_list (map unat (ma_samples m)) < 2 ^ 64"
    and lo: "\<forall>x \<in> set (ma_samples m). lo \<le> unat x"
    and hi: "\<forall>x \<in> set (ma_samples m). unat x \<le> hi"
  shows "lo \<le> unat (current_average m) \<and> unat (current_average m) \<le> hi"
proof -
  let ?n = "length (ma_samples m)"
  have n: "0 < ?n" using ne by simp
  have "unat (current_average m) = sum_list (map unat (ma_samples m)) div ?n"
    using ne len no by (simp add: current_average_def unat_div unat_sum_list unat_of_nat)
  moreover have "lo \<le> sum_list (map unat (ma_samples m)) div ?n"
    using sum_unat_lower [OF lo] n by (simp add: less_eq_div_iff_mult_less_eq mult.commute)
  moreover have "sum_list (map unat (ma_samples m)) div ?n \<le> hi"
    using sum_unat_bounds [OF hi] n
    by (metis div_le_mono nonzero_mult_div_cancel_left less_numeral_extra(3))
  ultimately show ?thesis by simp
qed

section \<open>File times\<close>

text \<open>
  A \<open>SystemTime\<close> is a number of seconds (an \<open>i64\<close>) and nanoseconds relative to the epoch. The
  sender truncates to milliseconds and sends microseconds; the receiver multiplies by 1000 in
  \<open>u32\<close> (which wraps) and adds the duration to the epoch, which panics when the seconds do not
  fit an \<open>i64\<close>.
\<close>

type_synonym system_time = "int \<times> nat"

definition file_time_of_modified :: "system_time \<Rightarrow> file_time" where
  "file_time_of_modified t =
     (case t of (s, ns) \<Rightarrow>
        let (ds, dns) = (if s < 0 then (0, 0) else (s, ns))
        in \<lparr>ft_mtime = word_of_int ds, ft_mtime_usec = of_nat (dns div 1000000) * 1000\<rparr>)"

definition system_time_of_file_time :: "file_time \<Rightarrow> system_time outcome" where
  "system_time_of_file_time ft =
     (let ns = unat (ft_mtime_usec ft * 1000);
          s = unat (ft_mtime ft) + ns div 1000000000
      in if 2 ^ 64 \<le> s then Panic
         else if 2 ^ 63 \<le> s then Panic
         else Return (int s, ns mod 1000000000))"

lemma file_time_roundtrip:
  assumes "0 \<le> s" and "s < 2 ^ 63" and "ns < 1000000000"
  shows "system_time_of_file_time (file_time_of_modified (s, ns)) =
    Return (s, ns div 1000000 * 1000000)"
proof -
  have d: "ns div 1000000 < 1000" using assms(3) by simp
  have u: "unat ((of_nat (ns div 1000000) * 1000 :: u32) * 1000) = ns div 1000000 * 1000000"
    using d by (simp add: unat_word_ariths unat_of_nat mult.assoc)
  have s: "unat (word_of_int s :: u64) = nat s"
    using assms(1,2) by (simp add: unsigned_of_int take_bit_int_eq_self)
  have "ns div 1000000 * 1000000 < 1000000000" using d by simp
  then show ?thesis
    using assms(1,2) u s
    by (simp add: system_time_of_file_time_def file_time_of_modified_def Let_def)
qed

end
