(* ===== verification/Warp_Source.thy ===== *)
theory Warp_Source
  imports Warp_Paths Warp_Vfs Warp_Speed
begin

text \<open>
  \<open>Transfer::process_paths\<close> of \<open>src/types/transfer.rs\<close>, in its two feature variants: on the real
  filesystem (what \<open>tokio::fs::metadata\<close> and \<open>WalkDir\<close> answer are arguments) and on the virtual
  one. MIME guessing is a third-party function and an argument. Sizes and counts are \<open>u64\<close> and
  wrap.
\<close>

record file_metadata =
  md_is_file :: bool
  md_is_dir :: bool
  md_len :: u64
  md_modified :: "system_time option"

datatype source_path_error =
    SPE_Vfs vfs_error
  | SPE_IoError io_error_kind
  | UnsupportedPathType path

text \<open>An item of the walk: an error, or an entry with the answer to its \<open>metadata\<close> call.\<close>

datatype walked = WalkErr | WalkEntry path "(file_metadata, io_error_kind) result"

type_synonym tally = "u64 \<times> u64 \<times> string list"

fun tally_walked :: "walked list \<Rightarrow> u64 \<times> u64 \<Rightarrow> u64 \<times> u64" where
  "tally_walked [] acc = acc"
| "tally_walked (WalkErr # ws) acc = tally_walked ws acc"
| "tally_walked (WalkEntry p (Err e) # ws) acc = tally_walked ws acc"
| "tally_walked (WalkEntry p (Ok m) # ws) (sz, n) =
     tally_walked ws (if md_is_file m then (sz + md_len m, n + 1) else (sz, n))"

definition push_name :: "string option \<Rightarrow> string list \<Rightarrow> string list" where
  "push_name nm ns = (case nm of None \<Rightarrow> ns | Some n \<Rightarrow> ns @ [n])"

fun process_loop_real ::
  "(path \<Rightarrow> (file_metadata, io_error_kind) result) \<Rightarrow> (path \<Rightarrow> walked list) \<Rightarrow> path list \<Rightarrow> tally
    \<Rightarrow> (tally, source_path_error) result" where
  "process_loop_real meta walk [] acc = Ok acc"
| "process_loop_real meta walk (p # ps) (sz, n, names) =
     (case meta p of
        Err e \<Rightarrow> Err (SPE_IoError e)
      | Ok m \<Rightarrow>
          (let (sz', n') = (if md_is_file m then (sz + md_len m, n + 1)
                            else if md_is_dir m then tally_walked (walk p) (sz, n)
                            else (sz, n))
           in process_loop_real meta walk ps (sz', n', push_name (path_file_name p) names)))"

definition set_source_info ::
  "tally \<Rightarrow> string option \<Rightarrow> string option \<Rightarrow> transfer \<Rightarrow> transfer" where
  "set_source_info acc name mime t =
     (case acc of (sz, n, names) \<Rightarrow>
        t\<lparr>t_single_name := name, t_single_mime_type := mime, t_total_bytes := sz,
          t_entry_names := names, t_file_count := n\<rparr>)"

definition finish_loop ::
  "(tally, source_path_error) result \<Rightarrow> transfer \<Rightarrow> (unit, source_path_error) result \<times> transfer" where
  "finish_loop r t =
     (case r of Err e \<Rightarrow> (Err e, t) | Ok acc \<Rightarrow> (Ok (), set_source_info acc None None t))"

definition process_paths_real ::
  "(path \<Rightarrow> (file_metadata, io_error_kind) result) \<Rightarrow> (path \<Rightarrow> walked list) \<Rightarrow> (path \<Rightarrow> string)
    \<Rightarrow> path list \<Rightarrow> transfer \<Rightarrow> (unit, source_path_error) result \<times> transfer" where
  "process_paths_real meta walk mime paths t =
     (let many = finish_loop (process_loop_real meta walk paths (0, 0, [])) t
      in case paths of
           [p] \<Rightarrow>
             (case meta p of
                Err e \<Rightarrow> (Err (SPE_IoError e), t)
              | Ok m \<Rightarrow>
                  if md_is_file m
                  then (case path_file_name p of
                          None \<Rightarrow> (Err (UnsupportedPathType p), t)
                        | Some name \<Rightarrow>
                            (Ok (), set_source_info (md_len m, 1, [name]) (Some name)
                                      (Some (mime p)) t))
                  else many)
         | _ \<Rightarrow> many)"

section \<open>The virtual variant\<close>

text \<open>\<open>s.split_once('.').map(|s| s.1).unwrap_or_default()\<close>: what follows the first dot.\<close>

fun after_first_dot :: "string \<Rightarrow> string" where
  "after_first_dot [] = []"
| "after_first_dot (c # cs) = (if c = CHR ''.'' then cs else after_first_dot cs)"

fun process_loop_virtual ::
  "vfs \<Rightarrow> path list \<Rightarrow> tally \<Rightarrow> (tally, source_path_error) result" where
  "process_loop_virtual st [] acc = Ok acc"
| "process_loop_virtual st (p # ps) (sz, n, names) =
     (case vfs_metadata st (path_text p) of
        Err e \<Rightarrow> Err (SPE_Vfs e)
      | Ok m \<Rightarrow>
          if vm_is_dir m
          then (case vfs_read_dir st (path_text p) of
                  Err e \<Rightarrow> Err (SPE_Vfs e)
                | Ok es \<Rightarrow> process_loop_virtual st ps
                    (foldl (+) sz (map vm_size es), foldl (+) n (map vm_file_count es),
                     names @ [vm_name m]))
          else process_loop_virtual st ps (sz + vm_size m, n + 1, names @ [vm_name m]))"

definition process_paths_virtual ::
  "vfs \<Rightarrow> (string \<Rightarrow> string) \<Rightarrow> path list \<Rightarrow> transfer
    \<Rightarrow> (unit, source_path_error) result \<times> transfer" where
  "process_paths_virtual st mime_of_ext paths t =
     (let many = finish_loop (process_loop_virtual st paths (0, 0, [])) t
      in case paths of
           [p] \<Rightarrow>
             (case vfs_metadata st (path_text p) of
                Err e \<Rightarrow> (Err (SPE_Vfs e), t)
              | Ok m \<Rightarrow>
                  if \<not> vm_is_dir m
                  then (Ok (), set_source_info (vm_size m, 1, [vm_name m]) (Some (vm_name m))
                                 (Some (mime_of_ext (after_first_dot (vm_name m)))) t)
                  else many)
         | _ \<Rightarrow> many)"

section \<open>What the tally counts\<close>

text \<open>The sizes of the regular files that a source path stands for.\<close>

fun walked_sizes :: "walked list \<Rightarrow> u64 list" where
  "walked_sizes [] = []"
| "walked_sizes (WalkEntry p (Ok m) # ws) =
     (if md_is_file m then md_len m # walked_sizes ws else walked_sizes ws)"
| "walked_sizes (w # ws) = walked_sizes ws"

definition source_sizes ::
  "(path \<Rightarrow> (file_metadata, io_error_kind) result) \<Rightarrow> (path \<Rightarrow> walked list) \<Rightarrow> path \<Rightarrow> u64 list" where
  "source_sizes meta walk p =
     (case meta p of
        Err e \<Rightarrow> []
      | Ok m \<Rightarrow> if md_is_file m then [md_len m]
                else if md_is_dir m then walked_sizes (walk p) else [])"

lemma tally_walked_sizes:
  "tally_walked ws (sz, n) =
    (sz + sum_list (walked_sizes ws), n + of_nat (length (walked_sizes ws)))"
proof (induction ws arbitrary: sz n)
  case (Cons w ws)
  show ?case
  proof (cases w)
    case WalkErr
    then show ?thesis using Cons by simp
  next
    case (WalkEntry p r)
    then show ?thesis using Cons by (cases r) (simp_all add: algebra_simps)
  qed
qed simp

lemma process_loop_real_Ok:
  "process_loop_real meta walk ps (sz, n, names) = Ok (sz', n', names') \<Longrightarrow>
    sz' = sz + sum_list (concat (map (source_sizes meta walk) ps)) \<and>
    n' = n + of_nat (length (concat (map (source_sizes meta walk) ps)))"
proof (induction ps arbitrary: sz n names)
  case (Cons p ps)
  from Cons.prems obtain m where m: "meta p = Ok m"
    by (auto split: result.splits)
  obtain s1 n1 where step: "(if md_is_file m then (sz + md_len m, n + 1)
      else if md_is_dir m then tally_walked (walk p) (sz, n) else (sz, n)) = (s1, n1)"
    by (meson surj_pair)
  have acc: "s1 = sz + sum_list (source_sizes meta walk p)"
    "n1 = n + of_nat (length (source_sizes meta walk p))"
    using step m by (auto simp: source_sizes_def tally_walked_sizes split: if_splits)
  have "process_loop_real meta walk ps (s1, n1, push_name (path_file_name p) names)
      = Ok (sz', n', names')"
    using Cons.prems m step by simp
  from Cons.IH [OF this] show ?case by (simp add: acc algebra_simps)
qed simp

lemma process_paths_real_error:
  "process_paths_real meta walk mime paths t = (Err e, t') \<Longrightarrow> t' = t"
  by (auto simp: process_paths_real_def finish_loop_def Let_def
      split: list.splits result.splits if_splits option.splits)

lemma set_source_info_simps [simp]:
  "t_total_bytes (set_source_info (sz, n, names) a b t) = sz"
  "t_file_count (set_source_info (sz, n, names) a b t) = n"
  "t_entry_names (set_source_info (sz, n, names) a b t) = names"
  "t_single_name (set_source_info acc a b t) = a"
  "t_single_mime_type (set_source_info acc a b t) = b"
  "t_uuid (set_source_info acc a b t) = t_uuid t"
  "t_state (set_source_info acc a b t) = t_state t"
  "t_protocol_id (set_source_info acc a b t) = t_protocol_id t"
  "t_kind (set_source_info acc a b t) = t_kind t"
  by (simp_all add: set_source_info_def split: prod.splits)

lemma process_paths_real_cases:
  assumes "process_paths_real meta walk mime paths t = (Ok (), t')"
  obtains (single) p m name where "paths = [p]" "meta p = Ok m" "md_is_file m"
      "path_file_name p = Some name"
      "t' = set_source_info (md_len m, 1, [name]) (Some name) (Some (mime p)) t"
  | (many) acc where "process_loop_real meta walk paths (0, 0, []) = Ok acc"
      "t' = set_source_info acc None None t"
  using assms
  by (auto simp: process_paths_real_def finish_loop_def Let_def
      split: list.splits result.splits if_splits option.splits)

text \<open>
  C40. When \<open>process_paths\<close> succeeds on the real filesystem, the transfer's size is the sum of the
  sizes of the regular files reached from the source paths and its file count is their number
  (both modulo 2^64); unreadable entries of a directory walk are skipped.
\<close>

theorem process_paths_counts_files:
  assumes "process_paths_real meta walk mime paths t = (Ok (), t')"
  shows "t_total_bytes t' = sum_list (concat (map (source_sizes meta walk) paths)) \<and>
    t_file_count t' = of_nat (length (concat (map (source_sizes meta walk) paths)))"
  using assms
proof (cases rule: process_paths_real_cases)
  case (single p m name)
  then show ?thesis by (simp add: source_sizes_def)
next
  case (many acc)
  then show ?thesis using process_loop_real_Ok by (cases acc) fastforce
qed

definition sample_meta :: "path \<Rightarrow> (file_metadata, io_error_kind) result" where
  "sample_meta p =
     Ok \<lparr>md_is_file = (p \<noteq> [RootDir, Normal ''d'']), md_is_dir = (p = [RootDir, Normal ''d'']),
         md_len = 7, md_modified = Some (1000, 0)\<rparr>"

definition sample_walk :: "path \<Rightarrow> walked list" where
  "sample_walk p = [WalkEntry (p @ [Normal ''a'']) (sample_meta (p @ [Normal ''a''])), WalkErr]"

definition sample_transfer :: transfer where
  "sample_transfer =
     transfer_new_outgoing \<lparr>u_text = ''u1'', u_hi = 3, u_lo = 4\<rparr> 5 ''peer'' [[RootDir, Normal ''d'']] 9"

lemma process_paths_counts_files_witness:
  "(\<exists>t'. process_paths_real sample_meta sample_walk (\<lambda>_. ''text/plain'')
       [[RootDir, Normal ''d''], [RootDir, Normal ''f'']] sample_transfer = (Ok (), t')
     \<and> t_total_bytes t' = 14 \<and> t_file_count t' = 2)"
proof -
  obtain t' where t': "process_paths_real sample_meta sample_walk (\<lambda>_. ''text/plain'')
       [[RootDir, Normal ''d''], [RootDir, Normal ''f'']] sample_transfer = (Ok (), t')"
    by (simp add: process_paths_real_def finish_loop_def sample_meta_def sample_walk_def)
  have "t_total_bytes t' = 14 \<and> t_file_count t' = 2"
    using process_paths_counts_files [OF t']
    by (simp add: source_sizes_def sample_meta_def sample_walk_def)
  with t' show ?thesis by blast
qed

text \<open>
  After a successful \<open>process_paths\<close> the single-file fields agree with the file count, which is
  what the receiving side assumes when it reads them back.
\<close>

lemma process_paths_real_consistent:
  assumes "process_paths_real meta walk mime paths t = (Ok (), t')"
    and "\<forall>p \<in> set paths. \<forall>n. path_file_name p = Some n \<longrightarrow> n \<noteq> []"
    and "\<forall>p. mime p \<noteq> []"
  shows "single_consistent t'"
  using assms(1)
proof (cases rule: process_paths_real_cases)
  case (single p m name)
  then show ?thesis using assms(2,3) by (simp add: single_consistent_def)
next
  case (many acc)
  then show ?thesis by (simp add: single_consistent_def)
qed

end
