(* ===== verification/Warp_Receiver.thy ===== *)
theory Warp_Receiver
  imports Warp_Manager_Inv Warp_Source
begin

text \<open>
  \<open>src/server/transfers/transfer_receiver.rs\<close>: the state of a running reception, the processing of
  a chunk on the real and on the virtual filesystem, and the stream loop. The filesystem is seen
  through the calls the code makes: each is appended to \<open>wo_fs\<close>, and whether it failed is an
  argument. At every await the other tasks may run; \<open>ci_others\<close> is what they did to the shared
  state in the meantime.
\<close>

section \<open>The world of a reception\<close>

datatype handle = PathHandle path | FdHandle fd

datatype fs_action =
    CreateDirAll path
  | CreateFile path
  | VfsCreateDir string string
  | VfsCreateFile string string fd
  | WriteAll handle bytes
  | SetModified handle system_time
  | Flush handle

record world =
  wo_mgr :: manager
  wo_fs :: "fs_action list"

definition fs_log :: "fs_action list \<Rightarrow> world \<Rightarrow> world" where
  "fs_log as w = w\<lparr>wo_fs := wo_fs w @ as\<rparr>"

lemma fs_log_simps [simp, frame]:
  "wo_mgr (fs_log as w) = wo_mgr w" "wo_fs (fs_log as w) = wo_fs w @ as"
  by (simp_all add: fs_log_def)

record receive_state =
  rs_current_path :: "string option"
  rs_current_file :: "handle option"
  rs_mtime :: "file_time option"
  rs_speed :: moving_average

definition receive_state_new :: receive_state where
  "receive_state_new =
     \<lparr>rs_current_path = None, rs_current_file = None, rs_mtime = None, rs_speed = ma_new 30\<rparr>"

text \<open>What the environment answers while one chunk is processed.\<close>

record chunk_io =
  ci_create :: "io_error_kind option"
  ci_write :: "io_error_kind option"
  ci_elapsed :: rat
  ci_qlen :: nat
  ci_others :: "manager \<Rightarrow> manager"

datatype flow = Next | Fail transfer_error | Panicked

type_synonym step_result = "flow \<times> receive_state \<times> world"

section \<open>Finishing a file, writing a chunk\<close>

definition finalize_current_file :: "receive_state \<Rightarrow> world \<Rightarrow> step_result" where
  "finalize_current_file s w =
     (case rs_current_file s of
        None \<Rightarrow> (Next, s\<lparr>rs_current_path := None\<rparr>, w)
      | Some h \<Rightarrow>
         (let s1 = s\<lparr>rs_current_file := None\<rparr>
          in case rs_mtime s1 of
               None \<Rightarrow> (Next, s1\<lparr>rs_current_path := None\<rparr>, fs_log [Flush h] w)
             | Some ft \<Rightarrow>
                (let s2 = s1\<lparr>rs_mtime := None\<rparr>
                 in case system_time_of_file_time ft of
                      Panic \<Rightarrow> (Panicked, s2, w)
                    | Return t \<Rightarrow> (Next, s2\<lparr>rs_current_path := None\<rparr>,
                                   fs_log [SetModified h t, Flush h] w))))"

definition progress :: "u64 \<Rightarrow> u64 \<Rightarrow> transfer \<Rightarrow> transfer" where
  "progress n avg t =
     t\<lparr>t_bytes_transferred := t_bytes_transferred t + n, t_bytes_per_second := avg\<rparr>"

definition write_chunk ::
  "string \<Rightarrow> string \<Rightarrow> bytes \<Rightarrow> chunk_io \<Rightarrow> receive_state \<Rightarrow> world \<Rightarrow> step_result" where
  "write_chunk ru tu data io s w =
     (case rs_current_file s of
        None \<Rightarrow> (Next, s, w)
      | Some h \<Rightarrow>
         (case ci_write io of
            Some e \<Rightarrow> (Fail (transfer_error_of_io e), s, w)
          | None \<Rightarrow>
             (let n = of_nat (length data);
                  (avg, sp) = ma_push (rs_speed s) n (max (ci_elapsed io) (round_f64 (1 / 1000)));
                  w1 = fs_log [WriteAll h data] w;
                  m = snd (update_transfer (ci_qlen io) ru tu (progress n avg)
                             (ci_others io (wo_mgr w1)))
              in (Next, s\<lparr>rs_speed := sp\<rparr>, w1\<lparr>wo_mgr := m\<rparr>))))"

section \<open>Processing a chunk\<close>

definition chunk_file_type :: "file_chunk \<Rightarrow> file_type" where
  "chunk_file_type c = (case file_type_try_from (fc_file_type c) of Ok t \<Rightarrow> t | Err _ \<Rightarrow> File)"

definition process_chunk_real ::
  "path \<Rightarrow> string \<Rightarrow> string \<Rightarrow> file_chunk \<Rightarrow> chunk_io \<Rightarrow> receive_state \<Rightarrow> world \<Rightarrow> step_result" where
  "process_chunk_real destination ru tu c io s w =
     (let file_type = chunk_file_type c
      in if file_type = Symlink then (Next, s, w)
         else
           let sanitized = sanitize_path_component (fc_relative_path c);
               target = path_join destination (path_of sanitized)
           in if str_contains ''..'' sanitized \<and> \<not> path_starts_with target destination
              then (Fail UnsafePath, s, w)
              else if rs_current_path s \<noteq> Some sanitized
              then (case finalize_current_file s w of
                      (Next, s1, w1) \<Rightarrow>
                        (let s2 = s1\<lparr>rs_current_path := Some sanitized, rs_mtime := fc_time c\<rparr>
                         in if file_type = Directory
                            then (Next, s2, fs_log [CreateDirAll target] w1)
                            else
                              let w2 = (case path_parent target of
                                          Some p \<Rightarrow> fs_log [CreateDirAll p] w1 | None \<Rightarrow> w1)
                              in case ci_create io of
                                   Some e \<Rightarrow> (Fail (transfer_error_of_io e), s2, w2)
                                 | None \<Rightarrow>
                                     write_chunk ru tu (fc_chunk c) io
                                       (s2\<lparr>rs_current_file := Some (PathHandle target)\<rparr>)
                                       (fs_log [CreateFile target] w2))
                    | r \<Rightarrow> r)
              else write_chunk ru tu (fc_chunk c) io s w)"

text \<open>
  The virtual variant. The destination's \<open>to_str\<close> is \<open>None\<close> when it is not UTF-8; the two
  filesystem calls answer through the application's functions.
\<close>

definition process_chunk_virtual ::
  "vfs \<Rightarrow> string option \<Rightarrow> string \<Rightarrow> string \<Rightarrow> file_chunk \<Rightarrow> chunk_io \<Rightarrow> receive_state \<Rightarrow> world
    \<Rightarrow> step_result" where
  "process_chunk_virtual st destination ru tu c io s w =
     (let file_type = chunk_file_type c
      in if file_type = Symlink then (Next, s, w)
         else
           let sanitized = sanitize_path_component (fc_relative_path c)
           in if str_contains ''..'' sanitized then (Fail UnsafePath, s, w)
              else if rs_current_path s \<noteq> Some sanitized
              then (case finalize_current_file s w of
                      (Next, s1, w1) \<Rightarrow>
                        (let s2 = s1\<lparr>rs_current_path := Some sanitized, rs_mtime := fc_time c\<rparr>
                         in case destination of
                              None \<Rightarrow> (Fail UnsafePath, s2, w1)
                            | Some dest \<Rightarrow>
                               if file_type = Directory
                               then (case vfs_create_dir st dest sanitized of
                                       Err e \<Rightarrow> (Fail (VirtualFilesystemError e), s2, w1)
                                     | Ok _ \<Rightarrow> (Next, s2, fs_log [VfsCreateDir dest sanitized] w1))
                               else (case vfs_create_file st dest sanitized of
                                       Err e \<Rightarrow> (Fail (VirtualFilesystemError e), s2, w1)
                                     | Ok h \<Rightarrow>
                                         write_chunk ru tu (fc_chunk c) io
                                           (s2\<lparr>rs_current_file := Some (FdHandle h)\<rparr>)
                                           (fs_log [VfsCreateFile dest sanitized h] w1)))
                    | r \<Rightarrow> r)
              else write_chunk ru tu (fc_chunk c) io s w)"

section \<open>The stream loop\<close>

text \<open>
  What the two branches of the \<open>select!\<close> deliver, in order: the cancellation of the token, or the
  next item of the stream. \<open>None\<close> as a result means that the task is still waiting.
\<close>

datatype rx_input = RxCancelled | RxChunk file_chunk chunk_io | RxEnd | RxError

datatype rx_result = RxOk bool | RxErr transfer_error | RxPanic

type_synonym processor = "file_chunk \<Rightarrow> chunk_io \<Rightarrow> receive_state \<Rightarrow> world \<Rightarrow> step_result"

definition finish_with :: "rx_result \<Rightarrow> step_result \<Rightarrow> rx_result \<times> world" where
  "finish_with r x = (case x of (Panicked, s, w) \<Rightarrow> (RxPanic, w) | (_, s, w) \<Rightarrow> (r, w))"

fun receive_stream_inner ::
  "processor \<Rightarrow> rx_input list \<Rightarrow> receive_state \<Rightarrow> world \<Rightarrow> (rx_result \<times> world) option" where
  "receive_stream_inner process [] s w = None"
| "receive_stream_inner process (RxCancelled # xs) s w =
     Some (finish_with (RxOk False) (finalize_current_file s w))"
| "receive_stream_inner process (RxChunk c io # xs) s w =
     (case process c io s w of
        (Next, s', w') \<Rightarrow> receive_stream_inner process xs s' w'
      | (Fail e, s', w') \<Rightarrow> Some (RxErr e, w')
      | (Panicked, s', w') \<Rightarrow> Some (RxPanic, w'))"
| "receive_stream_inner process (RxEnd # xs) s w =
     Some (finish_with (RxOk True) (finalize_current_file s w))"
| "receive_stream_inner process (RxError # xs) s w =
     Some (finish_with (RxErr ConnectionLost) (finalize_current_file s w))"

text \<open>The final update keeps a state the user or the remote has set meanwhile.\<close>

definition finish_receive :: "transfer_state \<Rightarrow> transfer \<Rightarrow> transfer" where
  "finish_receive final t =
     (let t1 = (if t_state t = Stopped \<or> t_state t = Canceled then t else t\<lparr>t_state := final\<rparr>)
      in t1\<lparr>t_bytes_per_second := 0\<rparr>)"

fun rx_final_state :: "rx_result \<Rightarrow> transfer_state option" where
  "rx_final_state (RxOk True) = Some Completed"
| "rx_final_state (RxOk False) = Some Canceled"
| "rx_final_state (RxErr e) = Some (Failed e)"
| "rx_final_state RxPanic = None"

text \<open>The whole task; a panic ends it before the final update.\<close>

definition receive_stream ::
  "processor \<Rightarrow> string \<Rightarrow> string \<Rightarrow> rx_input list \<Rightarrow> nat \<Rightarrow> (manager \<Rightarrow> manager) \<Rightarrow> world
    \<Rightarrow> (rx_result \<times> world) option" where
  "receive_stream process ru tu xs qlen others w =
     (case receive_stream_inner process xs receive_state_new w of
        None \<Rightarrow> None
      | Some (r, w1) \<Rightarrow>
          (case rx_final_state r of
             None \<Rightarrow> Some (r, w1)
           | Some final \<Rightarrow>
               Some (r, w1\<lparr>wo_mgr :=
                 snd (update_transfer qlen ru tu (finish_receive final) (others (wo_mgr w1)))\<rparr>)))"

end
