(* ===== verification/Warp_Sender.thy ===== *)
theory Warp_Sender
  imports Warp_Receiver
begin

text \<open>
  \<open>src/server/transfers/transfer_sender.rs\<close>: reading a file in chunks, the walk over the sources on
  the real and on the virtual filesystem, and the final state. The answers of the environment are
  arguments: at every point where the code reads the cancellation token, a file, the channel or the
  clock, an input record holds what it sees. Running out of inputs is the value \<open>None\<close>.
\<close>

definition chunk_size :: nat where "chunk_size = 64 * 1024"

record send_world =
  sw_mgr :: manager
  sw_sent :: "file_chunk list"

text \<open>
  One iteration of the read loop. \<open>so_read\<close> is an error, or how many bytes are ready: a read
  delivers at least one byte, unless the file is at its end, and at most what the buffer holds.
\<close>

record send_io =
  so_cancelled :: bool
  so_read :: "(nat, io_error_kind) result"
  so_sent :: bool
  so_elapsed :: rat
  so_qlen :: nat
  so_others :: "manager \<Rightarrow> manager"

definition read_buffer :: "nat \<Rightarrow> bytes \<Rightarrow> bytes" where
  "read_buffer ready rest = take (min (max 1 ready) chunk_size) rest"

text \<open>The file modes are octal 644 and 755.\<close>

definition file_chunk_of :: "string \<Rightarrow> file_time option \<Rightarrow> bytes \<Rightarrow> file_chunk" where
  "file_chunk_of rel time data =
     \<lparr>fc_relative_path = rel, fc_file_type = i32_of_file_type File, fc_symlink_target = [],
      fc_chunk = data, fc_file_mode = 420, fc_time = time\<rparr>"

definition directory_chunk :: "string \<Rightarrow> file_chunk" where
  "directory_chunk rel =
     \<lparr>fc_relative_path = rel, fc_file_type = i32_of_file_type Directory, fc_symlink_target = [],
      fc_chunk = [], fc_file_mode = 493, fc_time = None\<rparr>"

definition push_chunk :: "file_chunk \<Rightarrow> send_world \<Rightarrow> send_world" where
  "push_chunk c w = w\<lparr>sw_sent := sw_sent w @ [c]\<rparr>"

type_synonym 'a send_result = "(('a, transfer_error) result \<times> moving_average \<times> send_world) option"

section \<open>One file\<close>

fun send_file_loop ::
  "string \<Rightarrow> string \<Rightarrow> string \<Rightarrow> file_time option \<Rightarrow> bool \<Rightarrow> bytes \<Rightarrow> send_io list \<Rightarrow> moving_average
    \<Rightarrow> send_world \<Rightarrow> unit send_result" where
  "send_file_loop ru tu rel time first rest [] sp w = None"
| "send_file_loop ru tu rel time first rest (io # ios) sp w =
     (if so_cancelled io then Some (Ok (), sp, w)
      else case so_read io of
        Err e \<Rightarrow> Some (Err (transfer_error_of_io e), sp, w)
      | Ok ready \<Rightarrow>
         (let data = read_buffer ready rest
          in if data = [] then Some (Ok (), sp, w)
             else
               let chunk = file_chunk_of rel (if first then time else None) data
               in if \<not> so_sent io then Some (Err ConnectionLost, sp, w)
                  else
                    let w1 = push_chunk chunk w;
                        n = of_nat (length data);
                        (avg, sp1) = ma_push sp n (max (so_elapsed io) (round_f64 (1 / 1000)));
                        m = snd (update_transfer (so_qlen io) ru tu (progress n avg)
                                   (so_others io (sw_mgr w1)))
                    in send_file_loop ru tu rel time False (drop (length data) rest) ios sp1
                         (w1\<lparr>sw_mgr := m\<rparr>)))"

definition send_file_inner ::
  "string \<Rightarrow> string \<Rightarrow> bytes \<Rightarrow> string \<Rightarrow> file_metadata \<Rightarrow> send_io list \<Rightarrow> moving_average \<Rightarrow> send_world
    \<Rightarrow> unit send_result" where
  "send_file_inner ru tu content rel md ios sp w =
     (let file_time = map_option file_time_of_modified (md_modified md)
      in send_file_loop ru tu rel file_time True content ios sp w)"

text \<open>What the environment answers while a file is opened and sent.\<close>

record file_env =
  fe_open :: "(bytes, io_error_kind) result"
  fe_metadata :: "(file_metadata, io_error_kind) result"
  fe_content :: bytes
  fe_ios :: "send_io list"

definition relative_to :: "path \<Rightarrow> path \<Rightarrow> path" where
  "relative_to p base = (case path_strip_prefix p base of Some r \<Rightarrow> r | None \<Rightarrow> p)"

definition send_file_real ::
  "string \<Rightarrow> string \<Rightarrow> path \<Rightarrow> path \<Rightarrow> file_metadata \<Rightarrow> file_env \<Rightarrow> moving_average \<Rightarrow> send_world
    \<Rightarrow> unit send_result" where
  "send_file_real ru tu p base md env sp w =
     (let rel_str = path_text (relative_to p base)
      in case fe_open env of
           Err e \<Rightarrow> Some (Err (transfer_error_of_io e), sp, w)
         | Ok content \<Rightarrow> send_file_inner ru tu content rel_str md (fe_ios env) sp w)"

definition send_file_virtual ::
  "vfs \<Rightarrow> string \<Rightarrow> string \<Rightarrow> string \<Rightarrow> string \<Rightarrow> file_env \<Rightarrow> moving_average \<Rightarrow> send_world
    \<Rightarrow> unit send_result" where
  "send_file_virtual st ru tu p rel env sp w =
     (case vfs_open_file st p of
        Err e \<Rightarrow> Some (Err (VirtualFilesystemError e), sp, w)
      | Ok h \<Rightarrow>
         (case fe_metadata env of
            Err e \<Rightarrow> Some (Err (transfer_error_of_io e), sp, w)
          | Ok md \<Rightarrow> send_file_inner ru tu (fe_content env) rel md (fe_ios env) sp w))"

section \<open>The sources\<close>

text \<open>The \<open>?\<close> operator on a step of the stream.\<close>

definition send_then ::
  "'a send_result \<Rightarrow> ('a \<Rightarrow> moving_average \<Rightarrow> send_world \<Rightarrow> 'b send_result) \<Rightarrow> 'b send_result" where
  "send_then x k =
     (case x of
        None \<Rightarrow> None
      | Some (Err e, sp, w) \<Rightarrow> Some (Err e, sp, w)
      | Some (Ok a, sp, w) \<Rightarrow> k a sp w)"

definition send_directory :: "string \<Rightarrow> bool \<Rightarrow> moving_average \<Rightarrow> send_world \<Rightarrow> unit send_result" where
  "send_directory rel sent sp w =
     (if \<not> sent then Some (Err ConnectionLost, sp, w)
      else Some (Ok (), sp, push_chunk (directory_chunk rel) w))"

text \<open>
  An item of a directory walk: the token as read after the item was delivered, the entry (absent
  when the walk reports an error) with the answer to its \<open>metadata\<close> call, whether a directory chunk
  could be sent, and the file. The walk ends with the list.
\<close>

record walk_item =
  wi_cancelled :: bool
  wi_entry :: "(path \<times> (file_metadata, io_error_kind) result) option"
  wi_sent :: bool
  wi_file :: file_env

definition send_entry_real ::
  "string \<Rightarrow> string \<Rightarrow> path \<Rightarrow> walk_item \<Rightarrow> moving_average \<Rightarrow> send_world \<Rightarrow> unit send_result" where
  "send_entry_real ru tu base i sp w =
     (case wi_entry i of
        None \<Rightarrow> Some (Err FailedToProcessFiles, sp, w)
      | Some (p, Err e) \<Rightarrow> Some (Err (transfer_error_of_io e), sp, w)
      | Some (p, Ok md) \<Rightarrow>
          if md_is_dir md then send_directory (path_text (relative_to p base)) (wi_sent i) sp w
          else if md_is_file md then send_file_real ru tu p base md (wi_file i) sp w
          else Some (Ok (), sp, w))"

fun send_walk_real ::
  "string \<Rightarrow> string \<Rightarrow> path \<Rightarrow> walk_item list \<Rightarrow> moving_average \<Rightarrow> send_world \<Rightarrow> bool send_result" where
  "send_walk_real ru tu base [] sp w = Some (Ok True, sp, w)"
| "send_walk_real ru tu base (i # items) sp w =
     (if wi_cancelled i then Some (Ok False, sp, w)
      else send_then (send_entry_real ru tu base i sp w)
             (\<lambda>_ sp w. send_walk_real ru tu base items sp w))"

text \<open>A source: the token, the answer to \<open>metadata\<close>, the file, the walk.\<close>

record source_env =
  sc_cancelled :: bool
  sc_metadata :: "(file_metadata, io_error_kind) result"
  sc_file :: file_env
  sc_walk :: "walk_item list"

definition send_source_real ::
  "string \<Rightarrow> string \<Rightarrow> path \<Rightarrow> source_env \<Rightarrow> moving_average \<Rightarrow> send_world \<Rightarrow> bool send_result" where
  "send_source_real ru tu p e sp w =
     (case path_parent p of
        None \<Rightarrow> Some (Err FailedToProcessFiles, sp, w)
      | Some base \<Rightarrow>
         (case sc_metadata e of
            Err k \<Rightarrow> Some (Err (transfer_error_of_io k), sp, w)
          | Ok md \<Rightarrow>
              if md_is_file md
              then send_then (send_file_real ru tu p base md (sc_file e) sp w)
                     (\<lambda>_ sp w. Some (Ok True, sp, w))
              else if md_is_dir md then send_walk_real ru tu base (sc_walk e) sp w
              else Some (Ok True, sp, w)))"

fun send_stream_real ::
  "string \<Rightarrow> string \<Rightarrow> (path \<times> source_env) list \<Rightarrow> moving_average \<Rightarrow> send_world \<Rightarrow> bool send_result" where
  "send_stream_real ru tu [] sp w = Some (Ok True, sp, w)"
| "send_stream_real ru tu ((p, e) # rest) sp w =
     (if sc_cancelled e then Some (Ok False, sp, w)
      else send_then (send_source_real ru tu p e sp w)
             (\<lambda>go sp w. if go then send_stream_real ru tu rest sp w else Some (Ok False, sp, w)))"

subsection \<open>On the virtual filesystem\<close>

text \<open>
  The walk is the crate's own (\<open>walk_next\<close>), so an item holds no entry; the walk's queue is the
  state of the loop. \<open>to_str\<close> is \<open>None\<close> for a source path that is not UTF-8.
\<close>

definition send_entry_virtual ::
  "vfs \<Rightarrow> string \<Rightarrow> string \<Rightarrow> walk_entry \<Rightarrow> walk_item \<Rightarrow> moving_average \<Rightarrow> send_world
    \<Rightarrow> unit send_result" where
  "send_entry_virtual st ru tu e i sp w =
     (if we_is_dir e then send_directory (relative_path e) (wi_sent i) sp w
      else send_file_virtual st ru tu (we_path e) (relative_path e) (wi_file i) sp w)"

fun send_walk_virtual ::
  "vfs \<Rightarrow> string \<Rightarrow> string \<Rightarrow> walk_entry list \<Rightarrow> walk_item list \<Rightarrow> moving_average \<Rightarrow> send_world
    \<Rightarrow> bool send_result" where
  "send_walk_virtual st ru tu q items sp w =
     (case walk_next st q of
        (Err e, q') \<Rightarrow> Some (Err (VirtualFilesystemError e), sp, w)
      | (Ok None, q') \<Rightarrow> Some (Ok True, sp, w)
      | (Ok (Some e), q') \<Rightarrow>
         (case items of
            [] \<Rightarrow> None
          | i # items' \<Rightarrow>
              if wi_cancelled i then Some (Ok False, sp, w)
              else send_then (send_entry_virtual st ru tu e i sp w)
                     (\<lambda>_ sp w. send_walk_virtual st ru tu q' items' sp w)))"

declare send_walk_virtual.simps [simp del]

definition send_source_virtual ::
  "vfs \<Rightarrow> string \<Rightarrow> string \<Rightarrow> string option \<Rightarrow> source_env \<Rightarrow> moving_average \<Rightarrow> send_world
    \<Rightarrow> bool send_result" where
  "send_source_virtual st ru tu p e sp w =
     (case p of
        None \<Rightarrow> Some (Err UnsafePath, sp, w)
      | Some s \<Rightarrow>
         (case vfs_metadata st s of
            Err x \<Rightarrow> Some (Err (VirtualFilesystemError x), sp, w)
          | Ok md \<Rightarrow>
              if vm_is_file md
              then send_then (send_file_virtual st ru tu s (vm_name md) (sc_file e) sp w)
                     (\<lambda>_ sp w. Some (Ok True, sp, w))
              else if vm_is_dir md
              then send_walk_virtual st ru tu (walk_new s (vm_name md)) (sc_walk e) sp w
              else Some (Ok True, sp, w)))"

fun send_stream_virtual ::
  "vfs \<Rightarrow> string \<Rightarrow> string \<Rightarrow> (string option \<times> source_env) list \<Rightarrow> moving_average \<Rightarrow> send_world
    \<Rightarrow> bool send_result" where
  "send_stream_virtual st ru tu [] sp w = Some (Ok True, sp, w)"
| "send_stream_virtual st ru tu ((p, e) # rest) sp w =
     (if sc_cancelled e then Some (Ok False, sp, w)
      else send_then (send_source_virtual st ru tu p e sp w)
             (\<lambda>go sp w. if go then send_stream_virtual st ru tu rest sp w
                        else Some (Ok False, sp, w)))"

section \<open>The task\<close>

definition send_final_state :: "(bool, transfer_error) result \<Rightarrow> bool \<Rightarrow> transfer_state" where
  "send_final_state r cancelled =
     (case r of
        Ok True \<Rightarrow> Completed
      | Err e \<Rightarrow> if \<not> cancelled then Failed e else Canceled
      | Ok False \<Rightarrow> Canceled)"

definition finish_send :: "transfer_state \<Rightarrow> transfer \<Rightarrow> transfer" where
  "finish_send final t = t\<lparr>t_state := final, t_bytes_per_second := 0\<rparr>"

text \<open>
  The whole task around either inner stream; \<open>cancelled\<close> is the token as read after the stream,
  \<open>others\<close> what other tasks did before the final update.
\<close>

definition send_stream ::
  "(moving_average \<Rightarrow> send_world \<Rightarrow> bool send_result) \<Rightarrow> string \<Rightarrow> string \<Rightarrow> bool \<Rightarrow> nat
    \<Rightarrow> (manager \<Rightarrow> manager) \<Rightarrow> send_world \<Rightarrow> ((bool, transfer_error) result \<times> send_world) option" where
  "send_stream inner ru tu cancelled qlen others w =
     (case inner (ma_new 30) w of
        None \<Rightarrow> None
      | Some (r, sp, w1) \<Rightarrow>
          Some (r, w1\<lparr>sw_mgr := snd (update_transfer qlen ru tu
                    (finish_send (send_final_state r cancelled)) (others (sw_mgr w1)))\<rparr>))"

end
