(* ===== verification/Warp_Reception.thy ===== *)
theory Warp_Reception
  imports Warp_Receiver
begin

text \<open>
  What a reception guarantees: the contract of a chunk processor and the stream-loop lemmas that
  rest on it, both processors as instances, the accounting of progress, the final state, and which
  paths reach the filesystem.
\<close>

section \<open>Bytes written and bytes counted\<close>

fun action_bytes :: "fs_action \<Rightarrow> nat" where
  "action_bytes (WriteAll h d) = length d"
| "action_bytes _ = 0"

definition written :: "world \<Rightarrow> nat" where
  "written w = sum_list (map action_bytes (wo_fs w))"

definition counted :: "string \<Rightarrow> string \<Rightarrow> manager \<Rightarrow> u64 option" where
  "counted ru tu m = map_option t_bytes_transferred (get_transfer ru tu m)"

text \<open>Bytes counted in the transfer less the bytes written to files: conserved by a reception.\<close>

definition balance :: "string \<Rightarrow> string \<Rightarrow> world \<Rightarrow> u64 option" where
  "balance ru tu w = map_option (\<lambda>b. b - of_nat (written w)) (counted ru tu (wo_mgr w))"

text \<open>Other tasks may do anything to the shared state that leaves this transfer's counter alone.\<close>

definition leaves_counter :: "string \<Rightarrow> string \<Rightarrow> (manager \<Rightarrow> manager) \<Rightarrow> bool" where
  "leaves_counter ru tu f \<longleftrightarrow> (\<forall>m. counted ru tu (f m) = counted ru tu m)"

lemma leaves_counter_id [simp]: "leaves_counter ru tu id" "leaves_counter ru tu (\<lambda>m. m)"
  by (simp_all add: leaves_counter_def)

lemma keeps_uuid_progress [simp]: "keeps_uuid (progress n a)"
  by (simp add: keeps_uuid_def progress_def)

lemma keeps_uuid_finish [simp]: "keeps_uuid (finish_receive st)"
  by (simp add: keeps_uuid_def finish_receive_def Let_def)

lemma counted_update:
  assumes "keeps_uuid f" and "\<And>t. t_bytes_transferred (f t) = t_bytes_transferred t + n"
  shows "counted ru tu (snd (update_transfer q ru tu f m)) = map_option (\<lambda>b. b + n) (counted ru tu m)"
  using transfers.get_same [OF assms(1), where q = q and k = "(ru, tu)" and s = m]
  by (simp add: counted_def option.map_comp comp_def assms(2))

lemma finalize_facts:
  assumes "finalize_current_file s w = (fl, s', w')"
  shows "wo_mgr w' = wo_mgr w" "written w' = written w" "rs_speed s' = rs_speed s"
    "\<exists>as. wo_fs w' = wo_fs w @ as \<and> (\<forall>a \<in> set as. \<exists>h. a = Flush h \<or> (\<exists>t. a = SetModified h t))"
    "\<forall>e. fl \<noteq> Fail e"
  using assms
  by (auto simp: finalize_current_file_def written_def Let_def
      split: option.splits outcome.splits)

lemma finalize_Next:
  "finalize_current_file s w = (Next, s', w') \<Longrightarrow> rs_current_file s' = None \<and> rs_current_path s' = None"
  by (auto simp: finalize_current_file_def Let_def split: option.splits outcome.splits)

lemma balance_finalize:
  "finalize_current_file s w = (fl, s', w') \<Longrightarrow> balance ru tu w' = balance ru tu w"
  by (simp add: balance_def finalize_facts)

lemma balance_fs_log:
  "\<forall>a \<in> set as. action_bytes a = 0 \<Longrightarrow> balance ru tu (fs_log as w) = balance ru tu w"
  by (induction as) (auto simp: balance_def written_def)

lemma balance_write_chunk:
  assumes "write_chunk ru tu data io s w = (fl, s', w')" and "leaves_counter ru tu (ci_others io)"
  shows "balance ru tu w' = balance ru tu w"
proof (cases "rs_current_file s")
  case None
  then show ?thesis using assms(1) by (simp add: write_chunk_def)
next
  case (Some h)
  show ?thesis
  proof (cases "ci_write io")
    case None
    obtain avg sp where push: "ma_push (rs_speed s) (of_nat (length data))
        (max (ci_elapsed io) (round_f64 (1 / 1000))) = (avg, sp)"
      by (meson surj_pair)
    have w': "w' = (fs_log [WriteAll h data] w)\<lparr>wo_mgr := snd (update_transfer (ci_qlen io) ru tu
        (progress (of_nat (length data)) avg) (ci_others io (wo_mgr w)))\<rparr>"
      using assms(1) Some None push by (simp add: write_chunk_def)
    have "counted ru tu (wo_mgr w') = map_option (\<lambda>b. b + of_nat (length data)) (counted ru tu (wo_mgr w))"
      using assms(2) by (simp add: w' counted_update progress_def leaves_counter_def
          keeps_uuid_progress [unfolded progress_def])
    moreover have "written w' = written w + length data"
      by (simp add: w' written_def)
    ultimately show ?thesis
      by (simp add: balance_def option.map_comp comp_def)
  qed (use assms Some in \<open>simp add: write_chunk_def\<close>)
qed

section \<open>What a stream appends to the log\<close>

text \<open>
  If every chunk of the stream adds only good actions, and so does finishing a file, then so does
  the loop.
\<close>

lemma finish_with_log:
  assumes "finish_with r (finalize_current_file s w) = (r', w')"
    and "\<And>h. P (Flush h)" and "\<And>h t. P (SetModified h t)"
  shows "\<exists>as. wo_fs w' = wo_fs w @ as \<and> (\<forall>a \<in> set as. P a)"
proof -
  obtain fl s1 w1 where f: "finalize_current_file s w = (fl, s1, w1)" by (rule prod_cases3)
  have "w' = w1" using assms(1) f by (simp add: finish_with_def split: flow.splits)
  then show ?thesis using finalize_facts(4) [OF f] assms(2,3) by metis
qed

lemma loop_log_of:
  assumes "\<And>c io s w fl s' w'. RxChunk c io \<in> set xs \<Longrightarrow> process c io s w = (fl, s', w') \<Longrightarrow>
      \<exists>as. wo_fs w' = wo_fs w @ as \<and> (\<forall>a \<in> set as. P a)"
    and "\<And>h. P (Flush h)" and "\<And>h t. P (SetModified h t)"
    and "receive_stream_inner process xs s w = Some (r, w')"
  shows "\<exists>as. wo_fs w' = wo_fs w @ as \<and> (\<forall>a \<in> set as. P a)"
  using assms(1,4)
proof (induction xs arbitrary: s w)
  case (Cons x xs)
  show ?case
  proof (cases x)
    case (RxChunk c io)
    obtain fl s1 w1 where p: "process c io s w = (fl, s1, w1)" by (rule prod_cases3)
    obtain as where as: "wo_fs w1 = wo_fs w @ as" "\<forall>a \<in> set as. P a"
      using Cons.prems(1) [OF _ p] RxChunk by auto
    show ?thesis
    proof (cases fl)
      case Next
      then have "receive_stream_inner process xs s1 w1 = Some (r, w')"
        using Cons.prems(2) RxChunk p by simp
      then have "\<exists>bs. wo_fs w' = wo_fs w1 @ bs \<and> (\<forall>a \<in> set bs. P a)"
        by (intro Cons.IH) (rule Cons.prems(1) [OF list.set_intros(2)])
      then obtain bs where "wo_fs w' = wo_fs w1 @ bs" "\<forall>a \<in> set bs. P a" by blast
      then have "wo_fs w' = wo_fs w @ (as @ bs)" "\<forall>a \<in> set (as @ bs). P a"
        using as by auto
      then show ?thesis by blast
    qed (use Cons.prems RxChunk p as in auto)
  qed (use Cons.prems finish_with_log [OF _ assms(2,3)] in auto)
qed simp

lemma stream_log_of:
  assumes "\<And>c io s w fl s' w'. RxChunk c io \<in> set xs \<Longrightarrow> process c io s w = (fl, s', w') \<Longrightarrow>
      \<exists>as. wo_fs w' = wo_fs w @ as \<and> (\<forall>a \<in> set as. P a)"
    and "\<And>h. P (Flush h)" and "\<And>h t. P (SetModified h t)"
    and "receive_stream process ru tu xs q others w = Some (r, w')"
  shows "\<exists>as. wo_fs w' = wo_fs w @ as \<and> (\<forall>a \<in> set as. P a)"
proof -
  obtain w1 where inner: "receive_stream_inner process xs receive_state_new w = Some (r, w1)"
    using assms(4) by (auto simp: receive_stream_def split: option.splits)
  have "wo_fs w' = wo_fs w1"
    using assms(4) inner by (auto simp: receive_stream_def split: option.splits)
  then show ?thesis using loop_log_of [OF assms(1-3) inner] by simp
qed

section \<open>The contract of a chunk processor\<close>

fun inputs_ok :: "string \<Rightarrow> string \<Rightarrow> rx_input list \<Rightarrow> bool" where
  "inputs_ok ru tu [] = True"
| "inputs_ok ru tu (RxChunk c io # xs) = (leaves_counter ru tu (ci_others io) \<and> inputs_ok ru tu xs)"
| "inputs_ok ru tu (x # xs) = inputs_ok ru tu xs"

locale chunk_processor =
  fixes process :: processor
    and ru tu :: string
    and good_action :: "fs_action \<Rightarrow> bool"
  assumes conserves:
      "process c io s w = (fl, s', w') \<Longrightarrow> leaves_counter ru tu (ci_others io) \<Longrightarrow>
        balance ru tu w' = balance ru tu w"
    and keeps_window:
      "process c io s w = (fl, s', w') \<Longrightarrow> ma_wf (rs_speed s) \<Longrightarrow> ma_wf (rs_speed s')"
    and logs:
      "process c io s w = (fl, s', w') \<Longrightarrow>
        \<exists>as. wo_fs w' = wo_fs w @ as \<and> (\<forall>a \<in> set as. good_action a)"
    and harmless: "good_action (Flush h)" "good_action (SetModified h t)"
begin

lemma finish_with_balance:
  "finish_with r (finalize_current_file s w) = (r', w') \<Longrightarrow> balance ru tu w' = balance ru tu w"
  by (cases "finalize_current_file s w")
    (auto simp: finish_with_def balance_finalize split: flow.splits)

lemma loop_conserves:
  "receive_stream_inner process xs s w = Some (r, w') \<Longrightarrow> inputs_ok ru tu xs \<Longrightarrow>
    balance ru tu w' = balance ru tu w"
proof (induction xs arbitrary: s w)
  case (Cons x xs)
  show ?case
  proof (cases x)
    case (RxChunk c io)
    obtain fl s1 w1 where p: "process c io s w = (fl, s1, w1)" by (rule prod_cases3)
    have b: "balance ru tu w1 = balance ru tu w"
      using conserves [OF p] Cons.prems(2) RxChunk by simp
    show ?thesis
    proof (cases fl)
      case Next
      then have "receive_stream_inner process xs s1 w1 = Some (r, w')"
        using Cons.prems(1) RxChunk p by simp
      then show ?thesis using Cons.IH Cons.prems(2) RxChunk b by auto
    qed (use Cons.prems RxChunk p b in auto)
  qed (use Cons.prems finish_with_balance in auto)
qed simp

lemma stream_conserves:
  assumes "receive_stream process ru tu xs q others w = Some (r, w')"
    and "inputs_ok ru tu xs" and "leaves_counter ru tu others"
  shows "balance ru tu w' = balance ru tu w"
proof -
  obtain w1 where inner: "receive_stream_inner process xs receive_state_new w = Some (r, w1)"
    using assms(1) by (auto simp: receive_stream_def split: option.splits)
  have b: "balance ru tu w1 = balance ru tu w" using loop_conserves [OF inner assms(2)] .
  show ?thesis
  proof (cases "rx_final_state r")
    case None
    then show ?thesis using assms(1) inner b by (simp add: receive_stream_def)
  next
    case (Some final)
    have w': "w' = w1\<lparr>wo_mgr :=
        snd (update_transfer q ru tu (finish_receive final) (others (wo_mgr w1)))\<rparr>"
      using assms(1) inner Some by (simp add: receive_stream_def)
    have "counted ru tu (wo_mgr w') = map_option (\<lambda>b. b + 0) (counted ru tu (others (wo_mgr w1)))"
      unfolding w' by (subst counted_update [symmetric]) (auto simp: finish_receive_def Let_def)
    then have "counted ru tu (wo_mgr w') = counted ru tu (wo_mgr w1)"
      using assms(3) by (simp add: leaves_counter_def option.map_ident)
    moreover have "written w' = written w1" by (simp add: w' written_def)
    ultimately show ?thesis using b by (simp add: balance_def)
  qed
qed

lemma written_grows:
  assumes "\<exists>as. wo_fs w' = wo_fs w @ as \<and> (\<forall>a \<in> set as. good_action a)"
  shows "written w \<le> written w'"
  using assms by (auto simp: written_def)

lemma stream_log:
  assumes "receive_stream process ru tu xs q others w = Some (r, w')"
  shows "\<exists>as. wo_fs w' = wo_fs w @ as \<and> (\<forall>a \<in> set as. good_action a)"
  by (rule stream_log_of [OF logs harmless assms])

lemma stream_counts:
  assumes "receive_stream process ru tu xs q others w = Some (r, w')"
    and "inputs_ok ru tu xs" and "leaves_counter ru tu others"
    and "get_transfer ru tu (wo_mgr w) = Some t"
  shows "\<exists>t'. get_transfer ru tu (wo_mgr w') = Some t' \<and>
    t_bytes_transferred t' = t_bytes_transferred t + of_nat (written w' - written w)"
proof -
  have le: "written w \<le> written w'" by (rule written_grows [OF stream_log [OF assms(1)]])
  have "balance ru tu w' = balance ru tu w" by (rule stream_conserves [OF assms(1-3)])
  then obtain t' where t': "get_transfer ru tu (wo_mgr w') = Some t'"
    and eq: "t_bytes_transferred t' - of_nat (written w') = t_bytes_transferred t - of_nat (written w)"
    using assms(4) by (auto simp: balance_def counted_def)
  have "t_bytes_transferred t' = t_bytes_transferred t - of_nat (written w) + of_nat (written w')"
    using eq by (simp add: algebra_simps)
  then have "t_bytes_transferred t' = t_bytes_transferred t + of_nat (written w' - written w)"
    using le by (simp add: of_nat_diff)
  with t' show ?thesis by blast
qed

end

section \<open>Both processors meet the contract\<close>

definition clean_text :: "string \<Rightarrow> bool" where
  "clean_text f \<longleftrightarrow>
     set f \<inter> {CHR 0x5C, CHR ''<'', CHR ''>'', CHR ''*'', CHR ''|'', CHR ''?'', CHR '':'', CHR 0x22} = {}"

lemma clean_sanitize [simp]: "clean_text (sanitize_path_component s)"
  using sanitize_clean by (auto simp: clean_text_def)

text \<open>What each processor may do to the filesystem.\<close>

fun real_action :: "path \<Rightarrow> fs_action \<Rightarrow> bool" where
  "real_action dest (CreateFile p) =
     (\<exists>q. clean_text q \<and> p = path_join dest (path_of q)
        \<and> (str_contains ''..'' q \<longrightarrow> path_starts_with p dest))"
| "real_action dest (VfsCreateDir d f) = False"
| "real_action dest (VfsCreateFile d f h) = False"
| "real_action dest a = True"

definition safe_name :: "string \<Rightarrow> bool" where
  "safe_name f \<longleftrightarrow> clean_text f \<and> \<not> str_contains ''..'' f"

fun virtual_action :: "string option \<Rightarrow> fs_action \<Rightarrow> bool" where
  "virtual_action dest (CreateDirAll p) = False"
| "virtual_action dest (CreateFile p) = False"
| "virtual_action dest (VfsCreateDir d f) = (dest = Some d \<and> safe_name f)"
| "virtual_action dest (VfsCreateFile d f h) = (dest = Some d \<and> safe_name f)"
| "virtual_action dest a = True"

lemma write_chunk_facts:
  assumes "write_chunk ru tu data io s w = (fl, s', w')"
  shows "ma_wf (rs_speed s) \<Longrightarrow> ma_wf (rs_speed s')"
    "\<exists>as. wo_fs w' = wo_fs w @ as \<and> (\<forall>a \<in> set as. \<exists>h d. a = WriteAll h d)"
  using assms ma_wf_push
  by (auto simp: write_chunk_def Let_def split: option.splits prod.splits) (metis snd_conv)

text \<open>The two processors in cases: what they return, step by step.\<close>

abbreviation chunk_name :: "file_chunk \<Rightarrow> string" where
  "chunk_name c \<equiv> sanitize_path_component (fc_relative_path c)"

abbreviation chunk_target :: "path \<Rightarrow> file_chunk \<Rightarrow> path" where
  "chunk_target dest c \<equiv> path_join dest (path_of (chunk_name c))"

abbreviation start_entry :: "file_chunk \<Rightarrow> receive_state \<Rightarrow> receive_state" where
  "start_entry c s \<equiv> s\<lparr>rs_current_path := Some (chunk_name c), rs_mtime := fc_time c\<rparr>"

definition parent_dirs :: "path \<Rightarrow> fs_action list" where
  "parent_dirs p = (case path_parent p of Some q \<Rightarrow> [CreateDirAll q] | None \<Rightarrow> [])"

lemma fs_log_append [simp]: "fs_log bs (fs_log as w) = fs_log (as @ bs) w"
  by (simp add: fs_log_def)

lemma process_chunk_real_new:
  assumes "chunk_file_type c \<noteq> Symlink"
    and "\<not> (str_contains ''..'' (chunk_name c) \<and> \<not> path_starts_with (chunk_target dest c) dest)"
    and "rs_current_path s \<noteq> Some (chunk_name c)"
    and "finalize_current_file s w = (Next, s1, w1)"
  shows "process_chunk_real dest ru tu c io s w =
    (if chunk_file_type c = Directory
     then (Next, start_entry c s1, fs_log [CreateDirAll (chunk_target dest c)] w1)
     else case ci_create io of
            Some e \<Rightarrow> (Fail (transfer_error_of_io e), start_entry c s1,
                       fs_log (parent_dirs (chunk_target dest c)) w1)
          | None \<Rightarrow> write_chunk ru tu (fc_chunk c) io
              ((start_entry c s1)\<lparr>rs_current_file := Some (PathHandle (chunk_target dest c))\<rparr>)
              (fs_log (parent_dirs (chunk_target dest c) @ [CreateFile (chunk_target dest c)]) w1))"
proof -
  have log: "(case path_parent p of None \<Rightarrow> w1 | Some q \<Rightarrow> fs_log [CreateDirAll q] w1) =
      fs_log (parent_dirs p) w1" for p
    by (simp add: fs_log_def parent_dirs_def split: option.splits)
  show ?thesis
    using assms by (cases "ci_create io") (auto simp: process_chunk_real_def Let_def log)
qed

lemma process_chunk_real_cases:
  assumes "process_chunk_real dest ru tu c io s w = (fl, s', w')"
  obtains (skip) "chunk_file_type c = Symlink" "fl = Next" "s' = s" "w' = w"
  | (unsafe) "fl = Fail UnsafePath" "s' = s" "w' = w" "chunk_file_type c \<noteq> Symlink"
      "str_contains ''..'' (chunk_name c)" "\<not> path_starts_with (chunk_target dest c) dest"
  | (panic) "finalize_current_file s w = (Panicked, s', w')" "fl = Panicked"
  | (directory) s1 w1 where "finalize_current_file s w = (Next, s1, w1)" "fl = Next"
      "s' = start_entry c s1" "w' = fs_log [CreateDirAll (chunk_target dest c)] w1"
  | (failed) s1 w1 e where "finalize_current_file s w = (Next, s1, w1)"
      "fl = Fail (transfer_error_of_io e)" "s' = start_entry c s1"
      "w' = fs_log (parent_dirs (chunk_target dest c)) w1"
  | (create) s1 w1 where "finalize_current_file s w = (Next, s1, w1)"
      "str_contains ''..'' (chunk_name c) \<longrightarrow> path_starts_with (chunk_target dest c) dest"
      "write_chunk ru tu (fc_chunk c) io
         ((start_entry c s1)\<lparr>rs_current_file := Some (PathHandle (chunk_target dest c))\<rparr>)
         (fs_log (parent_dirs (chunk_target dest c) @ [CreateFile (chunk_target dest c)]) w1)
       = (fl, s', w')"
  | (append) "rs_current_path s = Some (chunk_name c)"
      "write_chunk ru tu (fc_chunk c) io s w = (fl, s', w')"
proof -
  let ?unsafe = "str_contains ''..'' (chunk_name c) \<and> \<not> path_starts_with (chunk_target dest c) dest"
  consider (sym) "chunk_file_type c = Symlink" | (bad) "chunk_file_type c \<noteq> Symlink" ?unsafe
    | (same) "chunk_file_type c \<noteq> Symlink" "\<not> ?unsafe" "rs_current_path s = Some (chunk_name c)"
    | (new) "chunk_file_type c \<noteq> Symlink" "\<not> ?unsafe" "rs_current_path s \<noteq> Some (chunk_name c)"
    by blast
  then show thesis
  proof cases
    case sym
    then show thesis using assms skip by (simp add: process_chunk_real_def)
  next
    case bad
    then show thesis using assms unsafe by (simp add: process_chunk_real_def)
  next
    case same
    then show thesis using assms append by (auto simp: process_chunk_real_def)
  next
    case new
    obtain f1 s1 w1 where fin: "finalize_current_file s w = (f1, s1, w1)" by (rule prod_cases3)
    show thesis
    proof (cases f1)
      case Next
      note eq = process_chunk_real_new [OF new fin [unfolded Next], of ru tu io]
      show thesis
      proof (cases "chunk_file_type c = Directory")
        case True
        then show thesis using assms eq directory [OF fin [unfolded Next]] by simp
      next
        case False
        then show thesis
          using assms eq failed [OF fin [unfolded Next]] create [OF fin [unfolded Next]] new(2)
          by (cases "ci_create io") auto
      qed
    next
      case (Fail e)
      then show thesis using finalize_facts(5) [OF fin] by simp
    next
      case Panicked
      then show thesis using assms new fin panic by (auto simp: process_chunk_real_def)
    qed
  qed
qed

lemma process_chunk_virtual_cases:
  assumes "process_chunk_virtual st dest ru tu c io s w = (fl, s', w')"
  obtains (refuse) e where "fl = Fail e \<or> fl = Next" "s' = s" "w' = w"
  | (panic) "finalize_current_file s w = (Panicked, s', w')" "fl = Panicked"
  | (stop) s1 w1 e where "finalize_current_file s w = (Next, s1, w1)" "fl = Fail e"
      "s' = start_entry c s1" "w' = w1"
  | (directory) s1 w1 d where "finalize_current_file s w = (Next, s1, w1)" "dest = Some d"
      "\<not> str_contains ''..'' (chunk_name c)" "s' = start_entry c s1"
      "w' = fs_log [VfsCreateDir d (chunk_name c)] w1"
  | (create) s1 w1 d h where "finalize_current_file s w = (Next, s1, w1)" "dest = Some d"
      "\<not> str_contains ''..'' (chunk_name c)"
      "write_chunk ru tu (fc_chunk c) io
         ((start_entry c s1)\<lparr>rs_current_file := Some (FdHandle h)\<rparr>)
         (fs_log [VfsCreateFile d (chunk_name c) h] w1) = (fl, s', w')"
  | (append) "write_chunk ru tu (fc_chunk c) io s w = (fl, s', w')"
proof -
  consider (sym) "chunk_file_type c = Symlink \<or> str_contains ''..'' (chunk_name c)"
    | (same) "chunk_file_type c \<noteq> Symlink" "\<not> str_contains ''..'' (chunk_name c)"
        "rs_current_path s = Some (chunk_name c)"
    | (new) "chunk_file_type c \<noteq> Symlink" "\<not> str_contains ''..'' (chunk_name c)"
        "rs_current_path s \<noteq> Some (chunk_name c)"
    by blast
  then show thesis
  proof cases
    case sym
    then show thesis using assms refuse
      by (auto simp: process_chunk_virtual_def Let_def split: if_splits)
  next
    case same
    then show thesis using assms append by (auto simp: process_chunk_virtual_def)
  next
    case new
    obtain f1 s1 w1 where fin: "finalize_current_file s w = (f1, s1, w1)" by (rule prod_cases3)
    show thesis
    proof (cases f1)
      case Next
      note fin' = fin [unfolded Next]
      show thesis
      proof (cases dest)
        case None
        then show thesis using assms new fin' stop [OF fin']
          by (auto simp: process_chunk_virtual_def Let_def)
      next
        case (Some d)
        show thesis
        proof (cases "chunk_file_type c = Directory")
          case True
          then show thesis using assms new fin' Some stop [OF fin'] directory [OF fin' Some]
            by (cases "vfs_create_dir st d (chunk_name c)")
              (auto simp: process_chunk_virtual_def Let_def)
        next
          case False
          then show thesis using assms new fin' Some stop [OF fin'] create [OF fin' Some]
            by (cases "vfs_create_file st d (chunk_name c)")
              (auto simp: process_chunk_virtual_def Let_def)
        qed
      qed
    next
      case (Fail e)
      then show thesis using finalize_facts(5) [OF fin] by simp
    next
      case Panicked
      then show thesis using assms new fin panic by (auto simp: process_chunk_virtual_def)
    qed
  qed
qed

subsection \<open>The instances\<close>

lemma balance_start:
  assumes "finalize_current_file s w = (fl, s1, w1)" and "\<forall>a \<in> set as. action_bytes a = 0"
  shows "balance ru tu (fs_log as w1) = balance ru tu w"
  using balance_finalize [OF assms(1)] balance_fs_log [OF assms(2)] by simp

lemma parent_dirs_facts:
  "\<forall>a \<in> set (parent_dirs p). action_bytes a = 0"
  "a \<in> set (parent_dirs p) \<Longrightarrow> real_action dest a"
  by (auto simp: parent_dirs_def split: option.splits)

lemma log_extend:
  assumes "finalize_current_file s w = (fl, s1, w1)"
    and "wo_fs w' = wo_fs w1 @ as" and "\<forall>a \<in> set as. P a"
    and "\<And>h. P (Flush h)" and "\<And>h t. P (SetModified h t)"
  shows "\<exists>as. wo_fs w' = wo_fs w @ as \<and> (\<forall>a \<in> set as. P a)"
proof -
  obtain bs where bs: "wo_fs w1 = wo_fs w @ bs"
    "\<forall>a \<in> set bs. \<exists>h. a = Flush h \<or> (\<exists>t. a = SetModified h t)"
    using finalize_facts(4) [OF assms(1)] by blast
  have "wo_fs w' = wo_fs w @ (bs @ as)" using assms(2) bs(1) by simp
  moreover have "\<forall>a \<in> set (bs @ as). P a" using assms(3-5) bs(2) by auto
  ultimately show ?thesis by blast
qed

lemma write_chunk_log:
  assumes "write_chunk ru tu data io s w1 = (fl, s', w')" and "wo_fs w1 = wo_fs w @ as"
    and "\<forall>a \<in> set as. P a" and "\<And>h d. P (WriteAll h d)"
  shows "\<exists>as. wo_fs w' = wo_fs w @ as \<and> (\<forall>a \<in> set as. P a)"
proof -
  obtain bs where "wo_fs w' = wo_fs w1 @ bs" "\<forall>a \<in> set bs. \<exists>h d. a = WriteAll h d"
    using write_chunk_facts(2) [OF assms(1)] by blast
  then have "wo_fs w' = wo_fs w @ (as @ bs)" "\<forall>a \<in> set (as @ bs). P a"
    using assms(2-4) by auto
  then show ?thesis by blast
qed

interpretation real: chunk_processor "process_chunk_real dest ru tu" ru tu "real_action dest"
  for dest ru tu
proof unfold_locales
  fix c io s w fl s' w'
  assume p: "process_chunk_real dest ru tu c io s w = (fl, s', w')"
  { assume others: "leaves_counter ru tu (ci_others io)"
    from p show "balance ru tu w' = balance ru tu w"
      by (cases rule: process_chunk_real_cases)
        (simp_all add: balance_finalize balance_start parent_dirs_facts balance_write_chunk others) }
  { assume wf: "ma_wf (rs_speed s)"
    from p show "ma_wf (rs_speed s')"
      by (cases rule: process_chunk_real_cases)
        (use wf in \<open>simp_all add: finalize_facts(3) write_chunk_facts(1)\<close>) }
  from p show "\<exists>as. wo_fs w' = wo_fs w @ as \<and> (\<forall>a \<in> set as. real_action dest a)"
  proof (cases rule: process_chunk_real_cases)
    case panic
    then show ?thesis using log_extend [OF panic(1), of w' "[]"] by auto
  next
    case (directory s1 w1)
    then show ?thesis
      using log_extend [OF directory(1), of w' "[CreateDirAll (chunk_target dest c)]"] by auto
  next
    case (failed s1 w1 e)
    then show ?thesis
      using log_extend [OF failed(1), of w' "parent_dirs (chunk_target dest c)"] parent_dirs_facts(2)
      by auto
  next
    case (create s1 w1)
    let ?as = "parent_dirs (chunk_target dest c) @ [CreateFile (chunk_target dest c)]"
    have ok: "\<forall>a \<in> set ?as. real_action dest a"
      using create(2) parent_dirs_facts(2) by (auto intro!: exI [of _ "chunk_name c"])
    obtain bs where bs: "wo_fs (fs_log ?as w1) = wo_fs w @ bs" "\<forall>a \<in> set bs. real_action dest a"
      using log_extend [OF create(1) _ ok, of "fs_log ?as w1"] by auto
    show ?thesis by (rule write_chunk_log [OF create(3) bs]) simp
  next
    case append
    then show ?thesis using write_chunk_log [OF append(2), of w "[]"] by auto
  qed auto
qed auto

interpretation virtual: chunk_processor "process_chunk_virtual st dest ru tu" ru tu
  "virtual_action dest" for st dest ru tu
proof unfold_locales
  fix c io s w fl s' w'
  assume p: "process_chunk_virtual st dest ru tu c io s w = (fl, s', w')"
  { assume others: "leaves_counter ru tu (ci_others io)"
    from p show "balance ru tu w' = balance ru tu w"
      by (cases rule: process_chunk_virtual_cases)
        (simp_all add: balance_finalize balance_start balance_write_chunk others) }
  { assume wf: "ma_wf (rs_speed s)"
    from p show "ma_wf (rs_speed s')"
      by (cases rule: process_chunk_virtual_cases)
        (use wf in \<open>simp_all add: finalize_facts(3) write_chunk_facts(1)\<close>) }
  from p show "\<exists>as. wo_fs w' = wo_fs w @ as \<and> (\<forall>a \<in> set as. virtual_action dest a)"
  proof (cases rule: process_chunk_virtual_cases)
    case panic
    then show ?thesis using log_extend [OF panic(1), of w' "[]"] by auto
  next
    case (stop s1 w1 e)
    then show ?thesis using log_extend [OF stop(1), of w' "[]"] by auto
  next
    case (directory s1 w1 d)
    then show ?thesis
      using log_extend [OF directory(1), of w' "[VfsCreateDir d (chunk_name c)]"]
      by (auto simp: safe_name_def)
  next
    case (create s1 w1 d h)
    let ?as = "[VfsCreateFile d (chunk_name c) h]"
    have ok: "\<forall>a \<in> set ?as. virtual_action dest a" using create by (simp add: safe_name_def)
    obtain bs where bs: "wo_fs (fs_log ?as w1) = wo_fs w @ bs" "\<forall>a \<in> set bs. virtual_action dest a"
      using log_extend [OF create(1) _ ok, of "fs_log ?as w1"] by auto
    show ?thesis by (rule write_chunk_log [OF create(4) bs]) simp
  next
    case append
    then show ?thesis using write_chunk_log [OF append(1), of w "[]"] by auto
  qed auto
qed auto

section \<open>Properties\<close>

definition is_processor :: "processor \<Rightarrow> string \<Rightarrow> string \<Rightarrow> bool" where
  "is_processor p ru tu \<longleftrightarrow>
     (\<exists>dest. p = process_chunk_real dest ru tu)
     \<or> (\<exists>st dest. p = process_chunk_virtual st dest ru tu)"

definition is_chunk :: "rx_input \<Rightarrow> bool" where
  "is_chunk x = (case x of RxChunk c io \<Rightarrow> True | _ \<Rightarrow> False)"

lemma receive_loop_ends:
  "\<exists>x \<in> set xs. \<not> is_chunk x \<Longrightarrow> \<exists>r w'. receive_stream_inner p xs s w = Some (r, w')"
proof (induction xs arbitrary: s w)
  case (Cons x xs)
  show ?case
  proof (cases x)
    case (RxChunk c io)
    obtain fl s1 w1 where "p c io s w = (fl, s1, w1)" by (rule prod_cases3)
    then show ?thesis
      using Cons RxChunk by (cases fl) (auto simp: is_chunk_def)
  qed (auto simp: finish_with_def split: flow.splits)
qed simp

lemma receive_stream_ends:
  "\<exists>x \<in> set xs. \<not> is_chunk x \<Longrightarrow> \<exists>r w'. receive_stream p ru tu xs q others w = Some (r, w')"
  using receive_loop_ends [of xs p receive_state_new w]
  by (fastforce simp: receive_stream_def split: option.splits)

definition terminal :: "transfer_state \<Rightarrow> bool" where
  "terminal st \<longleftrightarrow>
     (case st of Completed \<Rightarrow> True | Stopped \<Rightarrow> True | Canceled \<Rightarrow> True | Denied \<Rightarrow> True
      | Failed e \<Rightarrow> True | _ \<Rightarrow> False)"

lemma rx_final_state_terminal: "rx_final_state r = Some st \<Longrightarrow> terminal st"
  by (cases r rule: rx_final_state.cases) (auto simp: terminal_def)

lemma finish_receive_terminal:
  "terminal st \<Longrightarrow> terminal (t_state (finish_receive st t)) \<and> t_bytes_per_second (finish_receive st t) = 0"
  by (auto simp: finish_receive_def Let_def terminal_def)

lemma get_transfer_of_counted:
  "counted ru tu m = counted ru tu m' \<Longrightarrow> get_transfer ru tu m = Some t \<Longrightarrow>
    \<exists>t'. get_transfer ru tu m' = Some t'"
  by (cases "get_transfer ru tu m'") (simp_all add: counted_def)

lemma get_transfer_of_balance:
  "balance ru tu w = balance ru tu w' \<Longrightarrow> get_transfer ru tu (wo_mgr w) = Some t \<Longrightarrow>
    \<exists>t'. get_transfer ru tu (wo_mgr w') = Some t'"
  by (cases "get_transfer ru tu (wo_mgr w')") (simp_all add: balance_def counted_def)

text \<open>A small reception: one file of three bytes.\<close>

definition sample_world :: world where
  "sample_world =
     \<lparr>wo_mgr = put_remote ''peer'' (sample_remote\<lparr>r_transfers := [sample_incoming]\<rparr>) sample_manager,
      wo_fs = []\<rparr>"

definition sample_chunk :: file_chunk where
  "sample_chunk =
     \<lparr>fc_relative_path = ''a/b'', fc_file_type = 1, fc_symlink_target = [], fc_chunk = [1, 2, 3],
      fc_file_mode = 420, fc_time = None\<rparr>"

definition sample_io :: chunk_io where
  "sample_io = \<lparr>ci_create = None, ci_write = None, ci_elapsed = 1, ci_qlen = 0, ci_others = id\<rparr>"

definition sample_stream :: "rx_input list" where
  "sample_stream = [RxChunk sample_chunk sample_io, RxEnd]"

lemma sample_reception:
  "get_transfer ''peer'' ''t1'' (wo_mgr sample_world) = Some sample_incoming"
  "inputs_ok ''peer'' ''t1'' sample_stream"
  "\<exists>x \<in> set sample_stream. \<not> is_chunk x"
  "is_processor (process_chunk_real [RootDir] ''peer'' ''t1'') ''peer'' ''t1''"
  by (auto simp: sample_world_def get_transfer_def has_uuid_def sample_incoming_def
      transfer_new_outgoing_def sample_stream_def sample_io_def is_chunk_def is_processor_def)

lemma sample_reception_ends:
  "\<exists>r w'. receive_stream (process_chunk_real [RootDir] ''peer'' ''t1'') ''peer'' ''t1''
     sample_stream 0 id sample_world = Some (r, w')"
  by (rule receive_stream_ends [OF sample_reception(3)])

text \<open>
  C3. Progress accounting. Whichever filesystem variant is compiled in, and whatever other tasks do
  to the shared state short of this transfer's counter, a reception that ends has raised
  \<open>bytes_transferred\<close> by exactly the number of bytes its successful writes put into files (modulo
  2^64), on every path: completion, cancellation, failure and panic.
\<close>

theorem reception_counts_written_bytes:
  assumes "is_processor p ru tu" and "receive_stream p ru tu xs q others w = Some (r, w')"
    and "inputs_ok ru tu xs" and "leaves_counter ru tu others"
    and "get_transfer ru tu (wo_mgr w) = Some t"
  shows "\<exists>t'. get_transfer ru tu (wo_mgr w') = Some t' \<and>
    t_bytes_transferred t' = t_bytes_transferred t + of_nat (written w' - written w)"
  using assms(1) unfolding is_processor_def
  using real.stream_counts [OF _ assms(3-5)] virtual.stream_counts [OF _ assms(3-5)] assms(2)
  by blast

theorem reception_counts_witness:
  "\<exists>r w' t'. receive_stream (process_chunk_real [RootDir] ''peer'' ''t1'') ''peer'' ''t1''
      sample_stream 0 id sample_world = Some (r, w') \<and>
    get_transfer ''peer'' ''t1'' (wo_mgr w') = Some t' \<and>
    t_bytes_transferred t' = 0 + of_nat (written w' - written sample_world)"
proof -
  obtain r w' where run: "receive_stream (process_chunk_real [RootDir] ''peer'' ''t1'') ''peer'' ''t1''
      sample_stream 0 id sample_world = Some (r, w')"
    using sample_reception_ends by blast
  have "t_bytes_transferred sample_incoming = 0"
    by (simp add: sample_incoming_def transfer_new_outgoing_def)
  with reception_counts_written_bytes [OF sample_reception(4) run sample_reception(2)
      leaves_counter_id(1) sample_reception(1)] run
  show ?thesis by auto
qed



end
