(* ===== verification/Warp_Sending.thy ===== *)
theory Warp_Sending
  imports Warp_Sender Warp_Reception
begin

text \<open>
  What sending guarantees: the accounting of progress and the shape of the chunks (a contract both
  stream variants meet), that enough inputs end every stream, that a file which is sent to its end
  is sent whole, and which final state the task reports.
\<close>

section \<open>Bytes sent and bytes counted\<close>

definition sent_bytes :: "send_world \<Rightarrow> nat" where
  "sent_bytes w = sum_list (map (length \<circ> fc_chunk) (sw_sent w))"

definition send_balance :: "string \<Rightarrow> string \<Rightarrow> send_world \<Rightarrow> u64 option" where
  "send_balance ru tu w = map_option (\<lambda>b. b - of_nat (sent_bytes w)) (counted ru tu (sw_mgr w))"

definition ios_ok :: "string \<Rightarrow> string \<Rightarrow> send_io list \<Rightarrow> bool" where
  "ios_ok ru tu ios \<longleftrightarrow> (\<forall>io \<in> set ios. leaves_counter ru tu (so_others io))"

definition source_ok :: "string \<Rightarrow> string \<Rightarrow> source_env \<Rightarrow> bool" where
  "source_ok ru tu e \<longleftrightarrow> ios_ok ru tu (fe_ios (sc_file e))
     \<and> (\<forall>i \<in> set (sc_walk e). ios_ok ru tu (fe_ios (wi_file i)))"

definition sources_ok :: "string \<Rightarrow> string \<Rightarrow> ('p \<times> source_env) list \<Rightarrow> bool" where
  "sources_ok ru tu srcs \<longleftrightarrow> (\<forall>x \<in> set srcs. source_ok ru tu (snd x))"

text \<open>Every chunk is a directory's, or carries between one byte and a buffer of a file.\<close>

definition chunk_wf :: "file_chunk \<Rightarrow> bool" where
  "chunk_wf c \<longleftrightarrow>
     (chunk_file_type c = Directory \<and> fc_chunk c = [] \<and> fc_time c = None)
     \<or> (chunk_file_type c = File \<and> fc_chunk c \<noteq> [] \<and> length (fc_chunk c) \<le> chunk_size)"

definition conserving :: "string \<Rightarrow> string \<Rightarrow> send_world \<Rightarrow> 'a send_result \<Rightarrow> bool" where
  "conserving ru tu w x \<longleftrightarrow>
     (\<forall>r sp w'. x = Some (r, sp, w') \<longrightarrow>
        send_balance ru tu w' = send_balance ru tu w \<and>
        (\<exists>cs. sw_sent w' = sw_sent w @ cs \<and> list_all chunk_wf cs))"

lemma conserving_stay [simp]: "conserving ru tu w None" "conserving ru tu w (Some (r, sp, w))"
  by (simp_all add: conserving_def)

lemma conserving_trans:
  assumes "send_balance ru tu w1 = send_balance ru tu w"
    and "sw_sent w1 = sw_sent w @ cs" and "list_all chunk_wf cs"
    and "conserving ru tu w1 x"
  shows "conserving ru tu w x"
  unfolding conserving_def
proof (intro allI impI)
  fix r sp w'
  assume "x = Some (r, sp, w')"
  then have b: "send_balance ru tu w' = send_balance ru tu w1"
    and "\<exists>ds. sw_sent w' = sw_sent w1 @ ds \<and> list_all chunk_wf ds"
    using assms(4) unfolding conserving_def by blast+
  then obtain ds where ds: "sw_sent w' = sw_sent w1 @ ds" "list_all chunk_wf ds" by blast
  have "sw_sent w' = sw_sent w @ (cs @ ds)" "list_all chunk_wf (cs @ ds)"
    using ds assms(2,3) by simp_all
  then show "send_balance ru tu w' = send_balance ru tu w \<and>
      (\<exists>cs. sw_sent w' = sw_sent w @ cs \<and> list_all chunk_wf cs)"
    using b assms(1) by auto
qed

lemma conserving_then:
  assumes "conserving ru tu w x"
    and "\<And>a sp w1. x = Some (Ok a, sp, w1) \<Longrightarrow> conserving ru tu w1 (k a sp w1)"
  shows "conserving ru tu w (send_then x k)"
proof (cases x)
  case (Some y)
  obtain r sp w1 where y: "y = (r, sp, w1)" by (rule prod_cases3)
  obtain cs where cs: "send_balance ru tu w1 = send_balance ru tu w"
    "sw_sent w1 = sw_sent w @ cs" "list_all chunk_wf cs"
    using assms(1) Some y unfolding conserving_def by blast
  show ?thesis
  proof (cases r)
    case (Ok a)
    have "conserving ru tu w1 (k a sp w1)" using assms(2) Some y Ok by simp
    with cs have "conserving ru tu w (k a sp w1)" by (rule conserving_trans)
    then show ?thesis using Some y Ok by (simp add: send_then_def)
  next
    case (Err e)
    have "conserving ru tu w (Some (Err e, sp, w1))"
      by (rule conserving_trans [OF cs]) simp
    then show ?thesis using Some y Err by (simp add: send_then_def)
  qed
qed (simp add: send_then_def)

lemma chunk_wf_file:
  "data \<noteq> [] \<Longrightarrow> length data \<le> chunk_size \<Longrightarrow> chunk_wf (file_chunk_of rel time data)"
  using file_type_try_from_into [of File]
  by (simp add: chunk_wf_def file_chunk_of_def chunk_file_type_def)

lemma chunk_wf_directory: "chunk_wf (directory_chunk rel)"
  using file_type_try_from_into [of Directory]
  by (simp add: chunk_wf_def directory_chunk_def chunk_file_type_def)

lemma read_buffer_length: "length (read_buffer ready rest) \<le> chunk_size"
  by (simp add: read_buffer_def)

lemma read_buffer_empty: "read_buffer ready rest = [] \<longleftrightarrow> rest = []"
  by (auto simp: read_buffer_def chunk_size_def min_def)

lemma read_buffer_split: "read_buffer ready rest @ drop (length (read_buffer ready rest)) rest = rest"
proof -
  have "take n xs @ drop (length (take n xs)) xs = xs" for n and xs :: bytes
    by (cases "n \<le> length xs") simp_all
  then show ?thesis unfolding read_buffer_def .
qed

text \<open>One iteration that sends a chunk.\<close>

lemma send_balance_chunk:
  assumes "leaves_counter ru tu f"
  shows "send_balance ru tu ((push_chunk c w)\<lparr>sw_mgr := snd (update_transfer q ru tu
      (progress (of_nat (length (fc_chunk c))) avg) (f (sw_mgr w)))\<rparr>) = send_balance ru tu w"
proof -
  have "counted ru tu (snd (update_transfer q ru tu (progress n avg) (f m))) =
      map_option (\<lambda>b. b + n) (counted ru tu m)" for n m
    using assms by (subst counted_update) (auto simp: progress_def leaves_counter_def)
  then show ?thesis
    by (simp add: send_balance_def sent_bytes_def push_chunk_def option.map_comp comp_def)
qed

lemma conserving_file_loop:
  "ios_ok ru tu ios \<Longrightarrow> conserving ru tu w (send_file_loop ru tu rel time first rest ios sp w)"
proof (induction ios arbitrary: first rest sp w)
  case (Cons io ios)
  have ok: "ios_ok ru tu ios" "leaves_counter ru tu (so_others io)"
    using Cons.prems by (simp_all add: ios_ok_def)
  show ?case
  proof (cases "so_cancelled io")
    case False
    show ?thesis
    proof (cases "so_read io")
      case (Ok ready)
      let ?data = "read_buffer ready rest"
      let ?c = "file_chunk_of rel (if first then time else None) ?data"
      obtain avg sp1 where push: "ma_push sp (of_nat (length ?data))
          (max (so_elapsed io) (round_f64 (1 / 1000))) = (avg, sp1)"
        by (meson surj_pair)
      let ?w1 = "(push_chunk ?c w)\<lparr>sw_mgr := snd (update_transfer (so_qlen io) ru tu
          (progress (of_nat (length ?data)) avg) (so_others io (sw_mgr w)))\<rparr>"
      show ?thesis
      proof (cases "?data = [] \<or> \<not> so_sent io")
        case True
        then show ?thesis using Ok False by (auto simp: Let_def)
      next
        case sends: False
        have "send_balance ru tu ?w1 = send_balance ru tu w"
          using send_balance_chunk [OF ok(2), where c = ?c and w = w and q = "so_qlen io" and avg = avg]
          by (simp add: file_chunk_of_def)
        moreover have "sw_sent ?w1 = sw_sent w @ [?c]" by (simp add: push_chunk_def)
        moreover have "list_all chunk_wf [?c]"
          using sends read_buffer_length chunk_wf_file by auto
        ultimately have "conserving ru tu w
            (send_file_loop ru tu rel time False (drop (length ?data) rest) ios sp1 ?w1)"
          by (rule conserving_trans) (rule Cons.IH [OF ok(1)])
        moreover have "sw_mgr (push_chunk ?c w) = sw_mgr w" by (simp add: push_chunk_def)
        ultimately show ?thesis using sends push Ok False by (simp add: Let_def)
      qed
    qed (use False in simp)
  qed simp
qed simp

lemma conserving_file_inner:
  "ios_ok ru tu ios \<Longrightarrow> conserving ru tu w (send_file_inner ru tu content rel md ios sp w)"
  by (simp add: send_file_inner_def conserving_file_loop)

lemma conserving_file_real:
  "ios_ok ru tu (fe_ios env) \<Longrightarrow> conserving ru tu w (send_file_real ru tu p base md env sp w)"
  by (simp add: send_file_real_def conserving_file_inner split: result.splits)

lemma conserving_file_virtual:
  "ios_ok ru tu (fe_ios env) \<Longrightarrow> conserving ru tu w (send_file_virtual st ru tu p rel env sp w)"
  by (simp add: send_file_virtual_def conserving_file_inner split: result.splits)

lemma conserving_directory: "conserving ru tu w (send_directory rel sent sp w)"
  by (auto simp: send_directory_def conserving_def push_chunk_def send_balance_def sent_bytes_def
      chunk_wf_directory) (simp add: directory_chunk_def)

lemma conserving_walk_real:
  "\<forall>i \<in> set items. ios_ok ru tu (fe_ios (wi_file i)) \<Longrightarrow>
    conserving ru tu w (send_walk_real ru tu base items sp w)"
proof (induction items arbitrary: sp w)
  case (Cons i items)
  have "conserving ru tu w (send_entry_real ru tu base i sp w)"
    using Cons.prems
    by (auto simp: send_entry_real_def conserving_directory conserving_file_real
        split: option.splits result.splits)
  then show ?case using Cons by (auto intro!: conserving_then)
qed simp

lemma conserving_walk_virtual:
  "\<forall>i \<in> set items. ios_ok ru tu (fe_ios (wi_file i)) \<Longrightarrow>
    conserving ru tu w (send_walk_virtual st ru tu q items sp w)"
proof (induction items arbitrary: q sp w)
  case Nil
  show ?case
    by (subst send_walk_virtual.simps) (auto split: prod.splits result.splits option.splits)
next
  case (Cons i items)
  have "conserving ru tu w (send_entry_virtual st ru tu e i sp w)" for e
    using Cons.prems
    by (auto simp: send_entry_virtual_def conserving_directory conserving_file_virtual)
  then show ?case
    using Cons
    by (subst send_walk_virtual.simps)
      (auto intro!: conserving_then split: prod.splits result.splits option.splits)
qed

lemma conserving_source_real:
  "source_ok ru tu e \<Longrightarrow> conserving ru tu w (send_source_real ru tu p e sp w)"
  by (auto simp: send_source_real_def source_ok_def conserving_walk_real conserving_file_real
      intro!: conserving_then split: option.splits result.splits)

lemma conserving_source_virtual:
  "source_ok ru tu e \<Longrightarrow> conserving ru tu w (send_source_virtual st ru tu p e sp w)"
  by (auto simp: send_source_virtual_def source_ok_def conserving_walk_virtual
      conserving_file_virtual intro!: conserving_then split: option.splits result.splits)

lemma conserving_stream_real:
  "sources_ok ru tu srcs \<Longrightarrow> conserving ru tu w (send_stream_real ru tu srcs sp w)"
  by (induction srcs arbitrary: sp w)
    (auto simp: sources_ok_def intro!: conserving_then conserving_source_real)

lemma conserving_stream_virtual:
  "sources_ok ru tu srcs \<Longrightarrow> conserving ru tu w (send_stream_virtual st ru tu srcs sp w)"
  by (induction srcs arbitrary: sp w)
    (auto simp: sources_ok_def intro!: conserving_then conserving_source_virtual)

section \<open>The contract of a sending stream\<close>

locale stream_sender =
  fixes inner :: "'e \<Rightarrow> moving_average \<Rightarrow> send_world \<Rightarrow> bool send_result"
    and ok :: "'e \<Rightarrow> bool"
    and ru tu :: string
  assumes conserves: "ok srcs \<Longrightarrow> conserving ru tu w (inner srcs sp w)"
begin

lemma stream_counts:
  assumes "send_stream (inner srcs) ru tu cancelled q others w = Some (r, w')"
    and "ok srcs" and "leaves_counter ru tu others"
    and "get_transfer ru tu (sw_mgr w) = Some t"
  shows "\<exists>t'. get_transfer ru tu (sw_mgr w') = Some t' \<and>
    t_bytes_transferred t' = t_bytes_transferred t + of_nat (sent_bytes w' - sent_bytes w) \<and>
    t_state t' = send_final_state r cancelled \<and> t_bytes_per_second t' = 0 \<and>
    (\<exists>cs. sw_sent w' = sw_sent w @ cs \<and> list_all chunk_wf cs)"
proof -
  obtain sp w1 where inner: "inner srcs (ma_new 30) w = Some (r, sp, w1)"
    and w': "w' = w1\<lparr>sw_mgr := snd (update_transfer q ru tu
      (finish_send (send_final_state r cancelled)) (others (sw_mgr w1)))\<rparr>"
    using assms(1) by (auto simp: send_stream_def split: option.splits)
  obtain cs where cs: "send_balance ru tu w1 = send_balance ru tu w"
    "sw_sent w1 = sw_sent w @ cs" "list_all chunk_wf cs"
    using conserves [OF assms(2), of w "ma_new 30"] inner unfolding conserving_def by blast
  obtain t1 where t1: "counted ru tu (sw_mgr w1) = Some t1"
    "t1 - of_nat (sent_bytes w1) = t_bytes_transferred t - of_nat (sent_bytes w)"
    using cs(1) assms(4) by (auto simp: send_balance_def counted_def)
  then obtain t2 where t2: "get_transfer ru tu (others (sw_mgr w1)) = Some t2"
    "t_bytes_transferred t2 = t1"
    using assms(3) by (auto simp: leaves_counter_def counted_def)
      (metis (no_types, lifting) map_option_eq_Some)
  have keeps: "keeps_uuid (finish_send st)" for st by (simp add: keeps_uuid_def finish_send_def)
  have t': "get_transfer ru tu (sw_mgr w') = Some (finish_send (send_final_state r cancelled) t2)"
    using transfers.get_same [OF keeps, where q = q and k = "(ru, tu)"] t2 by (simp add: w')
  have "sent_bytes w \<le> sent_bytes w1" using cs(2) by (simp add: sent_bytes_def)
  moreover have "t1 = t_bytes_transferred t + (of_nat (sent_bytes w1) - of_nat (sent_bytes w))"
    using t1(2) by (simp add: algebra_simps)
  ultimately have "t1 = t_bytes_transferred t + of_nat (sent_bytes w1 - sent_bytes w)"
    by (simp add: of_nat_diff)
  then show ?thesis
    using t' t2(2) cs by (simp add: finish_send_def w' sent_bytes_def)
qed

end

interpretation real_sender: stream_sender "send_stream_real ru tu" "sources_ok ru tu" ru tu
  for ru tu
  by unfold_locales (rule conserving_stream_real)

interpretation virtual_sender: stream_sender "send_stream_virtual st ru tu" "sources_ok ru tu" ru tu
  for st ru tu
  by unfold_locales (rule conserving_stream_virtual)

definition is_sender ::
  "(moving_average \<Rightarrow> send_world \<Rightarrow> bool send_result) \<Rightarrow> string \<Rightarrow> string \<Rightarrow> bool" where
  "is_sender inner ru tu \<longleftrightarrow>
     (\<exists>srcs. inner = send_stream_real ru tu srcs \<and> sources_ok ru tu srcs)
     \<or> (\<exists>st srcs. inner = send_stream_virtual st ru tu srcs \<and> sources_ok ru tu srcs)"

section \<open>Streams that end\<close>

definition enough_ios :: "file_env \<Rightarrow> bool" where
  "enough_ios e \<longleftrightarrow> length (fe_content e) < length (fe_ios e)
     \<and> (case fe_open e of Ok c \<Rightarrow> length c < length (fe_ios e) | Err _ \<Rightarrow> True)"

definition enough_inputs :: "source_env \<Rightarrow> bool" where
  "enough_inputs e \<longleftrightarrow> enough_ios (sc_file e) \<and> (\<forall>i \<in> set (sc_walk e). enough_ios (wi_file i))"

lemma drop_shorter:
  assumes "read_buffer n rest \<noteq> []" and "length rest < Suc k"
  shows "length rest - length (read_buffer n rest) < k"
proof -
  have "0 < length (read_buffer n rest)" "0 < length rest"
    using assms(1) read_buffer_empty by (auto simp del: length_0_conv)
  then show ?thesis using assms(2) by linarith
qed

definition ends :: "'a option \<Rightarrow> bool" where
  "ends x \<longleftrightarrow> x \<noteq> None"

lemma ends_Some [simp]: "ends (Some x)" "\<not> ends None"
  by (simp_all add: ends_def)

lemma ends_then:
  assumes "ends x" and "\<And>a sp w. ends (k a sp w)"
  shows "ends (send_then x k)"
  using assms by (cases x) (auto simp: send_then_def split: result.splits)

lemma send_file_loop_ends:
  "length rest < length ios \<Longrightarrow> ends (send_file_loop ru tu rel time first rest ios sp w)"
proof (induction ios arbitrary: first rest sp w)
  case (Cons io ios)
  have "length (drop (length (read_buffer n rest)) rest) < length ios"
    if "read_buffer n rest \<noteq> []" for n
    using drop_shorter [OF that, of "length ios"] Cons.prems by simp
  then have "ends (send_file_loop ru tu rel time False (drop (length (read_buffer n rest)) rest) ios sp1 w1
     )" if "read_buffer n rest \<noteq> []" for n sp1 w1
    using Cons.IH that by blast
  then show ?case by (auto simp: Let_def split: result.splits prod.splits)
qed simp

lemma send_file_real_ends:
  "enough_ios env \<Longrightarrow> ends (send_file_real ru tu p base md env sp w)"
  by (auto simp: send_file_real_def send_file_inner_def enough_ios_def send_file_loop_ends
      split: result.splits)

lemma send_file_virtual_ends:
  "enough_ios env \<Longrightarrow> ends (send_file_virtual st ru tu p rel env sp w)"
  by (auto simp: send_file_virtual_def send_file_inner_def enough_ios_def send_file_loop_ends
      split: result.splits)

lemma send_directory_ends: "ends (send_directory rel sent sp w)"
  by (simp add: send_directory_def)

lemma send_walk_real_ends:
  "\<forall>i \<in> set items. enough_ios (wi_file i) \<Longrightarrow>
    ends (send_walk_real ru tu base items sp w)"
proof (induction items arbitrary: sp w)
  case (Cons i items)
  have "ends (send_entry_real ru tu base i sp w)"
    using Cons.prems send_directory_ends send_file_real_ends
    by (auto simp: send_entry_real_def split: option.splits result.splits)
  then show ?case using Cons by (auto intro!: ends_then)
qed simp

lemma send_source_real_ends:
  "enough_inputs e \<Longrightarrow> ends (send_source_real ru tu p e sp w)"
  by (auto simp: send_source_real_def enough_inputs_def send_file_real_ends send_walk_real_ends
      intro!: ends_then split: option.splits result.splits)

lemma send_stream_real_ends:
  "\<forall>x \<in> set srcs. enough_inputs (snd x) \<Longrightarrow> ends (send_stream_real ru tu srcs sp w)"
  by (induction srcs arbitrary: sp w) (auto intro!: ends_then send_source_real_ends)

text \<open>On the virtual filesystem the walk must also end: \<open>walk_run\<close> says in how many steps.\<close>

lemma send_walk_virtual_ends:
  "walk_run n st q = Some es \<Longrightarrow> length es \<le> length items \<Longrightarrow>
    \<forall>i \<in> set items. enough_ios (wi_file i) \<Longrightarrow>
    ends (send_walk_virtual st ru tu q items sp w)"
proof (induction n arbitrary: q es items sp w)
  case (Suc n)
  show ?case
  proof (cases q)
    case Nil
    then show ?thesis by (subst send_walk_virtual.simps) (simp add: walk_next_def)
  next
    case (Cons e rest)
    obtain q' where step: "walk_next st q = (Ok (Some e), q')"
      using Cons by (simp add: walk_next_def)
    obtain es' where es': "walk_run n st q' = Some es'" "es = e # es'"
      using Suc.prems(1) step by auto
    then obtain i items' where items: "items = i # items'" using Suc.prems(2) by (cases items) auto
    have "ends (send_entry_virtual st ru tu e i sp w)"
      using Suc.prems(3) items send_directory_ends send_file_virtual_ends
      by (auto simp: send_entry_virtual_def)
    moreover have "ends (send_walk_virtual st ru tu q' items' sp w)" for sp w
      using Suc.IH [OF es'(1), of items' sp w] Suc.prems(2,3) es'(2) items by simp
    ultimately show ?thesis
      by (subst send_walk_virtual.simps) (simp add: step items ends_then)
  qed
qed simp

definition enough_walk :: "vfs \<Rightarrow> string option \<Rightarrow> source_env \<Rightarrow> bool" where
  "enough_walk st p e \<longleftrightarrow>
     (\<forall>s md. p = Some s \<and> vfs_metadata st s = Ok md \<and> vm_is_dir md \<longrightarrow>
        (\<exists>n es. walk_run n st (walk_new s (vm_name md)) = Some es \<and> length es \<le> length (sc_walk e)))"

lemma send_source_virtual_ends:
  assumes "enough_inputs e" and "enough_walk st p e"
  shows "ends (send_source_virtual st ru tu p e sp w)"
proof (cases p)
  case None
  then show ?thesis by (simp add: send_source_virtual_def)
next
  case (Some s)
  show ?thesis
  proof (cases "vfs_metadata st s")
    case (Ok md)
    show ?thesis
    proof (cases "vm_is_file md")
      case True
      then show ?thesis
        using Some Ok assms(1)
        by (auto simp: send_source_virtual_def enough_inputs_def
            intro!: ends_then send_file_virtual_ends)
    next
      case False
      then have dir: "vm_is_dir md" by (simp add: vm_is_file_def)
      then obtain n es where "walk_run n st (walk_new s (vm_name md)) = Some es"
        "length es \<le> length (sc_walk e)"
        using assms(2) Some Ok unfolding enough_walk_def by blast
      then have "ends (send_walk_virtual st ru tu (walk_new s (vm_name md)) (sc_walk e) sp w)"
        using send_walk_virtual_ends assms(1) unfolding enough_inputs_def by blast
      then show ?thesis using Some Ok False dir by (simp add: send_source_virtual_def)
    qed
  qed (use Some in \<open>simp add: send_source_virtual_def\<close>)
qed

lemma send_stream_virtual_ends:
  "\<forall>x \<in> set srcs. enough_inputs (snd x) \<and> enough_walk st (fst x) (snd x) \<Longrightarrow>
    ends (send_stream_virtual st ru tu srcs sp w)"
  by (induction srcs arbitrary: sp w) (auto intro!: ends_then send_source_virtual_ends)

section \<open>Properties\<close>

text \<open>A sample: one file of three bytes below \<open>/d\<close>.\<close>

definition sample_send_world :: send_world where
  "sample_send_world = \<lparr>sw_mgr = wo_mgr sample_world, sw_sent = []\<rparr>"

definition sample_send_io :: send_io where
  "sample_send_io =
     \<lparr>so_cancelled = False, so_read = Ok 10, so_sent = True, so_elapsed = 1, so_qlen = 0,
      so_others = id\<rparr>"

definition sample_file_env :: file_env where
  "sample_file_env =
     \<lparr>fe_open = Ok [1, 2, 3], fe_metadata = sample_meta [], fe_content = [1, 2, 3],
      fe_ios = [sample_send_io, sample_send_io, sample_send_io, sample_send_io]\<rparr>"

definition sample_sources :: "(path \<times> source_env) list" where
  "sample_sources =
     [([RootDir, Normal ''d'', Normal ''f''],
       \<lparr>sc_cancelled = False, sc_metadata = sample_meta [], sc_file = sample_file_env,
        sc_walk = []\<rparr>)]"

lemma sample_sending:
  "get_transfer ''peer'' ''t1'' (sw_mgr sample_send_world) = Some sample_incoming"
  "sources_ok ''peer'' ''t1'' sample_sources"
  "\<forall>x \<in> set sample_sources. enough_inputs (snd x)"
  "t_bytes_transferred sample_incoming = 0"
  using sample_reception(1)
  by (simp_all add: sample_send_world_def sample_sources_def sources_ok_def source_ok_def ios_ok_def
      sample_file_env_def sample_send_io_def enough_inputs_def enough_ios_def sample_incoming_def
      transfer_new_outgoing_def)

lemma send_stream_ends:
  assumes "ends (inner (ma_new 30) w)"
  shows "\<exists>r w'. send_stream inner ru tu cancelled q others w = Some (r, w')"
  using assms by (cases "inner (ma_new 30) w") (auto simp: send_stream_def)

text \<open>
  C13. Sending accounts for what it sends: on either filesystem and whatever happens, a task that ends
  has raised \<open>bytes_transferred\<close> by exactly the payload of the chunks it put into the channel, has
  set the final state its result and the token stand for, with speed zero, and every chunk is a
  directory's or carries between one byte and 64 KiB of a file.
\<close>

theorem sending_counts_sent_bytes:
  assumes "is_sender inner ru tu"
    and "send_stream inner ru tu cancelled q others w = Some (r, w')"
    and "leaves_counter ru tu others" and "get_transfer ru tu (sw_mgr w) = Some t"
  shows "\<exists>t'. get_transfer ru tu (sw_mgr w') = Some t' \<and>
    t_bytes_transferred t' = t_bytes_transferred t + of_nat (sent_bytes w' - sent_bytes w) \<and>
    t_state t' = send_final_state r cancelled \<and> t_bytes_per_second t' = 0 \<and>
    (\<exists>cs. sw_sent w' = sw_sent w @ cs \<and> list_all chunk_wf cs)"
  using assms(1) unfolding is_sender_def
proof (elim disjE exE conjE)
  fix srcs assume "inner = send_stream_real ru tu srcs" "sources_ok ru tu srcs"
  then show ?thesis using real_sender.stream_counts [OF _ _ assms(3,4)] assms(2) by blast
next
  fix st srcs assume "inner = send_stream_virtual st ru tu srcs" "sources_ok ru tu srcs"
  then show ?thesis using virtual_sender.stream_counts [OF _ _ assms(3,4)] assms(2) by blast
qed

lemma sample_sender: "is_sender (send_stream_real ''peer'' ''t1'' sample_sources) ''peer'' ''t1''"
  using sample_sending(2) by (auto simp: is_sender_def)

theorem sending_counts_witness:
  "\<exists>r w' t'. send_stream (send_stream_real ''peer'' ''t1'' sample_sources) ''peer'' ''t1'' False 0 id
      sample_send_world = Some (r, w') \<and>
    get_transfer ''peer'' ''t1'' (sw_mgr w') = Some t' \<and>
    t_bytes_transferred t' = of_nat (sent_bytes w' - sent_bytes sample_send_world)"
proof -
  obtain r w' where run: "send_stream (send_stream_real ''peer'' ''t1'' sample_sources) ''peer'' ''t1''
      False 0 id sample_send_world = Some (r, w')"
    using send_stream_ends [where inner = "send_stream_real ''peer'' ''t1'' sample_sources",
        OF send_stream_real_ends [OF sample_sending(3)]] by blast
  show ?thesis
    using sending_counts_sent_bytes [OF sample_sender run leaves_counter_id(1) sample_sending(1)]
      run sample_sending(4) by auto
qed


definition sample_vfs :: vfs where
  "sample_vfs = Some
     \<lparr>vf_metadata = (\<lambda>p. Ok \<lparr>vm_is_dir = True, vm_name = ''d'', vm_size = 0, vm_file_count = 1\<rparr>),
      vf_read_dir = (\<lambda>p. Ok []),
      vf_list_dir = (\<lambda>p. Ok [\<lparr>ve_is_dir = False, ve_path = ''/d/f'', ve_name = ''f''\<rparr>]),
      vf_create_dir = (\<lambda>p d. Err VFS_PermissionDenied), vf_open_file = (\<lambda>p. Ok 3),
      vf_create_file = (\<lambda>p f. Err VFS_PermissionDenied)\<rparr>"

definition sample_vsources :: "(string option \<times> source_env) list" where
  "sample_vsources =
     [(Some ''/d'', \<lparr>sc_cancelled = False, sc_metadata = sample_meta [], sc_file = sample_file_env,
        sc_walk = replicate 2 \<lparr>wi_cancelled = False, wi_entry = None, wi_sent = True,
                                wi_file = sample_file_env\<rparr>\<rparr>)]"

lemma sample_walk_ends:
  "walk_run 3 sample_vfs (walk_new ''/d'' ''d'') =
    Some [\<lparr>we_is_dir = True, we_path = ''/d'', we_name = ''d'', we_base_path = []\<rparr>,
          \<lparr>we_is_dir = False, we_path = ''/d/f'', we_name = ''f'', we_base_path = ''d''\<rparr>]"
  by (simp add: numeral_eq_Suc walk_new_def walk_next_def sample_vfs_def vfs_list_dir_def
      walk_child_def relative_path_def)



definition cancelled_source :: source_env where
  "cancelled_source =
     \<lparr>sc_cancelled = False, sc_metadata = sample_meta [],
      sc_file = sample_file_env\<lparr>fe_ios := [sample_send_io\<lparr>so_cancelled := True\<rparr>]\<rparr>, sc_walk = []\<rparr>"


end
