(* ===== verification/Warp_Reception_Safety.thy ===== *)
theory Warp_Reception_Safety
  imports Warp_Reception
begin

text \<open>
  Which files a peer can make the receiver create, on either filesystem variant, and what a
  modification time can do to the task. The names of the chunks come from the remote.
\<close>

section \<open>The guard on the real filesystem\<close>

lemma write_chunk_flow:
  "fst (write_chunk ru tu data io s w) \<noteq> Fail UnsafePath"
proof -
  have "transfer_error_of_io e \<noteq> UnsafePath" for e by (cases e) auto
  then show ?thesis
    by (auto simp: write_chunk_def Let_def split: option.splits prod.splits)
qed

lemma path_starts_with_join:
  "path_starts_with (path_join p q) p \<longleftrightarrow> \<not> has_root q \<or> prefix p q"
  by (auto simp: path_starts_with_def path_join_def)

text \<open>
  C26. The traversal guard of the real filesystem, exactly: a chunk is refused as unsafe when its
  (sanitized) name contains two dots, is absolute, and does not begin with the destination. A
  relative name is never refused, whatever parent components it has.
\<close>

theorem traversal_guard_exact:
  "fst (process_chunk_real dest ru tu c io s w) = Fail UnsafePath \<longleftrightarrow>
    chunk_file_type c \<noteq> Symlink \<and> str_contains ''..'' (chunk_name c)
    \<and> has_root (path_of (chunk_name c)) \<and> \<not> prefix dest (path_of (chunk_name c))"
    (is "_ \<longleftrightarrow> ?unsafe")
proof
  assume "?unsafe"
  then show "fst (process_chunk_real dest ru tu c io s w) = Fail UnsafePath"
    by (simp add: process_chunk_real_def path_starts_with_join)
next
  assume F: "fst (process_chunk_real dest ru tu c io s w) = Fail UnsafePath"
  obtain fl s' w' where p: "process_chunk_real dest ru tu c io s w = (fl, s', w')"
    by (rule prod_cases3)
  have io: "transfer_error_of_io e \<noteq> UnsafePath" for e by (cases e) auto
  from p show "?unsafe"
  proof (cases rule: process_chunk_real_cases)
    case create
    then show ?thesis using F p write_chunk_flow by (metis fst_conv)
  next
    case append
    then show ?thesis using F p write_chunk_flow by (metis fst_conv)
  qed (use F p io in \<open>auto simp: path_starts_with_join\<close>)
qed

section \<open>Where files are created\<close>

lemma split_step: "x = (fst x, fst (snd x), snd (snd x))"
  by simp

lemma finalize_new [simp]:
  "finalize_current_file receive_state_new w = (Next, receive_state_new, w)"
  by (simp add: finalize_current_file_def receive_state_new_def)

lemma write_chunk_keeps_log:
  "write_chunk ru tu data io s w = (fl, s', w') \<Longrightarrow> set (wo_fs w) \<subseteq> set (wo_fs w')"
  using write_chunk_facts(2) by fastforce

text \<open>The first chunk of a reception creates its target, unless the guard refuses it.\<close>

lemma first_chunk_creates:
  assumes "chunk_file_type c = File" and "ci_create io = None"
    and "\<not> (str_contains ''..'' (chunk_name c) \<and> has_root (path_of (chunk_name c))
      \<and> \<not> prefix dest (path_of (chunk_name c)))"
    and "process_chunk_real dest ru tu c io receive_state_new w = (fl, s', w')"
  shows "CreateFile (chunk_target dest c) \<in> set (wo_fs w')"
proof -
  have eq: "process_chunk_real dest ru tu c io receive_state_new w =
      write_chunk ru tu (fc_chunk c) io
        ((start_entry c receive_state_new)\<lparr>rs_current_file := Some (PathHandle (chunk_target dest c))\<rparr>)
        (fs_log (parent_dirs (chunk_target dest c) @ [CreateFile (chunk_target dest c)]) w)"
    using assms(1-3)
    by (subst process_chunk_real_new [OF _ _ _ finalize_new])
      (auto simp: path_starts_with_join receive_state_new_def)
  show ?thesis using write_chunk_keeps_log [OF trans [OF eq [symmetric] assms(4)]] by simp
qed

lemma path_of_parent_name:
  assumes "normal_name n"
  shows "path_of (''../'' @ n) = [ParentDir, Normal n]"
proof -
  have "split_on CHR ''/'' n = [n]" using assms by (simp add: normal_name_def split_on_no_sep)
  then show ?thesis
    using assms
    by (simp add: path_of_def body_components_def component_of_def normal_name_def Let_def)
qed

lemma sanitize_id:
  "clean_text n \<Longrightarrow> sanitize_path_component n = n"
  unfolding sanitize_path_component_def by (rule replace_chars_id) (auto simp: clean_text_def)

text \<open>
  C27. The guard lets relative names climb out: for a peer that sends a file named \<open>../n\<close>, the
  receiver creates the file \<open>n\<close> beside the destination directory, not below it.
\<close>

theorem relative_name_escapes:
  assumes "list_all plain ds" and "normal_name n" and "clean_text n" and "n \<noteq> d"
    and "fc_relative_path c = ''../'' @ n" and "chunk_file_type c = File" and "ci_create io = None"
    and "process_chunk_real (RootDir # ds @ [Normal d]) ru tu c io receive_state_new w = (fl, s', w')"
  shows "\<exists>p. CreateFile p \<in> set (wo_fs w') \<and> resolve p = RootDir # ds @ [Normal n]
    \<and> \<not> path_starts_with (resolve p) (RootDir # ds @ [Normal d])"
proof -
  have "clean_text (''../'' @ n)" using assms(3) by (simp add: clean_text_def)
  then have path: "path_of (chunk_name c) = [ParentDir, Normal n]"
    using assms(2,5) by (simp add: sanitize_id path_of_parent_name del: append.simps)
  then have rel: "\<not> has_root (path_of (chunk_name c))" by (simp add: has_root_def)
  let ?p = "chunk_target (RootDir # ds @ [Normal d]) c"
  have "CreateFile ?p \<in> set (wo_fs w')"
    using first_chunk_creates [OF assms(6,7) _ assms(8)] rel by blast
  moreover have "resolve ?p = RootDir # ds @ [Normal n]"
    using assms(1)
    by (simp add: path path_join_def has_root_def resolve_def resolve_from_append resolve_from_plain)
  moreover have "\<not> path_starts_with (RootDir # ds @ [Normal n]) (RootDir # ds @ [Normal d])"
    using assms(4) by (simp add: path_starts_with_def)
  ultimately show ?thesis by auto
qed

definition escape_chunk :: file_chunk where
  "escape_chunk = sample_chunk\<lparr>fc_relative_path := ''../evil''\<rparr>"

theorem relative_name_escapes_witness:
  "\<exists>p. CreateFile p \<in> set (wo_fs (snd (snd
      (process_chunk_real (RootDir # [Normal ''home''] @ [Normal ''dl'']) ''peer'' ''t1'' escape_chunk
        sample_io receive_state_new sample_world))))
    \<and> resolve p = RootDir # [Normal ''home''] @ [Normal ''evil'']
    \<and> \<not> path_starts_with (resolve p) (RootDir # [Normal ''home''] @ [Normal ''dl''])"
  by (rule relative_name_escapes [where c = escape_chunk and io = sample_io,
        OF _ _ _ _ _ _ _ split_step])
    (simp_all add: plain_def normal_name_def clean_text_def escape_chunk_def sample_chunk_def
      chunk_file_type_def file_type_try_from_def sample_io_def)

text \<open>
  C28. An absolute name without two dots is not looked at by the guard and replaces the destination:
  the file is created wherever the peer says.
\<close>

theorem absolute_name_replaces_destination:
  assumes "has_root (path_of (chunk_name c))" and "\<not> str_contains ''..'' (chunk_name c)"
    and "chunk_file_type c = File" and "ci_create io = None"
    and "process_chunk_real dest ru tu c io receive_state_new w = (fl, s', w')"
  shows "CreateFile (path_of (chunk_name c)) \<in> set (wo_fs w')"
  using first_chunk_creates [OF assms(3,4) _ assms(5)] assms(1,2) by (simp add: path_join_def)

definition absolute_chunk :: file_chunk where
  "absolute_chunk = sample_chunk\<lparr>fc_relative_path := ''/etc/cron''\<rparr>"

theorem absolute_name_witness:
  "CreateFile (path_of (chunk_name absolute_chunk)) \<in> set (wo_fs (snd (snd
      (process_chunk_real [RootDir, Normal ''dl''] ''peer'' ''t1'' absolute_chunk sample_io
        receive_state_new sample_world))))"
  by (rule absolute_name_replaces_destination [where io = sample_io, OF _ _ _ _ split_step])
    (simp_all add: absolute_chunk_def sample_chunk_def chunk_file_type_def file_type_try_from_def
      sample_io_def sanitize_path_component_def replace_chars_def path_of_def has_root_def)

section \<open>Names that stay inside\<close>

definition inside :: "path \<Rightarrow> fs_action \<Rightarrow> bool" where
  "inside dest a = (case a of CreateFile p \<Rightarrow> prefix (resolve dest) (resolve p) | _ \<Rightarrow> True)"

lemma inside_simps [simp]:
  "inside dest (CreateFile p) = prefix (resolve dest) (resolve p)" "inside dest (CreateDirAll p)"
  "inside dest (Flush h)" "inside dest (SetModified h t)" "inside dest (WriteAll h d)"
  by (simp_all add: inside_def)

lemma process_chunk_real_inside:
  assumes "process_chunk_real dest ru tu c io s w = (fl, s', w')" and "dest \<noteq> []"
    and "\<not> has_root (path_of (chunk_name c))" and "ParentDir \<notin> set (path_of (chunk_name c))"
  shows "\<exists>as. wo_fs w' = wo_fs w @ as \<and> (\<forall>a \<in> set as. inside dest a)"
proof -
  have target: "inside dest (CreateFile (chunk_target dest c))"
    using path_join_inside [OF assms(4,3) tl_path_of assms(2)] by simp
  have dirs: "\<forall>a \<in> set (parent_dirs q). inside dest a" for q
    by (auto simp: parent_dirs_def split: option.splits)
  from assms(1) show ?thesis
  proof (cases rule: process_chunk_real_cases)
    case panic
    then show ?thesis using log_extend [OF panic(1), of w' "[]"] by auto
  next
    case (directory s1 w1)
    then show ?thesis
      using log_extend [OF directory(1), of w' "[CreateDirAll (chunk_target dest c)]"] by auto
  next
    case (failed s1 w1 e)
    then show ?thesis
      using log_extend [OF failed(1), of w' "parent_dirs (chunk_target dest c)"] dirs by auto
  next
    case (create s1 w1)
    let ?as = "parent_dirs (chunk_target dest c) @ [CreateFile (chunk_target dest c)]"
    have ok: "\<forall>a \<in> set ?as. inside dest a" using target dirs by auto
    obtain bs where bs: "wo_fs (fs_log ?as w1) = wo_fs w @ bs" "\<forall>a \<in> set bs. inside dest a"
      using log_extend [OF create(1) _ ok, of "fs_log ?as w1"] by auto
    show ?thesis by (rule write_chunk_log [OF create(3) bs]) simp
  next
    case append
    then show ?thesis using write_chunk_log [OF append(2), of w "[]"] by auto
  qed auto
qed

text \<open>
  C16. What does hold on the real filesystem: if every name of the stream is relative and has no
  parent component, every file the reception creates resolves to a place below the destination.
\<close>

theorem relative_names_stay_inside:
  assumes "receive_stream (process_chunk_real dest ru tu) ru tu xs q others w = Some (r, w')"
    and "dest \<noteq> []"
    and "\<And>c io. RxChunk c io \<in> set xs \<Longrightarrow>
      \<not> has_root (path_of (chunk_name c)) \<and> ParentDir \<notin> set (path_of (chunk_name c))"
  shows "\<exists>as. wo_fs w' = wo_fs w @ as \<and>
    (\<forall>p. CreateFile p \<in> set as \<longrightarrow> prefix (resolve dest) (resolve p))"
proof -
  have "\<exists>as. wo_fs w' = wo_fs w @ as \<and> (\<forall>a \<in> set as. inside dest a)"
    by (rule stream_log_of [OF _ _ _ assms(1)])
      (use process_chunk_real_inside assms(2,3) in \<open>blast | simp\<close>)+
  then obtain as where as: "wo_fs w' = wo_fs w @ as" "\<forall>a \<in> set as. inside dest a" by blast
  have "prefix (resolve dest) (resolve p)" if "CreateFile p \<in> set as" for p
    using as(2) that inside_simps(1) by blast
  with as(1) show ?thesis by blast
qed

theorem relative_names_witness:
  "\<exists>r w' as. receive_stream (process_chunk_real [RootDir] ''peer'' ''t1'') ''peer'' ''t1''
      sample_stream 0 id sample_world = Some (r, w') \<and> wo_fs w' = wo_fs sample_world @ as \<and>
    (\<forall>p. CreateFile p \<in> set as \<longrightarrow> prefix (resolve [RootDir]) (resolve p))"
proof -
  obtain r w' where run: "receive_stream (process_chunk_real [RootDir] ''peer'' ''t1'') ''peer'' ''t1''
      sample_stream 0 id sample_world = Some (r, w')"
    using sample_reception_ends by blast
  have "\<not> has_root (path_of (chunk_name c)) \<and> ParentDir \<notin> set (path_of (chunk_name c))"
    if "RxChunk c io \<in> set sample_stream" for c io
    using that by (simp add: sample_stream_def sample_chunk_def sanitize_path_component_def
        replace_chars_def path_of_def has_root_def body_components_def component_of_def)
  with relative_names_stay_inside [OF run] run show ?thesis by blast
qed

section \<open>The virtual filesystem\<close>

text \<open>
  C14. On the virtual filesystem the guard is strict: whatever the peer sends, every path handed to
  the application's \<open>create_dir\<close> and \<open>create_file\<close> comes with the destination, contains none of the
  sanitized characters and no two dots, hence no parent component.
\<close>

theorem virtual_paths_are_safe:
  assumes "receive_stream (process_chunk_virtual st dest ru tu) ru tu xs q others w = Some (r, w')"
  shows "\<exists>as. wo_fs w' = wo_fs w @ as \<and>
    (\<forall>d f h. VfsCreateFile d f h \<in> set as \<or> VfsCreateDir d f \<in> set as \<longrightarrow>
      dest = Some d \<and> clean_text f \<and> \<not> str_contains ''..'' f \<and> ParentDir \<notin> set (path_of f))"
proof -
  obtain as where as: "wo_fs w' = wo_fs w @ as" "\<forall>a \<in> set as. virtual_action dest a"
    using virtual.stream_log [OF assms] by blast
  have "dest = Some d \<and> safe_name f"
    if "VfsCreateFile d f h \<in> set as \<or> VfsCreateDir d f \<in> set as" for d f h
    using that as(2) by auto
  then show ?thesis using as(1) parent_dir_has_dots by (fastforce simp: safe_name_def)
qed

definition sample_receiving_fs :: vfs where
  "sample_receiving_fs = Some
     \<lparr>vf_metadata = (\<lambda>p. Err VFS_FileNotFound), vf_read_dir = (\<lambda>p. Ok []), vf_list_dir = (\<lambda>p. Ok []),
      vf_create_dir = (\<lambda>p d. Ok (p @ ''/'' @ d)), vf_open_file = (\<lambda>p. Err VFS_FileNotFound),
      vf_create_file = (\<lambda>p f. Ok 7)\<rparr>"

theorem virtual_paths_witness:
  "\<exists>r w' as. receive_stream (process_chunk_virtual sample_receiving_fs (Some ''dl'') ''peer'' ''t1'')
      ''peer'' ''t1'' sample_stream 0 id sample_world = Some (r, w') \<and>
    wo_fs w' = wo_fs sample_world @ as \<and>
    (\<forall>d f h. VfsCreateFile d f h \<in> set as \<or> VfsCreateDir d f \<in> set as \<longrightarrow>
      Some ''dl'' = Some d \<and> clean_text f \<and> \<not> str_contains ''..'' f \<and> ParentDir \<notin> set (path_of f))"
proof -
  obtain r w' where run: "receive_stream
      (process_chunk_virtual sample_receiving_fs (Some ''dl'') ''peer'' ''t1'') ''peer'' ''t1''
      sample_stream 0 id sample_world = Some (r, w')"
    using receive_stream_ends [OF sample_reception(3)] by blast
  show ?thesis using virtual_paths_are_safe [OF run] run by blast
qed

section \<open>Modification times\<close>

lemma system_time_panics:
  "2 ^ 63 \<le> unat (ft_mtime ft) \<Longrightarrow> system_time_of_file_time ft = Panic"
  by (simp add: system_time_of_file_time_def Let_def)

lemma write_chunk_ok:
  assumes "rs_current_file s = Some h" and "ci_write io = None"
  shows "\<exists>sp w' avg. write_chunk ru tu data io s w = (Next, s\<lparr>rs_speed := sp\<rparr>, w') \<and>
    wo_mgr w' = snd (update_transfer (ci_qlen io) ru tu (progress (of_nat (length data)) avg)
      (ci_others io (wo_mgr w)))"
  using assms by (auto simp: write_chunk_def Let_def split: prod.splits)

lemma finalize_panics:
  assumes "rs_current_file s = Some h" and "rs_mtime s = Some ft" and "2 ^ 63 \<le> unat (ft_mtime ft)"
  shows "finalize_current_file s w =
    (Panicked, s\<lparr>rs_current_file := None, rs_mtime := None\<rparr>, w)"
  using assms by (simp add: finalize_current_file_def system_time_panics)

lemma first_chunk_written:
  assumes "chunk_file_type c = File" and "ci_create io = None" and "ci_write io = None"
    and "\<not> str_contains ''..'' (chunk_name c)"
  shows "\<exists>s' w' avg. process_chunk_real dest ru tu c io receive_state_new w = (Next, s', w') \<and>
    rs_current_file s' = Some (PathHandle (chunk_target dest c)) \<and> rs_mtime s' = fc_time c \<and>
    wo_mgr w' = snd (update_transfer (ci_qlen io) ru tu (progress (of_nat (length (fc_chunk c))) avg)
      (ci_others io (wo_mgr w)))"
proof -
  let ?s = "(start_entry c receive_state_new)\<lparr>rs_current_file := Some (PathHandle (chunk_target dest c))\<rparr>"
  let ?w = "fs_log (parent_dirs (chunk_target dest c) @ [CreateFile (chunk_target dest c)]) w"
  obtain sp w' avg where "write_chunk ru tu (fc_chunk c) io ?s ?w = (Next, ?s\<lparr>rs_speed := sp\<rparr>, w')"
    "wo_mgr w' = snd (update_transfer (ci_qlen io) ru tu (progress (of_nat (length (fc_chunk c))) avg)
      (ci_others io (wo_mgr ?w)))"
    using write_chunk_ok [OF _ assms(3), of ?s] by fastforce
  moreover have "process_chunk_real dest ru tu c io receive_state_new w =
      write_chunk ru tu (fc_chunk c) io ?s ?w"
    using assms
    by (subst process_chunk_real_new [OF _ _ _ finalize_new]) (auto simp: receive_state_new_def)
  ultimately show ?thesis by auto
qed

text \<open>
  C29. A modification time of 2^63 seconds or more ends the reception with a panic when the file is
  finished: the stream has been received, but the final update never runs, and the transfer keeps
  the state it had (in progress) with the last speed.
\<close>

theorem modification_time_panics_reception:
  assumes "chunk_file_type c = File" and "ci_create io = None" and "ci_write io = None"
    and "\<not> str_contains ''..'' (chunk_name c)"
    and "fc_time c = Some ft" and "2 ^ 63 \<le> unat (ft_mtime ft)"
    and "get_transfer ru tu (ci_others io (wo_mgr w)) = Some t"
  shows "\<exists>w' t'. receive_stream (process_chunk_real dest ru tu) ru tu (RxChunk c io # RxEnd # xs)
      q others w = Some (RxPanic, w') \<and>
    get_transfer ru tu (wo_mgr w') = Some t' \<and> t_state t' = t_state t \<and>
    t_bytes_transferred t' = t_bytes_transferred t + of_nat (length (fc_chunk c))"
proof -
  obtain s1 w1 avg where step:
    "process_chunk_real dest ru tu c io receive_state_new w = (Next, s1, w1)"
    "rs_current_file s1 = Some (PathHandle (chunk_target dest c))" "rs_mtime s1 = Some ft"
    "wo_mgr w1 = snd (update_transfer (ci_qlen io) ru tu (progress (of_nat (length (fc_chunk c))) avg)
      (ci_others io (wo_mgr w)))"
    using first_chunk_written [OF assms(1-4)] assms(5) by metis
  have "receive_stream (process_chunk_real dest ru tu) ru tu (RxChunk c io # RxEnd # xs) q others w
      = Some (RxPanic, w1)"
    using step(1) finalize_panics [OF step(2,3) assms(6)]
    by (simp add: receive_stream_def finish_with_def)
  moreover have "get_transfer ru tu (wo_mgr w1) =
      Some (progress (of_nat (length (fc_chunk c))) avg t)"
    using transfers.get_same [OF keeps_uuid_progress, where k = "(ru, tu)"] assms(7)
    by (simp add: step(4))
  ultimately show ?thesis by (auto simp: progress_def)
qed

definition late_chunk :: file_chunk where
  "late_chunk = sample_chunk\<lparr>fc_time := Some \<lparr>ft_mtime = 0x8000000000000000, ft_mtime_usec = 0\<rparr>\<rparr>"

theorem modification_time_witness:
  "\<exists>w' t'. receive_stream (process_chunk_real [RootDir] ''peer'' ''t1'') ''peer'' ''t1''
      [RxChunk late_chunk sample_io, RxEnd] 0 id sample_world = Some (RxPanic, w') \<and>
    get_transfer ''peer'' ''t1'' (wo_mgr w') = Some t' \<and> t_state t' = t_state sample_incoming \<and>
    t_bytes_transferred t' =
      t_bytes_transferred sample_incoming + of_nat (length (fc_chunk late_chunk))"
  by (rule modification_time_panics_reception [where ft = "\<lparr>ft_mtime = 0x8000000000000000,
        ft_mtime_usec = 0\<rparr>"])
    (simp_all add: late_chunk_def sample_chunk_def chunk_file_type_def file_type_try_from_def
      sample_io_def sanitize_path_component_def replace_chars_def sample_reception)

end
