(* ===== verification/Warp_Roundtrip.thy ===== *)
theory Warp_Roundtrip
  imports Warp_Sending Warp_Reception_Safety
begin

text \<open>
  From the sender's files to the receiver's: what a completed stream holds (its transcript), what a
  filesystem log leaves in the files, and that receiving a transcript reproduces every file that is
  not empty.
\<close>

section \<open>The transcript of a stream\<close>

datatype sent_item =
    SentDir (item_name: string)
  | SentFile (item_name: string) (item_time: "file_time option") (item_content: bytes)

definition parts_chunks :: "string \<Rightarrow> file_time option \<Rightarrow> bytes list \<Rightarrow> file_chunk list" where
  "parts_chunks rel time parts =
     (case parts of [] \<Rightarrow> [] | d # ds \<Rightarrow> file_chunk_of rel time d # map (file_chunk_of rel None) ds)"

inductive transcript :: "sent_item list \<Rightarrow> file_chunk list \<Rightarrow> bool" where
  nothing: "transcript [] []"
| one_dir: "transcript items cs \<Longrightarrow> transcript (SentDir rel # items) (directory_chunk rel # cs)"
| one_file: "transcript items cs \<Longrightarrow> [] \<notin> set parts \<Longrightarrow> concat parts = content \<Longrightarrow>
    transcript (SentFile rel time content # items) (parts_chunks rel time parts @ cs)"

lemma transcript_append:
  "transcript xs cs \<Longrightarrow> transcript ys ds \<Longrightarrow> transcript (xs @ ys) (cs @ ds)"
  by (induction rule: transcript.induct) (auto intro: transcript.intros)

lemma transcript_file1:
  "[] \<notin> set parts \<Longrightarrow> concat parts = content \<Longrightarrow>
    transcript [SentFile rel time content] (parts_chunks rel time parts)"
  using transcript.one_file [OF transcript.nothing] by force

lemma transcript_dir1: "transcript [SentDir rel] [directory_chunk rel]"
  by (rule transcript.one_dir [OF transcript.nothing])

text \<open>What the sources of a real stream stand for.\<close>

definition file_items :: "path \<Rightarrow> path \<Rightarrow> file_metadata \<Rightarrow> file_env \<Rightarrow> sent_item list" where
  "file_items p base md env =
     (case fe_open env of
        Ok content \<Rightarrow> [SentFile (path_text (relative_to p base))
                         (map_option file_time_of_modified (md_modified md)) content]
      | Err e \<Rightarrow> [])"

definition entry_items :: "path \<Rightarrow> walk_item \<Rightarrow> sent_item list" where
  "entry_items base i =
     (case wi_entry i of
        Some (p, Ok md) \<Rightarrow>
          if md_is_dir md then [SentDir (path_text (relative_to p base))]
          else if md_is_file md then file_items p base md (wi_file i) else []
      | _ \<Rightarrow> [])"

definition source_items :: "path \<Rightarrow> source_env \<Rightarrow> sent_item list" where
  "source_items p e =
     (case path_parent p of
        None \<Rightarrow> []
      | Some base \<Rightarrow>
         (case sc_metadata e of
            Err k \<Rightarrow> []
          | Ok md \<Rightarrow>
              if md_is_file md then file_items p base md (sc_file e)
              else if md_is_dir md then concat (map (entry_items base) (sc_walk e)) else []))"

definition never_cancelled :: "file_env \<Rightarrow> bool" where
  "never_cancelled env \<longleftrightarrow> (\<forall>io \<in> set (fe_ios env). \<not> so_cancelled io)"

definition source_never_cancelled :: "source_env \<Rightarrow> bool" where
  "source_never_cancelled e \<longleftrightarrow>
     never_cancelled (sc_file e) \<and> (\<forall>i \<in> set (sc_walk e). never_cancelled (wi_file i))"

section \<open>A completed stream is the transcript of its sources\<close>

lemma file_loop_parts:
  "send_file_loop ru tu rel time first rest ios sp w = Some (Ok (), sp', w') \<Longrightarrow>
    \<forall>io \<in> set ios. \<not> so_cancelled io \<Longrightarrow>
    \<exists>parts. sw_sent w' = sw_sent w @
        (if first then parts_chunks rel time parts else map (file_chunk_of rel None) parts) \<and>
      [] \<notin> set parts \<and> concat parts = rest"
proof (induction ios arbitrary: first rest sp w)
  case (Cons io ios)
  obtain ready where ready: "so_read io = Ok ready"
    using Cons.prems by (cases "so_read io") auto
  let ?data = "read_buffer ready rest"
  show ?case
  proof (cases "?data = []")
    case True
    then have "w' = w" using Cons.prems ready by simp
    then show ?thesis
      using True read_buffer_empty by (intro exI [of _ "[]"]) (auto simp: parts_chunks_def)
  next
    case False
    obtain avg sp1 where push: "ma_push sp (of_nat (length ?data))
        (max (so_elapsed io) (round_f64 (1 / 1000))) = (avg, sp1)"
      by (meson surj_pair)
    let ?c = "file_chunk_of rel (if first then time else None) ?data"
    have sent: "so_sent io"
      using Cons.prems ready False by (cases "so_sent io") (auto simp: Let_def)
    let ?w1 = "(push_chunk ?c w)\<lparr>sw_mgr := snd (update_transfer (so_qlen io) ru tu
        (progress (of_nat (length ?data)) avg) (so_others io (sw_mgr (push_chunk ?c w))))\<rparr>"
    have "sw_sent ?w1 = sw_sent w @ [?c]" by (simp add: push_chunk_def)
    moreover have "send_file_loop ru tu rel time False (drop (length ?data) rest) ios sp1 ?w1
        = Some (Ok (), sp', w')"
      using Cons.prems ready False push sent by (simp add: Let_def)
    moreover then obtain parts where "sw_sent w' = sw_sent ?w1 @ map (file_chunk_of rel None) parts"
      "[] \<notin> set parts" "concat parts = drop (length ?data) rest"
      using Cons.IH [of False] Cons.prems(2) by force
    ultimately show ?thesis
      using False read_buffer_split by (intro exI [of _ "?data # parts"]) (auto simp: parts_chunks_def)
  qed
qed simp

lemma file_real_transcript:
  assumes "send_file_real ru tu p base md env sp w = Some (Ok (), sp', w')" and "never_cancelled env"
  shows "\<exists>cs. sw_sent w' = sw_sent w @ cs \<and> transcript (file_items p base md env) cs"
proof -
  obtain content where c: "fe_open env = Ok content"
    using assms(1) by (cases "fe_open env") (auto simp: send_file_real_def)
  then have "send_file_loop ru tu (path_text (relative_to p base))
      (map_option file_time_of_modified (md_modified md)) True content (fe_ios env) sp w
      = Some (Ok (), sp', w')"
    using assms(1) by (simp add: send_file_real_def send_file_inner_def)
  from file_loop_parts [OF this] assms(2) transcript_file1 show ?thesis
    by (fastforce simp: file_items_def c never_cancelled_def)
qed

lemma send_then_Ok:
  assumes "send_then x k = Some (Ok b, sp', w')"
  obtains a sp1 w1 where "x = Some (Ok a, sp1, w1)" "k a sp1 w1 = Some (Ok b, sp', w')"
  using assms by (auto simp: send_then_def split: option.splits result.splits)

lemma entry_transcript:
  assumes "send_entry_real ru tu base i sp w = Some (Ok (), sp', w')" and "never_cancelled (wi_file i)"
  shows "\<exists>cs. sw_sent w' = sw_sent w @ cs \<and> transcript (entry_items base i) cs"
proof -
  obtain p md where e: "wi_entry i = Some (p, Ok md)"
    using assms(1) by (auto simp: send_entry_real_def split: option.splits result.splits)
  show ?thesis
  proof (cases "md_is_dir md")
    case True
    then have "sw_sent w' = sw_sent w @ [directory_chunk (path_text (relative_to p base))]"
      using assms(1) e
      by (auto simp: send_entry_real_def send_directory_def push_chunk_def split: if_splits)
    then show ?thesis using True e transcript_dir1 by (auto simp: entry_items_def)
  next
    case False
    then show ?thesis
      using assms e file_real_transcript [of ru tu p base md "wi_file i" sp w sp' w']
      by (auto simp: send_entry_real_def entry_items_def transcript.nothing split: if_splits)
  qed
qed

lemma walk_transcript:
  "send_walk_real ru tu base items sp w = Some (Ok True, sp', w') \<Longrightarrow>
    \<forall>i \<in> set items. never_cancelled (wi_file i) \<Longrightarrow>
    \<exists>cs. sw_sent w' = sw_sent w @ cs \<and> transcript (concat (map (entry_items base) items)) cs"
proof (induction items arbitrary: sp w)
  case Nil
  then show ?case using transcript.nothing by auto
next
  case (Cons i items)
  then have "send_then (send_entry_real ru tu base i sp w)
      (\<lambda>_ sp w. send_walk_real ru tu base items sp w) = Some (Ok True, sp', w')"
    by (auto split: if_splits)
  then obtain sp1 w1 where s: "send_entry_real ru tu base i sp w = Some (Ok (), sp1, w1)"
    "send_walk_real ru tu base items sp1 w1 = Some (Ok True, sp', w')"
    by (auto elim: send_then_Ok)
  obtain cs where "sw_sent w1 = sw_sent w @ cs" "transcript (entry_items base i) cs"
    using entry_transcript [OF s(1)] Cons.prems(2) by auto
  moreover obtain ds where "sw_sent w' = sw_sent w1 @ ds"
    "transcript (concat (map (entry_items base) items)) ds"
    using Cons.IH [OF s(2)] Cons.prems(2) by auto
  ultimately show ?case using transcript_append by (intro exI [of _ "cs @ ds"]) auto
qed

lemma source_transcript:
  assumes "send_source_real ru tu p e sp w = Some (Ok True, sp', w')" and "source_never_cancelled e"
  shows "\<exists>cs. sw_sent w' = sw_sent w @ cs \<and> transcript (source_items p e) cs"
proof -
  obtain base where b: "path_parent p = Some base"
    using assms(1) by (cases "path_parent p") (auto simp: send_source_real_def)
  obtain md where md: "sc_metadata e = Ok md"
    using assms(1) b by (cases "sc_metadata e") (auto simp: send_source_real_def)
  show ?thesis
  proof (cases "md_is_file md")
    case True
    then obtain sp1 where "send_file_real ru tu p base md (sc_file e) sp w = Some (Ok (), sp1, w')"
      using assms(1) b md by (auto simp: send_source_real_def elim: send_then_Ok)
    then show ?thesis
      using file_real_transcript assms(2) True b md
      by (simp add: source_items_def source_never_cancelled_def)
  next
    case False
    then show ?thesis
      using assms walk_transcript [of ru tu base "sc_walk e" sp w sp' w'] b md transcript.nothing
      by (auto simp: send_source_real_def source_items_def source_never_cancelled_def split: if_splits)
  qed
qed

lemma stream_transcript:
  "send_stream_real ru tu srcs sp w = Some (Ok True, sp', w') \<Longrightarrow>
    \<forall>x \<in> set srcs. source_never_cancelled (snd x) \<Longrightarrow>
    \<exists>cs. sw_sent w' = sw_sent w @ cs \<and>
      transcript (concat (map (\<lambda>(p, e). source_items p e) srcs)) cs"
proof (induction srcs arbitrary: sp w)
  case Nil
  then show ?case using transcript.nothing by auto
next
  case (Cons x srcs)
  obtain p e where x: "x = (p, e)" by force
  have "send_then (send_source_real ru tu p e sp w) (\<lambda>go sp w.
      if go then send_stream_real ru tu srcs sp w else Some (Ok False, sp, w)) = Some (Ok True, sp', w')"
    using Cons.prems(1) x by (auto split: if_splits)
  then obtain sp1 w1 where s: "send_source_real ru tu p e sp w = Some (Ok True, sp1, w1)"
    "send_stream_real ru tu srcs sp1 w1 = Some (Ok True, sp', w')"
    by (elim send_then_Ok) (auto split: if_splits)
  obtain cs where "sw_sent w1 = sw_sent w @ cs" "transcript (source_items p e) cs"
    using source_transcript [OF s(1)] Cons.prems(2) x by auto
  moreover obtain ds where "sw_sent w' = sw_sent w1 @ ds"
    "transcript (concat (map (\<lambda>(p, e). source_items p e) srcs)) ds"
    using Cons.IH [OF s(2)] Cons.prems(2) by auto
  ultimately show ?case
    using transcript_append x by (intro exI [of _ "cs @ ds"]) auto
qed

section \<open>What a log leaves in the files\<close>

fun apply_action :: "fs_action \<Rightarrow> (path \<rightharpoonup> bytes) \<Rightarrow> (path \<rightharpoonup> bytes)" where
  "apply_action (CreateFile p) files = files(p \<mapsto> [])"
| "apply_action (WriteAll (PathHandle p) d) files =
     (case files p of None \<Rightarrow> files | Some b \<Rightarrow> files(p \<mapsto> b @ d))"
| "apply_action _ files = files"

definition files_after :: "fs_action list \<Rightarrow> (path \<rightharpoonup> bytes) \<Rightarrow> (path \<rightharpoonup> bytes)" where
  "files_after as files = fold apply_action as files"

lemma files_after_simps [simp]:
  "files_after [] files = files"
  "files_after (a # as) files = files_after as (apply_action a files)"
  "files_after (as @ bs) files = files_after bs (files_after as files)"
  by (simp_all add: files_after_def)

lemma files_after_writes:
  "files_after (map (WriteAll (PathHandle p)) ds) (files(p \<mapsto> b)) = files(p \<mapsto> b @ concat ds)"
  by (induction ds arbitrary: b) auto

lemma files_after_parent_dirs [simp]: "files_after (parent_dirs p) files = files"
  by (simp add: parent_dirs_def split: option.splits)

section \<open>Receiving a transcript\<close>

type_synonym answered = "file_chunk \<times> chunk_io"

definition rx_inputs :: "answered list \<Rightarrow> rx_input list" where
  "rx_inputs ps = map (\<lambda>(c, io). RxChunk c io) ps"

lemma rx_inputs_simps [simp]:
  "rx_inputs [] = []" "rx_inputs ((c, io) # ps) = RxChunk c io # rx_inputs ps"
  "rx_inputs (ps @ qs) = rx_inputs ps @ rx_inputs qs"
  by (simp_all add: rx_inputs_def)

definition no_io_error :: "answered list \<Rightarrow> bool" where
  "no_io_error ps \<longleftrightarrow> (\<forall>(c, io) \<in> set ps. ci_create io = None \<and> ci_write io = None)"

definition advances :: "processor \<Rightarrow> answered list \<Rightarrow> receive_state \<Rightarrow> world \<Rightarrow> receive_state \<Rightarrow> world
    \<Rightarrow> bool" where
  "advances P ps s w s' w' \<longleftrightarrow>
     (\<forall>xs. receive_stream_inner P (rx_inputs ps @ xs) s w = receive_stream_inner P xs s' w')"

lemma advances_refl: "advances P [] s w s w"
  by (simp add: advances_def)

lemma advances_trans: "advances P ps s w s1 w1 \<Longrightarrow> advances P qs s1 w1 s' w' \<Longrightarrow> advances P (ps @ qs) s w s' w'"
  by (simp add: advances_def)

lemma advances_one: "P c io s w = (Next, s', w') \<Longrightarrow> advances P [(c, io)] s w s' w'"
  by (simp add: advances_def)

definition accepted :: "path \<Rightarrow> string \<Rightarrow> bool" where
  "accepted dest rel \<longleftrightarrow>
     \<not> (str_contains ''..'' (sanitize_path_component rel)
        \<and> has_root (path_of (sanitize_path_component rel))
        \<and> \<not> prefix dest (path_of (sanitize_path_component rel)))"

definition item_target :: "path \<Rightarrow> sent_item \<Rightarrow> path" where
  "item_target dest i = path_join dest (path_of (sanitize_path_component (item_name i)))"

definition time_ok :: "file_time option \<Rightarrow> bool" where
  "time_ok time = (case time of None \<Rightarrow> True | Some ft \<Rightarrow> system_time_of_file_time ft \<noteq> Panic)"

lemma finalize_time_ok:
  assumes "time_ok (rs_mtime s)"
  shows "\<exists>s1 as. finalize_current_file s w = (Next, s1, fs_log as w) \<and> (\<forall>m. files_after as m = m)"
proof (cases "rs_current_file s")
  case None
  then show ?thesis
    by (intro exI [of _ "s\<lparr>rs_current_path := None\<rparr>"] exI [of _ "[]"])
      (simp add: finalize_current_file_def fs_log_def)
next
  case (Some h)
  show ?thesis
  proof (cases "rs_mtime s")
    case None
    with Some show ?thesis by (auto simp: finalize_current_file_def intro!: exI [of _ "[Flush h]"])
  next
    case (Some ft)
    then obtain t where "system_time_of_file_time ft = Return t"
      using assms by (cases "system_time_of_file_time ft") (auto simp: time_ok_def)
    then show ?thesis
      using Some \<open>rs_current_file s = Some h\<close>
      by (auto simp: finalize_current_file_def intro!: exI [of _ "[SetModified h t, Flush h]"])
  qed
qed

lemma chunk_facts [simp]:
  "chunk_file_type (file_chunk_of rel time d) = File"
  "chunk_file_type (directory_chunk rel) = Directory"
  "fc_relative_path (file_chunk_of rel time d) = rel" "fc_chunk (file_chunk_of rel time d) = d"
  "fc_time (file_chunk_of rel time d) = time"
  "fc_relative_path (directory_chunk rel) = rel" "fc_time (directory_chunk rel) = None"
  using file_type_try_from_into [of File] file_type_try_from_into [of Directory]
  by (simp_all add: chunk_file_type_def file_chunk_of_def directory_chunk_def)

lemma write_chunk_log_exact:
  assumes "rs_current_file s = Some h" and "ci_write io = None"
  shows "\<exists>sp w'. write_chunk ru tu data io s w = (Next, s\<lparr>rs_speed := sp\<rparr>, w') \<and>
    wo_fs w' = wo_fs w @ [WriteAll h data]"
  using assms by (auto simp: write_chunk_def Let_def split: prod.splits)

text \<open>More data for the current file.\<close>

lemma receive_data:
  "map fst ps = map (file_chunk_of rel None) ds \<Longrightarrow> no_io_error ps \<Longrightarrow> accepted dest rel \<Longrightarrow>
    rs_current_path s = Some (sanitize_path_component rel) \<Longrightarrow> rs_current_file s = Some h \<Longrightarrow>
    \<exists>sp w'. advances (process_chunk_real dest ru tu) ps s w (s\<lparr>rs_speed := sp\<rparr>) w' \<and>
      wo_fs w' = wo_fs w @ map (WriteAll h) ds"
proof (induction ds arbitrary: ps s w)
  case Nil
  then show ?case
    using advances_refl by (intro exI [of _ "rs_speed s"] exI [of _ w]) simp
next
  case (Cons d ds)
  obtain io qs where ps: "ps = (file_chunk_of rel None d, io) # qs"
    "map fst qs = map (file_chunk_of rel None) ds"
    using Cons.prems(1) by (cases ps) auto
  have io: "ci_write io = None" using Cons.prems(2) ps(1) by (simp add: no_io_error_def)
  let ?c = "file_chunk_of rel None d"
  obtain sp w1 where w1: "write_chunk ru tu d io s w = (Next, s\<lparr>rs_speed := sp\<rparr>, w1)"
    "wo_fs w1 = wo_fs w @ [WriteAll h d]"
    using write_chunk_log_exact [OF Cons.prems(5) io, of ru tu d w] by blast
  have "process_chunk_real dest ru tu ?c io s w = (Next, s\<lparr>rs_speed := sp\<rparr>, w1)"
    using Cons.prems(3,4) w1(1)
    by (auto simp: process_chunk_real_def accepted_def path_starts_with_join)
  note one = advances_one [where P = "process_chunk_real dest ru tu", OF this]
  obtain sp2 w' where more: "advances (process_chunk_real dest ru tu) qs (s\<lparr>rs_speed := sp\<rparr>) w1
      (s\<lparr>rs_speed := sp\<rparr>\<lparr>rs_speed := sp2\<rparr>) w'" "wo_fs w' = wo_fs w1 @ map (WriteAll h) ds"
    using Cons.IH [OF ps(2), of "s\<lparr>rs_speed := sp\<rparr>" w1] Cons.prems(2-5) ps(1)
    by (auto simp: no_io_error_def)
  have "advances (process_chunk_real dest ru tu) ps s w (s\<lparr>rs_speed := sp2\<rparr>) w'"
    using advances_trans [OF one more(1)] ps(1) by simp
  then show ?case using more(2) w1(2) by auto
qed

text \<open>
  One item: nothing happens for an empty file; otherwise the state then names the item, and the log
  leaves its content in its target.
\<close>

definition item_effect :: "path \<Rightarrow> sent_item \<Rightarrow> (path \<rightharpoonup> bytes) \<Rightarrow> (path \<rightharpoonup> bytes)" where
  "item_effect dest i files =
     (case i of
        SentDir rel \<Rightarrow> files
      | SentFile rel time content \<Rightarrow>
          if content = [] then files else files(item_target dest i \<mapsto> content))"

definition item_ok :: "path \<Rightarrow> sent_item \<Rightarrow> bool" where
  "item_ok dest i \<longleftrightarrow> accepted dest (item_name i) \<and>
     (case i of SentFile rel time content \<Rightarrow> time_ok time | SentDir rel \<Rightarrow> True)"

definition item_received :: "path \<Rightarrow> string \<Rightarrow> string \<Rightarrow> sent_item \<Rightarrow> answered list \<Rightarrow> receive_state
    \<Rightarrow> world \<Rightarrow> bool" where
  "item_received dest ru tu i ps s w \<longleftrightarrow>
     (\<exists>s' w' as. advances (process_chunk_real dest ru tu) ps s w s' w' \<and> wo_fs w' = wo_fs w @ as \<and>
        time_ok (rs_mtime s') \<and>
        rs_current_path s' \<in> {rs_current_path s, Some (sanitize_path_component (item_name i))} \<and>
        (\<forall>m. files_after as m = item_effect dest i m))"

lemma receive_directory:
  assumes "item_ok dest (SentDir rel)" and "time_ok (rs_mtime s)"
    and "rs_current_path s \<noteq> Some (sanitize_path_component rel)"
  shows "item_received dest ru tu (SentDir rel) [(directory_chunk rel, io)] s w"
proof -
  let ?c = "directory_chunk rel"
  obtain s1 as where fin: "finalize_current_file s w = (Next, s1, fs_log as w)"
    "\<forall>m. files_after as m = m"
    using finalize_time_ok [OF assms(2)] by blast
  have "process_chunk_real dest ru tu ?c io s w =
      (Next, start_entry ?c s1, fs_log [CreateDirAll (chunk_target dest ?c)] (fs_log as w))"
    using assms(1,3)
    by (subst process_chunk_real_new [OF _ _ _ fin(1)])
      (auto simp: item_ok_def accepted_def path_starts_with_join)
  note one = advances_one [where P = "process_chunk_real dest ru tu", OF this]
  show ?thesis
    unfolding item_received_def
    by (rule exI, rule exI, rule exI [of _ "as @ [CreateDirAll (chunk_target dest ?c)]"],
        intro conjI, rule one)
      (use fin(2) in \<open>auto simp: time_ok_def item_effect_def\<close>)
qed

lemma receive_file:
  assumes "item_ok dest (SentFile rel time (d @ concat ds))" and "time_ok (rs_mtime s)"
    and "rs_current_path s \<noteq> Some (sanitize_path_component rel)"
    and "map fst ps = parts_chunks rel time (d # ds)" and "no_io_error ps" and "d \<noteq> []"
  shows "item_received dest ru tu (SentFile rel time (d @ concat ds)) ps s w"
proof -
  let ?c = "file_chunk_of rel time d"
  let ?P = "process_chunk_real dest ru tu"
  obtain io qs where ps: "ps = (?c, io) # qs" "map fst qs = map (file_chunk_of rel None) ds"
    using assms(4) by (cases ps) (auto simp: parts_chunks_def)
  have io: "ci_create io = None" "ci_write io = None" "no_io_error qs"
    using assms(5) ps by (auto simp: no_io_error_def)
  obtain s1 as where fin: "finalize_current_file s w = (Next, s1, fs_log as w)"
    "\<forall>m. files_after as m = m"
    using finalize_time_ok [OF assms(2)] by blast
  let ?t = "chunk_target dest ?c"
  let ?s2 = "(start_entry ?c s1)\<lparr>rs_current_file := Some (PathHandle ?t)\<rparr>"
  let ?w2 = "fs_log (parent_dirs ?t @ [CreateFile ?t]) (fs_log as w)"
  have new: "?P ?c io s w = write_chunk ru tu d io ?s2 ?w2"
    using assms(1,3) io
    by (subst process_chunk_real_new [OF _ _ _ fin(1)])
      (auto simp: item_ok_def accepted_def path_starts_with_join)
  have cur: "rs_current_file ?s2 = Some (PathHandle ?t)" by simp
  obtain sp w3 where w3: "write_chunk ru tu d io ?s2 ?w2 = (Next, ?s2\<lparr>rs_speed := sp\<rparr>, w3)"
    "wo_fs w3 = wo_fs ?w2 @ [WriteAll (PathHandle ?t) d]"
    using write_chunk_log_exact [OF cur io(2), of ru tu d ?w2] by blast
  have one: "advances ?P [(?c, io)] s w (?s2\<lparr>rs_speed := sp\<rparr>) w3"
    by (rule advances_one, rule trans [OF new w3(1)])
  have acc: "accepted dest rel" using assms(1) by (simp add: item_ok_def)
  have path3: "rs_current_path (?s2\<lparr>rs_speed := sp\<rparr>) = Some (sanitize_path_component rel)"
    and cur3: "rs_current_file (?s2\<lparr>rs_speed := sp\<rparr>) = Some (PathHandle ?t)"
    by simp_all
  obtain sp' w' where more: "advances ?P qs (?s2\<lparr>rs_speed := sp\<rparr>) w3 (?s2\<lparr>rs_speed := sp\<rparr>\<lparr>rs_speed := sp'\<rparr>) w'"
    "wo_fs w' = wo_fs w3 @ map (WriteAll (PathHandle ?t)) ds"
    using receive_data [OF ps(2) io(3) acc path3 cur3, of ru tu w3] by blast
  let ?as = "as @ parent_dirs ?t @ [CreateFile ?t] @ map (WriteAll (PathHandle ?t)) (d # ds)"
  have adv: "advances ?P ps s w (?s2\<lparr>rs_speed := sp\<rparr>\<lparr>rs_speed := sp'\<rparr>) w'"
    using advances_trans [OF one more(1)] ps(1) by simp
  have log: "wo_fs w' = wo_fs w @ ?as" using more(2) w3(2) by simp
  have effect: "files_after ?as m = m(?t \<mapsto> d @ concat ds)" for m
    using fin(2) files_after_writes [of ?t "d # ds" m "[]"] by simp
  show ?thesis
    unfolding item_received_def
    by (rule exI, rule exI, rule exI, intro conjI, rule adv, rule log)
      (use assms(1,6) effect in \<open>auto simp: item_ok_def item_effect_def item_target_def\<close>)
qed

abbreviation clean_name :: "sent_item \<Rightarrow> string" where
  "clean_name i \<equiv> sanitize_path_component (item_name i)"

lemma item_received_empty:
  "time_ok (rs_mtime s) \<Longrightarrow> item_received dest ru tu (SentFile rel time []) [] s w"
  unfolding item_received_def
  by (rule exI [of _ s], rule exI [of _ w], rule exI [of _ "[]"])
    (simp add: advances_refl item_effect_def)

lemma transcript_first:
  assumes "map fst ps = parts_chunks rel time parts" and "[] \<notin> set parts"
    and "item_ok dest (SentFile rel time (concat parts))" and "time_ok (rs_mtime s)"
    and "rs_current_path s \<noteq> Some (sanitize_path_component rel)" and "no_io_error ps"
  shows "item_received dest ru tu (SentFile rel time (concat parts)) ps s w"
proof (cases parts)
  case Nil
  then show ?thesis using assms item_received_empty by (simp add: parts_chunks_def)
next
  case (Cons d ds)
  then have "d \<noteq> []" using assms(2) by auto
  then show ?thesis using receive_file [of dest rel time d ds s ps ru tu w] assms Cons by simp
qed

definition items_received :: "path \<Rightarrow> string \<Rightarrow> string \<Rightarrow> sent_item list \<Rightarrow> answered list \<Rightarrow>
    receive_state \<Rightarrow> world \<Rightarrow> bool" where
  "items_received dest ru tu items ps s w \<longleftrightarrow>
     (\<exists>s' w' as. advances (process_chunk_real dest ru tu) ps s w s' w' \<and> wo_fs w' = wo_fs w @ as \<and>
        time_ok (rs_mtime s') \<and> (\<forall>m. files_after as m = fold (item_effect dest) items m))"

lemma items_received_Nil: "time_ok (rs_mtime s) \<Longrightarrow> items_received dest ru tu [] [] s w"
  unfolding items_received_def
  by (rule exI [of _ s], rule exI [of _ w], rule exI [of _ "[]"]) (simp add: advances_refl)

lemma items_received_Cons:
  assumes "item_received dest ru tu i ps s w"
    and "\<And>s w. time_ok (rs_mtime s) \<Longrightarrow> rs_current_path s \<notin> Some ` clean_name ` set items \<Longrightarrow>
      items_received dest ru tu items qs s w"
    and "distinct (map clean_name (i # items))"
    and "rs_current_path s \<notin> Some ` clean_name ` set (i # items)"
  shows "items_received dest ru tu (i # items) (ps @ qs) s w"
proof -
  obtain s1 w1 as where 1: "advances (process_chunk_real dest ru tu) ps s w s1 w1"
    "wo_fs w1 = wo_fs w @ as" "time_ok (rs_mtime s1)"
    "rs_current_path s1 \<in> {rs_current_path s, Some (clean_name i)}"
    "\<forall>m. files_after as m = item_effect dest i m"
    using assms(1) unfolding item_received_def by blast
  have "rs_current_path s1 \<notin> Some ` clean_name ` set items"
    using 1(4) assms(3,4) by auto
  then obtain s2 w2 bs where 2: "advances (process_chunk_real dest ru tu) qs s1 w1 s2 w2"
    "wo_fs w2 = wo_fs w1 @ bs" "time_ok (rs_mtime s2)"
    "\<forall>m. files_after bs m = fold (item_effect dest) items m"
    using assms(2) [OF 1(3)] unfolding items_received_def by blast
  show ?thesis
    unfolding items_received_def
    by (rule exI [of _ s2], rule exI [of _ w2], rule exI [of _ "as @ bs"])
      (use 1 2 advances_trans [OF 1(1) 2(1)] in simp)
qed

lemma receive_transcript:
  "transcript items cs \<Longrightarrow> map fst ps = cs \<Longrightarrow> no_io_error ps \<Longrightarrow> \<forall>i \<in> set items. item_ok dest i \<Longrightarrow>
    distinct (map clean_name items) \<Longrightarrow> time_ok (rs_mtime s) \<Longrightarrow>
    rs_current_path s \<notin> Some ` clean_name ` set items \<Longrightarrow> items_received dest ru tu items ps s w"
proof (induction items cs arbitrary: ps s w rule: transcript.induct)
  case nothing
  then show ?case using items_received_Nil by simp
next
  case (one_dir items cs rel ps s w)
  obtain io qs where ps: "ps = [(directory_chunk rel, io)] @ qs" "map fst qs = cs"
    using one_dir.prems(1) by (cases ps) auto
  have i: "item_received dest ru tu (SentDir rel) [(directory_chunk rel, io)] s w"
    by (rule receive_directory) (use one_dir.prems in auto)
  show ?case
    unfolding ps(1)
    by (rule items_received_Cons [OF i])
      (use one_dir.prems one_dir.IH [OF ps(2)] ps(1) in \<open>auto simp: no_io_error_def\<close>)
next
  case (one_file items cs parts content rel time ps s w)
  obtain ps1 qs where ps: "ps = ps1 @ qs" "map fst ps1 = parts_chunks rel time parts" "map fst qs = cs"
    using one_file.prems(1) by (metis map_eq_append_conv)
  have io: "no_io_error ps1" "no_io_error qs"
    using one_file.prems(2) ps(1) by (auto simp: no_io_error_def)
  have i: "item_received dest ru tu (SentFile rel time (concat parts)) ps1 s w"
    by (rule transcript_first [OF ps(2) one_file.hyps(2) _ one_file.prems(5) _ io(1)])
      (use one_file.prems one_file.hyps(3) in auto)
  show ?case
    unfolding ps(1) one_file.hyps(3) [symmetric]
    by (rule items_received_Cons [OF i])
      (use one_file.prems one_file.IH [OF ps(3) io(2)] in auto)
qed

section \<open>Properties\<close>

lemma item_effect_simps [simp]:
  "item_effect dest (SentDir rel) m = m"
  "item_effect dest (SentFile rel time content) m =
    (if content = [] then m else m(item_target dest (SentFile rel time content) \<mapsto> content))"
  by (simp_all add: item_effect_def)

lemma item_effect_other: "p \<noteq> item_target dest i \<Longrightarrow> item_effect dest i m p = m p"
  by (cases i) auto

lemma fold_item_effect_other:
  "p \<notin> item_target dest ` set items \<Longrightarrow> fold (item_effect dest) items m p = m p"
  by (induction items arbitrary: m) (auto simp: item_effect_other)

lemma fold_item_effect:
  "distinct (map (item_target dest) items) \<Longrightarrow> SentFile rel time content \<in> set items \<Longrightarrow>
    fold (item_effect dest) items m (item_target dest (SentFile rel time content)) =
      (if content = [] then m (item_target dest (SentFile rel time content)) else Some content)"
proof (induction items arbitrary: m)
  case (Cons i items)
  show ?case
  proof (cases "i = SentFile rel time content")
    case True
    then show ?thesis using Cons.prems(1) by (simp add: fold_item_effect_other)
  next
    case False
    then have "item_target dest i \<noteq> item_target dest (SentFile rel time content)"
      using Cons.prems by (auto simp: image_iff)
    then show ?thesis
      using Cons False by (auto simp: item_effect_other)
  qed
qed simp

lemma distinct_targets_names:
  "distinct (map (item_target dest) items) \<Longrightarrow> distinct (map clean_name items)"
proof (induction items)
  case (Cons i items)
  have "clean_name i \<notin> clean_name ` set items"
  proof
    assume "clean_name i \<in> clean_name ` set items"
    then obtain j where j: "j \<in> set items" "clean_name i = clean_name j" by blast
    then have "item_target dest i = item_target dest j" by (simp add: item_target_def)
    then show False using Cons.prems j(1) by (metis distinct.simps(2) imageI list.set_map list.simps(9))
  qed
  then show ?case using Cons by simp
qed simp

text \<open>
  C2. End to end on the real filesystem. When the sender's stream completes and was not cancelled
  inside a file, and the receiver processes the chunks it sent without I/O errors, into a
  destination where the (accepted) names of distinct entries are distinct paths, then the receiver
  completes, and every file of the sources that is not empty has its exact content at its target;
  for a file that is empty no file is created at all.
\<close>

theorem transfer_delivers_files:
  assumes "send_stream_real ru tu srcs sp sw = Some (Ok True, sp', sw')"
    and "\<forall>x \<in> set srcs. source_never_cancelled (snd x)"
    and "items = concat (map (\<lambda>(p, e). source_items p e) srcs)"
    and "\<forall>i \<in> set items. item_ok dest i" and "distinct (map (item_target dest) items)"
    and "sw_sent sw = []" and "map fst ps = sw_sent sw'" and "no_io_error ps"
    and "SentFile rel time content \<in> set items"
  shows "\<exists>w' as. receive_stream (process_chunk_real dest ru2 tu2) ru2 tu2 (rx_inputs ps @ [RxEnd])
      q others w = Some (RxOk True, w') \<and> wo_fs w' = wo_fs w @ as \<and>
    files_after as Map.empty (item_target dest (SentFile rel time content)) =
      (if content = [] then None else Some content)"
proof -
  have "transcript items (map fst ps)"
    using stream_transcript [OF assms(1,2)] assms(3,6,7) by auto
  then have "items_received dest ru2 tu2 items ps receive_state_new w"
    by (rule receive_transcript [OF _ refl assms(8,4)])
      (use assms(5) distinct_targets_names in \<open>auto simp: time_ok_def receive_state_new_def\<close>)
  then obtain s1 w1 as where 1: "advances (process_chunk_real dest ru2 tu2) ps receive_state_new w s1 w1"
    "wo_fs w1 = wo_fs w @ as" "time_ok (rs_mtime s1)"
    "\<forall>m. files_after as m = fold (item_effect dest) items m"
    unfolding items_received_def by blast
  obtain s2 bs where 2: "finalize_current_file s1 w1 = (Next, s2, fs_log bs w1)"
    "\<forall>m. files_after bs m = m"
    using finalize_time_ok [OF 1(3)] by blast
  have "receive_stream_inner (process_chunk_real dest ru2 tu2) (rx_inputs ps @ [RxEnd])
      receive_state_new w = Some (RxOk True, fs_log bs w1)"
    using 1(1) 2(1) by (simp add: advances_def finish_with_def)
  then show ?thesis
    using 1(2,4) 2(2) fold_item_effect [OF assms(5,9), of Map.empty]
    by (auto simp: receive_stream_def intro!: exI [of _ "as @ bs"])
qed

definition sample_items :: "sent_item list" where
  "sample_items = [SentFile ''f'' (Some (file_time_of_modified (1000, 0))) [1, 2, 3]]"

lemma sample_stream_items:
  "sample_items = concat (map (\<lambda>(p, e). source_items p e) sample_sources)"
  by (simp add: sample_items_def sample_sources_def source_items_def path_parent_def sample_meta_def
      file_items_def sample_file_env_def relative_to_def path_strip_prefix_def path_text_def)

lemma sample_stream_sent:
  "\<exists>sp' sw'. send_stream_real ''peer'' ''t1'' sample_sources (ma_new 30) sample_send_world
    = Some (Ok True, sp', sw')"
  by (simp add: sample_sources_def send_source_real_def path_parent_def sample_meta_def
      send_file_real_def sample_file_env_def send_file_inner_def sample_send_io_def
      read_buffer_def chunk_size_def send_then_def Let_def split: prod.split)

theorem transfer_delivers_witness:
  "\<exists>ps w' as. receive_stream (process_chunk_real [RootDir, Normal ''dl''] ''peer'' ''t1'') ''peer'' ''t1''
      (rx_inputs ps @ [RxEnd]) 0 id sample_world = Some (RxOk True, w') \<and>
    wo_fs w' = wo_fs sample_world @ as \<and>
    files_after as Map.empty [RootDir, Normal ''dl'', Normal ''f''] = Some [1, 2, 3]"
proof -
  obtain sp' sw' where run: "send_stream_real ''peer'' ''t1'' sample_sources (ma_new 30)
      sample_send_world = Some (Ok True, sp', sw')"
    using sample_stream_sent by blast
  let ?ps = "map (\<lambda>c. (c, sample_io)) (sw_sent sw')"
  let ?time = "Some (file_time_of_modified (1000, 0))"
  have target: "item_target [RootDir, Normal ''dl''] (SentFile ''f'' ?time [1, 2, 3]) =
      [RootDir, Normal ''dl'', Normal ''f'']"
    by (simp add: item_target_def sanitize_path_component_def replace_chars_def path_of_def
        path_join_def has_root_def body_components_def component_of_def)
  have ok: "\<forall>i \<in> set sample_items. item_ok [RootDir, Normal ''dl''] i"
    using file_time_roundtrip [of 1000 0]
    by (simp add: sample_items_def item_ok_def accepted_def time_ok_def
        sanitize_path_component_def replace_chars_def)
  have uncancelled: "\<forall>x \<in> set sample_sources. source_never_cancelled (snd x)"
    by (simp add: sample_sources_def source_never_cancelled_def never_cancelled_def
        sample_file_env_def sample_send_io_def)
  have "sw_sent sample_send_world = []" by (simp add: sample_send_world_def)
  moreover have "no_io_error ?ps" by (auto simp: no_io_error_def sample_io_def)
  moreover have "map fst ?ps = sw_sent sw'" by (simp add: comp_def)
  moreover have "distinct (map (item_target [RootDir, Normal ''dl'']) sample_items)"
    by (simp add: sample_items_def)
  ultimately show ?thesis
    using transfer_delivers_files [OF run uncancelled sample_stream_items ok, of ?ps "''f''" ?time
        "[1, 2, 3]" "''peer''" "''t1''" 0 id sample_world] target
    by (auto simp: sample_items_def simp del: fun_upd_apply)
qed

end
