(* ===== verification/Warp_Worker.thy ===== *)
theory Warp_Worker
  imports Warp_Manager_Inv Warp_Source
begin

text \<open>
  \<open>src/server/remote_worker.rs\<close>: a worker's connection, its state loop and its operations on
  transfers and messages. RPC answers, timers and the other tasks are arguments: at each access to
  the shared state the environment says whether the weak handle of the manager could be upgraded
  (\<open>se_alive\<close>) and what other tasks did since the last access (\<open>se_others\<close>); accesses are numbered in
  the order of the source. \<open>se_queued\<close> is the length of the event queue. \<open>mg_arena ! i\<close> is the worker itself.
\<close>

section \<open>Errors\<close>

datatype worker_error =
    NoManager
  | RemoteNotFound
  | TransferNotFound
  | NoClient
  | RemoteFailed status
  | OperationFailed string
  | OperationTimedOut
  | IllegalOperation string
  | UpdateFailed update_error

datatype receive_cert_error =
    RCE_RemoteWorkerError worker_error
  | NoRemote
  | InvalidUri
  | RequestFailed status
  | DecodingCertificateFailed
  | MalformedCertificate
  | WrongGroupCode
  | Offline

datatype connect_remote_error =
    CertificateError receive_cert_error
  | TlsError worker_error
  | PingError worker_error
  | DuplexError worker_error
  | RemoteWorkerNotFound
  | RemoteWorkerError worker_error

datatype cert_unbox_error = BoxTooShort | DecryptionFailed

text \<open>An RPC under \<open>tokio::time::timeout\<close>; the doubled question mark reads it.\<close>

datatype 'a rpc = RpcOk 'a | RpcStatus status | RpcTimeout

definition rpc_result :: "'a rpc \<Rightarrow> ('a, worker_error) result" where
  "rpc_result x =
     (case x of RpcOk a \<Rightarrow> Ok a | RpcStatus s \<Rightarrow> Err (RemoteFailed s) | RpcTimeout \<Rightarrow> Err OperationTimedOut)"

text \<open>The question mark: stop with the (converted) error, or go on in the state reached.\<close>

definition try_then ::
  "('a, 'e) result \<times> manager \<Rightarrow> ('e \<Rightarrow> 'f) \<Rightarrow> ('a \<Rightarrow> manager \<Rightarrow> ('b, 'f) result \<times> manager)
    \<Rightarrow> ('b, 'f) result \<times> manager" where
  "try_then x conv k = (case x of (Err e, m) \<Rightarrow> (Err (conv e), m) | (Ok a, m) \<Rightarrow> k a m)"

lemma try_then_simps [simp]:
  "try_then (Err e, m) conv k = (Err (conv e), m)" "try_then (Ok a, m) conv k = k a m"
  by (simp_all add: try_then_def)

section \<open>Worker state\<close>

record shared_env =
  se_alive :: "nat \<Rightarrow> bool"
  se_others :: "nat \<Rightarrow> manager \<Rightarrow> manager"
  se_queued :: nat

text \<open>The value of the watch channel: what was sent last.\<close>

definition watched_state :: "worker \<Rightarrow> remote_state" where
  "watched_state w = (if w_sent w = [] then Disconnected else last (w_sent w))"

text \<open>\<open>self.manager()?\<close> followed by an access to the shared state.\<close>

definition with_manager ::
  "shared_env \<Rightarrow> nat \<Rightarrow> (manager \<Rightarrow> ('a, worker_error) result \<times> manager) \<Rightarrow> manager
    \<Rightarrow> ('a, worker_error) result \<times> manager" where
  "with_manager env k f m = (if se_alive env k then f (se_others env k m) else (Err NoManager, m))"

definition send_state :: "nat \<Rightarrow> remote_state \<Rightarrow> manager \<Rightarrow> manager" where
  "send_state i st m = update_worker i (\<lambda>w. w\<lparr>w_sent := w_sent w @ [st]\<rparr>) m"

definition set_state ::
  "shared_env \<Rightarrow> nat \<Rightarrow> string \<Rightarrow> nat \<Rightarrow> remote_state \<Rightarrow> manager \<Rightarrow> (unit, worker_error) result \<times> manager" where
  "set_state env k uuid i st m =
     with_manager env k
       (\<lambda>m. (Ok (), snd (update_remote uuid (\<lambda>r. r\<lparr>r_state := st\<rparr>) m)))
       (send_state i st m)"

definition clear_channel :: "nat \<Rightarrow> manager \<Rightarrow> manager" where
  "clear_channel i m = update_worker i (\<lambda>w. w\<lparr>w_channel := None, w_client := None\<rparr>) m"

definition set_channel :: "nat \<Rightarrow> nat \<Rightarrow> manager \<Rightarrow> manager" where
  "set_channel i ch m = update_worker i (\<lambda>w. w\<lparr>w_channel := Some ch, w_client := Some ch\<rparr>) m"

text \<open>\<open>self.client.read().await\<close> and \<open>ok_or(NoClient)\<close>.\<close>

definition worker_client :: "nat \<Rightarrow> manager \<Rightarrow> nat option" where
  "worker_client i m = (if i < length (mg_arena m) then w_client (mg_arena m ! i) else None)"

definition with_client ::
  "shared_env \<Rightarrow> nat \<Rightarrow> nat \<Rightarrow> (manager \<Rightarrow> ('a, worker_error) result \<times> manager) \<Rightarrow> manager
    \<Rightarrow> ('a, worker_error) result \<times> manager" where
  "with_client env k i f m =
     (let m = se_others env k m in if worker_client i m = None then (Err NoClient, m) else f m)"

definition disconnect ::
  "shared_env \<Rightarrow> nat \<Rightarrow> string \<Rightarrow> nat \<Rightarrow> manager \<Rightarrow> (unit, worker_error) result \<times> manager" where
  "disconnect env k uuid i m = set_state env k uuid i Disconnected (clear_channel i m)"

section \<open>Connecting\<close>

text \<open>
  The answers during \<open>connect\<close>. \<open>ce_unbox\<close> is the authenticator's \<open>unbox_cert\<close>, \<open>ce_decode\<close> base64
  decoding; an address the URI parser refuses is \<open>ce_uri_ok = False\<close>; the channel is opaque.
\<close>

record connect_env = shared_env +
  ce_uri_ok :: bool
  ce_reg_connected :: bool
  ce_cert :: "(string, status) result"
  ce_decode :: "string \<Rightarrow> bytes option"
  ce_unbox :: "bytes \<Rightarrow> (bytes, cert_unbox_error) result"
  ce_channel :: "(nat, string) result"
  ce_ping :: "unit rpc"
  ce_duplex :: "bool rpc"
  ce_info :: "(remote_machine_info, status) result"
  ce_avatar :: "(bytes list \<times> status option, status) result"

definition shared_of :: "connect_env \<Rightarrow> shared_env" where
  "shared_of env = \<lparr>se_alive = se_alive env, se_others = se_others env, se_queued = se_queued env\<rparr>"

definition strip_newlines :: "string \<Rightarrow> string" where
  "strip_newlines s = filter (\<lambda>c. c \<noteq> CHR 0x0A \<and> c \<noteq> CHR 0x0D) s"

definition unbox_error_of :: "cert_unbox_error \<Rightarrow> receive_cert_error" where
  "unbox_error_of e = (case e of BoxTooShort \<Rightarrow> MalformedCertificate | DecryptionFailed \<Rightarrow> WrongGroupCode)"

definition read_remote ::
  "shared_env \<Rightarrow> nat \<Rightarrow> string \<Rightarrow> manager \<Rightarrow> (remote option, worker_error) result \<times> manager" where
  "read_remote env k uuid m = with_manager env k (\<lambda>m. (Ok (get_remote uuid m), m)) m"

definition unboxed_certificate :: "connect_env \<Rightarrow> (bytes, receive_cert_error) result" where
  "unboxed_certificate env =
     (if \<not> ce_uri_ok env then Err InvalidUri
      else if \<not> ce_reg_connected env then Err Offline
      else case ce_cert env of
        Err s \<Rightarrow> Err (RequestFailed s)
      | Ok locked \<Rightarrow>
         (case ce_decode env (strip_newlines locked) of
            None \<Rightarrow> Err DecodingCertificateFailed
          | Some boxed \<Rightarrow>
             (case ce_unbox env boxed of Err e \<Rightarrow> Err (unbox_error_of e) | Ok pem \<Rightarrow> Ok pem)))"

definition receive_certificate ::
  "connect_env \<Rightarrow> string \<Rightarrow> manager \<Rightarrow> (bytes, receive_cert_error) result \<times> manager" where
  "receive_certificate env uuid m =
     try_then (read_remote (shared_of env) 1 uuid m) RCE_RemoteWorkerError
       (\<lambda>remote m.
          case remote of
            None \<Rightarrow> (Err NoRemote, m)
          | Some r \<Rightarrow>
             (case unboxed_certificate env of
                Err e \<Rightarrow> (Err e, m)
              | Ok pem \<Rightarrow>
                  try_then
                    (with_manager (shared_of env) 2
                       (\<lambda>m. let (res, m') = update_remote uuid (\<lambda>r. r\<lparr>r_cert_pem := Some pem\<rparr>) m
                            in (Ok res, m')) m)
                    RCE_RemoteWorkerError
                    (\<lambda>res m. case res of Ok _ \<Rightarrow> (Ok pem, m) | Err _ \<Rightarrow> (Err NoRemote, m))))"

definition build_channel ::
  "connect_env \<Rightarrow> string \<Rightarrow> manager \<Rightarrow> (nat, worker_error) result \<times> manager" where
  "build_channel env uuid m =
     try_then (read_remote (shared_of env) 4 uuid m) id
       (\<lambda>remote m.
          case remote of
            None \<Rightarrow> (Err RemoteNotFound, m)
          | Some r \<Rightarrow>
             (case ce_channel env of Err s \<Rightarrow> (Err (OperationFailed s), m) | Ok ch \<Rightarrow> (Ok ch, m)))"

definition ping ::
  "shared_env \<Rightarrow> nat \<Rightarrow> unit rpc \<Rightarrow> nat \<Rightarrow> manager \<Rightarrow> (unit, worker_error) result \<times> manager" where
  "ping env k answer i m = with_client env k i (\<lambda>m. (rpc_result answer, m)) m"

definition wait_for_duplex ::
  "shared_env \<Rightarrow> nat \<Rightarrow> bool rpc \<Rightarrow> nat \<Rightarrow> manager \<Rightarrow> (unit, worker_error) result \<times> manager" where
  "wait_for_duplex env k answer i m =
     with_client env k i
       (\<lambda>m. (case rpc_result answer of
               Err e \<Rightarrow> Err e
             | Ok response \<Rightarrow> if \<not> response then Err (OperationFailed ''Duplex not established'') else Ok (),
             m)) m"

definition update_machine_info :: "remote_machine_info \<Rightarrow> remote \<Rightarrow> remote" where
  "update_machine_info info r =
     r\<lparr>r_display_name := mi_display_name info, r_username := mi_user_name info,
       r_features := from_bits_truncate (mi_feature_flags info)\<rparr>"

definition update_or_fail ::
  "(unit, update_error) result \<times> manager \<Rightarrow> (unit, worker_error) result \<times> manager" where
  "update_or_fail x =
     (case x of (Ok u, m) \<Rightarrow> (Ok u, m) | (Err e, m) \<Rightarrow> (Err (UpdateFailed e), m))"

definition fetch_machine_info ::
  "connect_env \<Rightarrow> string \<Rightarrow> nat \<Rightarrow> manager \<Rightarrow> (unit, worker_error) result \<times> manager" where
  "fetch_machine_info env uuid i m =
     with_client (shared_of env) 10 i
       (\<lambda>m. case ce_info env of
              Err s \<Rightarrow> (Err (RemoteFailed s), m)
            | Ok info \<Rightarrow>
                with_manager (shared_of env) 11
                  (\<lambda>m. update_or_fail (update_remote uuid (update_machine_info info) m)) m) m"

definition update_avatar :: "bytes option \<Rightarrow> remote \<Rightarrow> remote" where
  "update_avatar picture r =
     (let r1 = (case (r_picture r, picture) of
                  (Some old, Some pic) \<Rightarrow> r\<lparr>r_picture := Some pic\<rparr>
                | (None, Some pic) \<Rightarrow> r\<lparr>r_picture := Some pic\<rparr>
                | _ \<Rightarrow> r\<lparr>r_picture := None\<rparr>)
      in r1\<lparr>r_picture_version := r_picture_version r1 + 1\<rparr>)"

definition fetch_avatar ::
  "connect_env \<Rightarrow> string \<Rightarrow> nat \<Rightarrow> manager \<Rightarrow> (unit, worker_error) result \<times> manager" where
  "fetch_avatar env uuid i m =
     with_client (shared_of env) 12 i
       (\<lambda>m. case ce_avatar env of
              Err s \<Rightarrow> (Err (RemoteFailed s), m)
            | Ok (chunks, Some s) \<Rightarrow> (Err (RemoteFailed s), m)
            | Ok (chunks, None) \<Rightarrow>
                (let picture = (if concat chunks \<noteq> [] then Some (concat chunks) else None)
                 in with_manager (shared_of env) 13
                      (\<lambda>m. update_or_fail (update_remote_async uuid (update_avatar picture) m)) m)) m"

definition certificate_error_state :: "receive_cert_error \<Rightarrow> remote_state" where
  "certificate_error_state e =
     (case e of
        WrongGroupCode \<Rightarrow> RS_Error GroupCodeMismatch
      | Offline \<Rightarrow> Disconnected
      | _ \<Rightarrow> RS_Error NoCertificate)"

text \<open>Set a state and return an error, unless setting the state fails first.\<close>

definition fail_in_state ::
  "shared_env \<Rightarrow> nat \<Rightarrow> string \<Rightarrow> nat \<Rightarrow> remote_state \<Rightarrow> connect_remote_error \<Rightarrow> manager
    \<Rightarrow> (unit, connect_remote_error) result \<times> manager" where
  "fail_in_state env k uuid i st e m =
     try_then (set_state env k uuid i st m) RemoteWorkerError (\<lambda>_ m. (Err e, m))"

definition finish_connect ::
  "connect_env \<Rightarrow> string \<Rightarrow> nat \<Rightarrow> manager \<Rightarrow> (unit, connect_remote_error) result \<times> manager" where
  "finish_connect env uuid i m =
     (let sh = shared_of env
      in try_then (set_state sh 7 uuid i AwaitingDuplex m) RemoteWorkerError
           (\<lambda>_ m.
              case wait_for_duplex sh 8 (ce_duplex env) i m of
                (Err e, m) \<Rightarrow>
                  fail_in_state sh 9 uuid i (RS_Error RC_DuplexError) (DuplexError e) (clear_channel i m)
              | (Ok _, m) \<Rightarrow>
                  try_then (set_state sh 9 uuid i Connected m) RemoteWorkerError
                    (\<lambda>_ m. (Ok (), snd (fetch_avatar env uuid i (snd (fetch_machine_info env uuid i m)))))))"

definition connect ::
  "connect_env \<Rightarrow> string \<Rightarrow> nat \<Rightarrow> manager \<Rightarrow> (unit, connect_remote_error) result \<times> manager" where
  "connect env uuid i m =
     (let sh = shared_of env
      in try_then (set_state sh 0 uuid i Connecting m) RemoteWorkerError
           (\<lambda>_ m.
              case receive_certificate env uuid m of
                (Err e, m) \<Rightarrow>
                  fail_in_state sh 3 uuid i (certificate_error_state e) (CertificateError e) m
              | (Ok pem, m) \<Rightarrow>
                 (case build_channel env uuid m of
                    (Err e, m) \<Rightarrow>
                      fail_in_state sh 5 uuid i (RS_Error SslError) (TlsError e) m
                  | (Ok ch, m) \<Rightarrow>
                     (case ping sh 6 (ce_ping env) i (set_channel i ch m) of
                        (Err e, m) \<Rightarrow>
                          fail_in_state sh 7 uuid i (RS_Error SslError) (PingError e) (clear_channel i m)
                      | (Ok _, m) \<Rightarrow> finish_connect env uuid i m))))"

section \<open>The state loop\<close>

text \<open>Which branch of the \<open>select!\<close> fires in an iteration.\<close>

datatype loop_input =
    LoopCancelled shared_env
  | LoopSlept connect_env
  | LoopChanged

definition stop_loop :: "shared_env \<Rightarrow> string \<Rightarrow> nat \<Rightarrow> manager \<Rightarrow> bool \<times> manager" where
  "stop_loop env uuid i m = (False, snd (disconnect env 0 uuid i m))"

definition wait_then_reconnect :: "string \<Rightarrow> nat \<Rightarrow> loop_input \<Rightarrow> manager \<Rightarrow> bool \<times> manager" where
  "wait_then_reconnect uuid i inp m =
     (case inp of
        LoopCancelled env \<Rightarrow> stop_loop env uuid i m
      | LoopSlept env \<Rightarrow> (True, snd (connect env uuid i m))
      | LoopChanged \<Rightarrow> (True, m))"

definition ping_or_disconnect :: "connect_env \<Rightarrow> string \<Rightarrow> nat \<Rightarrow> manager \<Rightarrow> manager" where
  "ping_or_disconnect env uuid i m =
     (case ping (shared_of env) 0 (ce_ping env) i m of
        (Err e, m) \<Rightarrow> clear_channel i (snd (set_state (shared_of env) 1 uuid i Disconnected m))
      | (Ok _, m) \<Rightarrow> m)"

definition loop_step :: "string \<Rightarrow> nat \<Rightarrow> loop_input \<Rightarrow> manager \<Rightarrow> bool \<times> manager" where
  "loop_step uuid i inp m =
     (case watched_state (mg_arena m ! i) of
        Connected \<Rightarrow>
         (case inp of
            LoopCancelled env \<Rightarrow> stop_loop env uuid i m
          | LoopSlept env \<Rightarrow> (True, ping_or_disconnect env uuid i m)
          | LoopChanged \<Rightarrow> (True, m))
      | Disconnected \<Rightarrow> wait_then_reconnect uuid i inp m
      | RS_Error e \<Rightarrow>
          if e = GroupCodeMismatch then (False, m) else wait_then_reconnect uuid i inp m
      | _ \<Rightarrow>
         (case inp of
            LoopCancelled env \<Rightarrow> stop_loop env uuid i m
          | LoopSlept env \<Rightarrow> (True, m)
          | LoopChanged \<Rightarrow> (True, m)))"

text \<open>The task runs until a step says stop; then the loop is gone for good (\<open>w_loop\<close>).\<close>

fun worker_loop :: "string \<Rightarrow> nat \<Rightarrow> loop_input list \<Rightarrow> manager \<Rightarrow> bool \<times> manager" where
  "worker_loop uuid i [] m = (True, m)"
| "worker_loop uuid i (inp # inps) m =
     (case loop_step uuid i inp m of
        (False, m') \<Rightarrow> (False, update_worker i (\<lambda>w. w\<lparr>w_loop := False\<rparr>) m')
      | (True, m') \<Rightarrow> worker_loop uuid i inps m')"

section \<open>Transfers and messages\<close>

record request_env = shared_env +
  re_uuid :: uuid
  re_now :: u64
  re_token :: token
  re_process :: "path list \<Rightarrow> transfer \<Rightarrow> (unit, source_path_error) result \<times> transfer"
  re_answer :: "(unit, status) result"

definition request_shared :: "request_env \<Rightarrow> shared_env" where
  "request_shared env = \<lparr>se_alive = se_alive env, se_others = se_others env, se_queued = se_queued env\<rparr>"

definition copy_processed :: "transfer \<Rightarrow> transfer \<Rightarrow> transfer" where
  "copy_processed p t =
     t\<lparr>t_total_bytes := t_total_bytes p, t_file_count := t_file_count p,
       t_entry_names := t_entry_names p, t_single_name := t_single_name p,
       t_single_mime_type := t_single_mime_type p, t_state := WaitingPermission\<rparr>"

text \<open>
  The request that is sent is returned beside the result: it is what the remote's handler gets.
  \<open>re_process\<close> is either variant of \<open>process_paths\<close> on the filesystem at hand.
\<close>

definition send_transfer_request ::
  "request_env \<Rightarrow> string \<Rightarrow> nat \<Rightarrow> path list \<Rightarrow> manager
    \<Rightarrow> (transfer_op_request option, worker_error) result \<times> manager" where
  "send_transfer_request env uuid i source_paths m =
     with_client (request_shared env) 0 i
       (\<lambda>m.
         let t = transfer_new_outgoing (re_uuid env) (re_now env) uuid source_paths (re_token env)
         in try_then
              (with_manager (request_shared env) 1 (\<lambda>m. update_or_fail (add_transfer uuid t m)) m) id
              (\<lambda>_ m.
                case re_process env source_paths t of
                  (Ok _, p) \<Rightarrow>
                   (case re_answer env of
                      Err s \<Rightarrow> (Err (RemoteFailed s), m)
                    | Ok _ \<Rightarrow>
                        try_then
                          (with_manager (request_shared env) 2
                            (\<lambda>m. update_or_fail (update_transfer (se_queued env) uuid (t_uuid t) (copy_processed p) m)) m)
                          id (\<lambda>_ m. (Ok (Some (transfer_as_proto p (mg_fullname m))), m)))
                | (Err e, p) \<Rightarrow>
                    try_then
                      (with_manager (request_shared env) 2
                        (\<lambda>m. update_or_fail (update_transfer (se_queued env) uuid (t_uuid t)
                                (\<lambda>t. t\<lparr>t_state := Failed FailedToProcessFiles\<rparr>) m)) m)
                      id (\<lambda>_ m. (Err (OperationFailed ''process_paths''), m)))) m"

definition send_message ::
  "shared_env \<Rightarrow> string \<Rightarrow> u64 \<Rightarrow> (unit, status) result \<Rightarrow> string \<Rightarrow> nat \<Rightarrow> string \<Rightarrow> manager
    \<Rightarrow> (unit, worker_error) result \<times> manager" where
  "send_message env fresh now answer uuid i text m =
     with_client env 0 i
       (\<lambda>m. let msg = message_new fresh now uuid Sent text
            in case answer of
                 Err s \<Rightarrow> (Err (RemoteFailed s), m)
               | Ok _ \<Rightarrow> with_manager env 1 (\<lambda>m. update_or_fail (add_message uuid msg m)) m) m"

definition read_transfer ::
  "shared_env \<Rightarrow> nat \<Rightarrow> string \<Rightarrow> string \<Rightarrow> manager \<Rightarrow> (transfer, worker_error) result \<times> manager" where
  "read_transfer env k uuid tu m =
     with_manager env k
       (\<lambda>m. case get_transfer uuid tu m of None \<Rightarrow> (Err TransferNotFound, m) | Some t \<Rightarrow> (Ok t, m)) m"

definition accept_update :: "path \<Rightarrow> transfer \<Rightarrow> transfer" where
  "accept_update destination t = t\<lparr>t_state := InProgress, t_kind := Incoming destination\<rparr>"

text \<open>On success the reception of the transfer is spawned.\<close>

definition accept_transfer ::
  "shared_env \<Rightarrow> (unit, status) result \<Rightarrow> string \<Rightarrow> nat \<Rightarrow> string \<Rightarrow> path \<Rightarrow> manager
    \<Rightarrow> (unit, worker_error) result \<times> manager" where
  "accept_transfer env answer uuid i tu destination m =
     with_client env 0 i
       (\<lambda>m. try_then (read_transfer env 1 uuid tu m) id
         (\<lambda>t m.
           case t_kind t of
             Outgoing ps tok \<Rightarrow> (Err (IllegalOperation ''Cannot accept an outgoing transfer''), m)
           | Incoming d \<Rightarrow>
              (case answer of
                 Err s \<Rightarrow> (Err (RemoteFailed s), m)
               | Ok _ \<Rightarrow>
                   try_then
                     (with_manager env 2
                       (\<lambda>m. update_or_fail (update_transfer (se_queued env) uuid tu (accept_update destination) m)) m) id
                     (\<lambda>_ m. with_manager env 3 (\<lambda>m. (Ok (), m)) m)))) m"

definition cancel_outgoing :: "transfer \<Rightarrow> manager \<Rightarrow> manager" where
  "cancel_outgoing t m =
     (case t_kind t of Outgoing ps tok \<Rightarrow> cancel_token tok m | Incoming d \<Rightarrow> m)"

definition stop_transfer ::
  "shared_env \<Rightarrow> (unit, status) result \<Rightarrow> string \<Rightarrow> nat \<Rightarrow> string \<Rightarrow> manager
    \<Rightarrow> (unit, worker_error) result \<times> manager" where
  "stop_transfer env answer uuid i tu m =
     with_client env 0 i
       (\<lambda>m. try_then (read_transfer env 1 uuid tu m) id
         (\<lambda>t m.
           let m = cancel_outgoing t m
           in case answer of
                Err s \<Rightarrow> (Err (RemoteFailed s), m)
              | Ok _ \<Rightarrow>
                  with_manager env 2
                    (\<lambda>m. update_or_fail
                       (update_transfer (se_queued env) uuid tu (\<lambda>t. t\<lparr>t_state := Stopped\<rparr>) m)) m)) m"

definition cancel_state :: "transfer \<Rightarrow> transfer_state" where
  "cancel_state t = (case t_kind t of Incoming d \<Rightarrow> Denied | Outgoing ps tok \<Rightarrow> Canceled)"

definition cancel_transfer ::
  "shared_env \<Rightarrow> (unit, status) result \<Rightarrow> string \<Rightarrow> nat \<Rightarrow> string \<Rightarrow> manager
    \<Rightarrow> (unit, worker_error) result \<times> manager" where
  "cancel_transfer env answer uuid i tu m =
     with_client env 0 i
       (\<lambda>m. try_then (read_transfer env 1 uuid tu m) id
         (\<lambda>t m.
           let m = cancel_outgoing t m
           in case answer of
                Err s \<Rightarrow> (Err (RemoteFailed s), m)
              | Ok _ \<Rightarrow>
                  with_manager env 2
                    (\<lambda>m. update_or_fail
                       (update_transfer (se_queued env) uuid tu (\<lambda>x. x\<lparr>t_state := cancel_state t\<rparr>) m)) m)) m"

end
