(* ===== verification/Warp_Connection.thy ===== *)
theory Warp_Connection
  imports Warp_Worker
begin

text \<open>
  What the worker guarantees: the states \<open>connect\<close> reports for every outcome, in the watch channel
  and in the manager alike; the end of the state loop; and the life of a transfer request.
\<close>

section \<open>Observations\<close>

definition sent_states :: "nat \<Rightarrow> manager \<Rightarrow> remote_state list option" where
  "sent_states i m = (if i < length (mg_arena m) then Some (w_sent (mg_arena m ! i)) else None)"

definition loop_flag :: "nat \<Rightarrow> manager \<Rightarrow> bool option" where
  "loop_flag i m = (if i < length (mg_arena m) then Some (w_loop (mg_arena m ! i)) else None)"

definition shown_state :: "string \<Rightarrow> manager \<Rightarrow> remote_state option" where
  "shown_state uuid m = map_option r_state (get_remote uuid m)"

text \<open>Other tasks that do not report on this worker or touch its remote's state.\<close>

definition undisturbed :: "shared_env \<Rightarrow> string \<Rightarrow> nat \<Rightarrow> bool" where
  "undisturbed env uuid i \<longleftrightarrow>
     (\<forall>k. se_alive env k) \<and>
     (\<forall>k m. sent_states i (se_others env k m) = sent_states i m
          \<and> loop_flag i (se_others env k m) = loop_flag i m
          \<and> shown_state uuid (se_others env k m) = shown_state uuid m)"

text \<open>What an operation leaves alone.\<close>

definition unreported :: "string \<Rightarrow> nat \<Rightarrow> manager \<Rightarrow> manager \<Rightarrow> bool" where
  "unreported uuid i m m' \<longleftrightarrow>
     sent_states i m' = sent_states i m \<and> loop_flag i m' = loop_flag i m
     \<and> shown_state uuid m' = shown_state uuid m"

text \<open>What setting a state does.\<close>

definition reported :: "string \<Rightarrow> nat \<Rightarrow> remote_state list \<Rightarrow> manager \<Rightarrow> manager \<Rightarrow> bool" where
  "reported uuid i sts m m' \<longleftrightarrow>
     sent_states i m' = map_option (\<lambda>xs. xs @ sts) (sent_states i m)
     \<and> loop_flag i m' = loop_flag i m
     \<and> shown_state uuid m' = (if sts = [] then shown_state uuid m
                             else map_option (\<lambda>_. last sts) (shown_state uuid m))"

lemma unreported_refl [simp]: "unreported uuid i m m"
  by (simp add: unreported_def)

lemma reported_nil [simp]: "reported uuid i [] m m' \<longleftrightarrow> unreported uuid i m m'"
  by (simp add: reported_def unreported_def option.map_ident)

lemma reported_trans:
  "reported uuid i xs m m1 \<Longrightarrow> reported uuid i ys m1 m' \<Longrightarrow> reported uuid i (xs @ ys) m m'"
  by (simp add: reported_def option.map_comp comp_def)

lemma unreported_trans: "unreported uuid i m m1 \<Longrightarrow> unreported uuid i m1 m' \<Longrightarrow> unreported uuid i m m'"
  by (simp add: unreported_def)

lemma unreported_reported:
  "unreported uuid i m m1 \<Longrightarrow> reported uuid i xs m1 m' \<Longrightarrow> reported uuid i xs m m'"
  by (simp add: reported_def unreported_def)

lemma undisturbed_unreported: "undisturbed env uuid i \<Longrightarrow> unreported uuid i m (se_others env k m)"
  by (simp add: undisturbed_def unreported_def)

lemma undisturbed_alive: "undisturbed env uuid i \<Longrightarrow> se_alive env k"
  by (simp add: undisturbed_def)

lemma unreported_worker:
  assumes "\<And>w. w_sent (f w) = w_sent w" and "\<And>w. w_loop (f w) = w_loop w"
  shows "unreported uuid i m (update_worker j f m)"
  using assms
  by (cases "j = i")
    (simp_all add: unreported_def sent_states_def loop_flag_def shown_state_def get_remote_def
      update_worker_def)

lemma unreported_update_remote:
  assumes "\<And>r. r_state (f r) = r_state r"
  shows "unreported uuid i m (snd (update_remote u f m))"
  using assms
  by (simp add: unreported_def sent_states_def loop_flag_def shown_state_def get_remote_def
      option.map_comp comp_def)

lemma reported_set_state:
  assumes "undisturbed env uuid i"
  shows "\<exists>m'. set_state env k uuid i st m = (Ok (), m') \<and> reported uuid i [st] m m'"
proof -
  let ?m1 = "se_others env k (send_state i st m)"
  have 1: "set_state env k uuid i st m = (Ok (), snd (update_remote uuid (\<lambda>r. r\<lparr>r_state := st\<rparr>) ?m1))"
    using undisturbed_alive [OF assms] by (simp add: set_state_def with_manager_def)
  have "sent_states i (send_state i st m) = map_option (\<lambda>xs. xs @ [st]) (sent_states i m)"
    "loop_flag i (send_state i st m) = loop_flag i m"
    by (simp_all add: send_state_def sent_states_def loop_flag_def update_worker_def)
  then have 2: "sent_states i ?m1 = map_option (\<lambda>xs. xs @ [st]) (sent_states i m)"
    "loop_flag i ?m1 = loop_flag i m" "shown_state uuid ?m1 = shown_state uuid m"
    using assms
    by (simp_all add: undisturbed_def shown_state_def get_remote_def send_state_def)
  let ?m2 = "snd (update_remote uuid (\<lambda>r. r\<lparr>r_state := st\<rparr>) ?m1)"
  have "sent_states i ?m2 = sent_states i ?m1" "loop_flag i ?m2 = loop_flag i ?m1"
    by (simp_all add: sent_states_def loop_flag_def)
  moreover have "shown_state uuid ?m2 = map_option (\<lambda>_. st) (shown_state uuid ?m1)"
    by (simp add: shown_state_def get_remote_def option.map_comp comp_def)
  ultimately have "reported uuid i [st] m ?m2" using 2 by (simp add: reported_def)
  with 1 show ?thesis by blast
qed

lemma unreported_set_channel: "unreported uuid i m (set_channel j ch m)"
  by (simp add: set_channel_def unreported_worker)

lemma unreported_clear_channel: "unreported uuid i m (clear_channel j m)"
  by (simp add: clear_channel_def unreported_worker)

section \<open>What the steps of connecting leave alone\<close>

text \<open>What announcements and registrations say about a peer.\<close>

definition whereabouts :: "remote \<Rightarrow> ip_addr \<times> u16 \<times> u16 \<times> string \<times> string \<times> bool \<times> bool" where
  "whereabouts r =
     (r_ip r, r_port r, r_auth_port r, r_hostname r, r_service_name r, r_service_static r,
      r_service_available r)"

lemma update_or_fail_state: "snd (update_or_fail x) = snd x"
  by (simp add: update_or_fail_def split: prod.splits result.splits)

text \<open>
  A relation between shared states that other tasks keep, and updates of the worker's channel and of
  the remote's data keep, is kept by every step of \<open>connect\<close> but the setting of states; if that keeps
  it too, by \<open>connect\<close>.
\<close>

locale worker_frame =
  fixes rel :: "manager \<Rightarrow> manager \<Rightarrow> bool" and env :: connect_env
  assumes refl: "rel m m"
    and trans: "rel m1 m2 \<Longrightarrow> rel m2 m3 \<Longrightarrow> rel m1 m3"
    and others: "rel m (se_others (shared_of env) k m)"
    and channel: "(\<And>w. w_sent (f w) = w_sent w) \<Longrightarrow> (\<And>w. w_loop (f w) = w_loop w) \<Longrightarrow>
      (\<And>w. w_uuid (f w) = w_uuid w) \<Longrightarrow> rel m (update_worker j f m)"
    and remote_data: "(\<And>r. r_state (g r) = r_state r) \<Longrightarrow> (\<And>r. whereabouts (g r) = whereabouts r) \<Longrightarrow>
      (\<And>r. r_uuid (g r) = r_uuid r \<and> r_transfers (g r) = r_transfers r) \<Longrightarrow>
      rel m (snd (update_remote u g m))"
begin

lemma with_client_kept: "(\<And>m. rel m (snd (f m))) \<Longrightarrow> rel m (snd (with_client (shared_of env) k j f m))"
  using others trans by (simp add: with_client_def Let_def) blast

lemma with_manager_kept: "(\<And>m. rel m (snd (f m))) \<Longrightarrow> rel m (snd (with_manager (shared_of env) k f m))"
  using others trans refl by (simp add: with_manager_def) blast

lemma try_then_kept:
  assumes "rel m (snd x)" and "\<And>a m1. rel m1 (snd (k a m1))"
  shows "rel m (snd (try_then x conv k))"
proof -
  obtain r m1 where x: "x = (r, m1)" by force
  show ?thesis using assms trans [OF assms(1)] by (cases r) (simp_all add: x)
qed

lemma read_remote_kept: "rel m (snd (read_remote (shared_of env) k u m))"
  by (simp add: read_remote_def with_manager_kept refl)

lemma store_certificate_kept:
  "rel m (snd (with_manager (shared_of env) k
     (\<lambda>m. case update_remote u (\<lambda>r. r\<lparr>r_cert_pem := pem\<rparr>) m of (res, m') \<Rightarrow> (Ok res, m')) m))"
  by (rule with_manager_kept) (simp add: case_prod_beta remote_data whereabouts_def)

lemma receive_certificate_kept: "rel m (snd (receive_certificate env u m))"
  unfolding receive_certificate_def
  by (rule try_then_kept [OF read_remote_kept])
    (auto split: option.splits result.splits simp: refl intro!: try_then_kept store_certificate_kept)

lemma build_channel_kept: "rel m (snd (build_channel env u m))"
  unfolding build_channel_def
  by (rule try_then_kept [OF read_remote_kept]) (auto split: option.splits result.splits simp: refl)

lemma ping_kept: "rel m (snd (ping (shared_of env) k answer j m))"
  by (simp add: ping_def with_client_kept refl)

lemma wait_for_duplex_kept: "rel m (snd (wait_for_duplex (shared_of env) k answer j m))"
  by (simp add: wait_for_duplex_def with_client_kept refl)

lemma fetch_machine_info_kept: "rel m (snd (fetch_machine_info env u j m))"
  unfolding fetch_machine_info_def
  by (rule with_client_kept)
    (auto split: result.splits simp: update_or_fail_state update_machine_info_def whereabouts_def refl
      intro!: with_manager_kept remote_data)

lemma fetch_avatar_kept: "rel m (snd (fetch_avatar env u j m))"
  unfolding fetch_avatar_def
  by (rule with_client_kept)
    (auto split: result.splits option.splits
      simp: update_or_fail_state update_avatar_def Let_def update_remote_async_eq whereabouts_def refl
      intro!: with_manager_kept remote_data)

lemma set_channel_kept: "rel m (set_channel j ch m)"
  by (simp add: set_channel_def channel)

lemma clear_channel_kept: "rel m (clear_channel j m)"
  by (simp add: clear_channel_def channel)

end

text \<open>Nothing is reported by these steps, when the other tasks report nothing on this worker.\<close>

interpretation quiet: worker_frame
  "\<lambda>m m'. undisturbed (shared_of env) uuid i \<longrightarrow> unreported uuid i m m'" env for env uuid i
  by unfold_locales
    (auto intro: unreported_trans undisturbed_unreported unreported_worker unreported_update_remote)

lemma receive_certificate_unreported:
  "undisturbed (shared_of env) uuid i \<Longrightarrow> unreported uuid i m (snd (receive_certificate env uuid m))"
  by (rule quiet.receive_certificate_kept [THEN mp])

lemma build_channel_unreported:
  "undisturbed (shared_of env) uuid i \<Longrightarrow> unreported uuid i m (snd (build_channel env uuid m))"
  by (rule quiet.build_channel_kept [THEN mp])

lemma ping_unreported:
  "undisturbed (shared_of env) uuid i \<Longrightarrow> unreported uuid i m (snd (ping (shared_of env) k answer i m))"
  by (rule quiet.ping_kept [THEN mp])

lemma wait_for_duplex_unreported:
  "undisturbed (shared_of env) uuid i \<Longrightarrow> unreported uuid i m (snd (wait_for_duplex (shared_of env) k duplex i m))"
  by (rule quiet.wait_for_duplex_kept [THEN mp])

lemma fetch_machine_info_unreported:
  "undisturbed (shared_of env) uuid i \<Longrightarrow> unreported uuid i m (snd (fetch_machine_info env uuid i m))"
  by (rule quiet.fetch_machine_info_kept [THEN mp])

lemma fetch_avatar_unreported:
  "undisturbed (shared_of env) uuid i \<Longrightarrow> unreported uuid i m (snd (fetch_avatar env uuid i m))"
  by (rule quiet.fetch_avatar_kept [THEN mp])

locale state_frame = worker_frame +
  assumes state_set: "rel m (snd (set_state (shared_of env) k u j st m))"
begin

lemma fail_in_state_kept: "rel m (snd (fail_in_state (shared_of env) k u j st e m))"
  unfolding fail_in_state_def by (rule try_then_kept [OF state_set]) (simp add: refl)

lemma finish_connect_kept: "rel m (snd (finish_connect env u j m))"
proof -
  have wait: "rel m1 (snd (case wait_for_duplex (shared_of env) 8 (ce_duplex env) j m1 of
      (Err e, m2) \<Rightarrow> fail_in_state (shared_of env) 9 u j (RS_Error RC_DuplexError) (DuplexError e) (clear_channel j m2)
    | (Ok _, m2) \<Rightarrow> try_then (set_state (shared_of env) 9 u j Connected m2) RemoteWorkerError
        (\<lambda>_ m3. (Ok (), snd (fetch_avatar env u j (snd (fetch_machine_info env u j m3)))))))" for m1
  proof -
    obtain r m2 where w: "wait_for_duplex (shared_of env) 8 (ce_duplex env) j m1 = (r, m2)" by force
    have 2: "rel m1 m2" using wait_for_duplex_kept [of m1 8 "ce_duplex env" j] w by simp
    have failed: "rel m2 (snd (fail_in_state (shared_of env) 9 u j st e (clear_channel j m2)))" for st e
      using trans [OF clear_channel_kept fail_in_state_kept] .
    have connected: "rel m2 (snd (try_then (set_state (shared_of env) 9 u j Connected m2) RemoteWorkerError
        (\<lambda>_ m3. (Ok (), snd (fetch_avatar env u j (snd (fetch_machine_info env u j m3)))))))"
      by (rule try_then_kept [OF state_set]) (simp add: trans [OF fetch_machine_info_kept fetch_avatar_kept])
    show ?thesis using w trans [OF 2 failed] trans [OF 2 connected] by (cases r) simp_all
  qed
  show ?thesis
    unfolding finish_connect_def Let_def by (rule try_then_kept [OF state_set]) (rule wait)
qed

lemma connect_kept: "rel m (snd (connect env u j m))"
  unfolding connect_def Let_def
proof (rule try_then_kept [OF state_set])
  fix m1 :: manager
  obtain c m2 where c: "receive_certificate env u m1 = (c, m2)" by force
  have 2: "rel m1 m2" using receive_certificate_kept [of m1 u] c by simp
  obtain b m3 where b: "build_channel env u m2 = (b, m3)" by force
  have 3: "rel m1 m3" using trans [OF 2] build_channel_kept [of m2 u] b by simp
  have ping: "rel m1 (snd (case ping (shared_of env) 6 (ce_ping env) j (set_channel j ch m3) of
      (Err e, m) \<Rightarrow> fail_in_state (shared_of env) 7 u j (RS_Error SslError) (PingError e) (clear_channel j m)
    | (Ok _, m) \<Rightarrow> finish_connect env u j m))" for ch
  proof -
    obtain r m4 where p: "ping (shared_of env) 6 (ce_ping env) j (set_channel j ch m3) = (r, m4)" by force
    have 4: "rel m1 m4"
      using trans [OF trans [OF 3 set_channel_kept] ping_kept [of "set_channel j ch m3" 6 "ce_ping env" j]] p
      by simp
    show ?thesis
      using trans [OF 4 finish_connect_kept] trans [OF trans [OF 4 clear_channel_kept] fail_in_state_kept] p
      by (cases r) simp_all
  qed
  show "rel m1 (snd (case receive_certificate env u m1 of
      (Err e, m) \<Rightarrow> fail_in_state (shared_of env) 3 u j (certificate_error_state e) (CertificateError e) m
    | (Ok pem, m) \<Rightarrow>
       (case build_channel env u m of
          (Err e, m) \<Rightarrow> fail_in_state (shared_of env) 5 u j (RS_Error SslError) (TlsError e) m
        | (Ok ch, m) \<Rightarrow>
           (case ping (shared_of env) 6 (ce_ping env) j (set_channel j ch m) of
              (Err e, m) \<Rightarrow> fail_in_state (shared_of env) 7 u j (RS_Error SslError) (PingError e) (clear_channel j m)
            | (Ok _, m) \<Rightarrow> finish_connect env u j m))))"
    using c b ping trans [OF 2 fail_in_state_kept] trans [OF 3 fail_in_state_kept]
    by (cases c; cases b) simp_all
qed

end

text \<open>\<open>connect\<close> keeps what the announcements say, when the other tasks keep it.\<close>

definition same_whereabouts :: "manager \<Rightarrow> manager \<Rightarrow> bool" where
  "same_whereabouts m m' \<longleftrightarrow>
     (\<forall>u. map_option whereabouts (mg_remotes m' u) = map_option whereabouts (mg_remotes m u))"

definition peaceful :: "connect_env \<Rightarrow> bool" where
  "peaceful env \<longleftrightarrow> (\<forall>k m. same_whereabouts m (se_others (shared_of env) k m))"

lemma same_whereabouts_update:
  "(\<And>r. whereabouts (f r) = whereabouts r) \<Longrightarrow> same_whereabouts m (snd (update_remote u f m))"
  by (simp add: same_whereabouts_def option.map_comp comp_def)

lemma same_whereabouts_others:
  "same_whereabouts m m1 \<Longrightarrow> same_whereabouts m1 m2 \<Longrightarrow> same_whereabouts m m2"
  "same_whereabouts m m" "same_whereabouts m (update_worker j f m)"
  by (simp_all add: same_whereabouts_def)

interpretation whereabouts: state_frame "\<lambda>m m'. peaceful env \<longrightarrow> same_whereabouts m m'" env for env
proof unfold_locales
  fix m u k j st
  have "whereabouts (r\<lparr>r_state := st\<rparr>) = whereabouts r" for r by (simp add: whereabouts_def)
  then show "peaceful env \<longrightarrow> same_whereabouts m (snd (set_state (shared_of env) k u j st m))"
    using same_whereabouts_others same_whereabouts_update
    by (simp add: set_state_def with_manager_def send_state_def peaceful_def) blast
qed (auto simp: peaceful_def intro: same_whereabouts_others same_whereabouts_update)

section \<open>Connecting\<close>

text \<open>The states that an attempt reports, by its result.\<close>

fun connect_states :: "(unit, connect_remote_error) result \<Rightarrow> remote_state list" where
  "connect_states (Ok _) = [Connecting, AwaitingDuplex, Connected]"
| "connect_states (Err (CertificateError e)) =
     [Connecting, if e = WrongGroupCode then RS_Error GroupCodeMismatch
                  else if e = Offline then Disconnected else RS_Error NoCertificate]"
| "connect_states (Err (TlsError e)) = [Connecting, RS_Error SslError]"
| "connect_states (Err (PingError e)) = [Connecting, RS_Error SslError]"
| "connect_states (Err (DuplexError e)) = [Connecting, AwaitingDuplex, RS_Error RC_DuplexError]"
| "connect_states (Err RemoteWorkerNotFound) = []"
| "connect_states (Err (RemoteWorkerError e)) = []"

lemma certificate_error_states:
  "[Connecting, certificate_error_state e] = connect_states (Err (CertificateError e))"
  by (cases e) (simp_all add: certificate_error_state_def)

lemma fail_in_state_reported:
  assumes "undisturbed env uuid i"
  shows "\<exists>m'. fail_in_state env k uuid i st e m = (Err e, m') \<and> reported uuid i [st] m m'"
proof -
  obtain m' where "set_state env k uuid i st m = (Ok (), m')" "reported uuid i [st] m m'"
    using reported_set_state [OF assms] by blast
  then show ?thesis by (simp add: fail_in_state_def)
qed

text \<open>A step that reports nothing, then a failure.\<close>

lemma step_then_fail:
  assumes "undisturbed env uuid i" and "unreported uuid i m m1"
  shows "\<exists>m'. fail_in_state env k uuid i st e m1 = (Err e, m') \<and> reported uuid i [st] m m'"
  using fail_in_state_reported [OF assms(1)] unreported_reported [OF assms(2)] by blast

lemma finish_connect_reported:
  assumes "undisturbed (shared_of env) uuid i"
  shows "\<exists>r m'. finish_connect env uuid i m = (r, m') \<and>
    reported uuid i (tl (connect_states r)) m m' \<and> (r = Ok () \<or> (\<exists>e. r = Err (DuplexError e)))"
proof -
  let ?sh = "shared_of env"
  obtain m1 where 1: "set_state ?sh 7 uuid i AwaitingDuplex m = (Ok (), m1)"
    "reported uuid i [AwaitingDuplex] m m1"
    using reported_set_state [OF assms] by blast
  obtain d m2 where d: "wait_for_duplex ?sh 8 (ce_duplex env) i m1 = (d, m2)" by force
  have 2: "unreported uuid i m1 m2"
    using wait_for_duplex_unreported [OF assms, of m1 8 "ce_duplex env"] d by simp
  show ?thesis
  proof (cases d)
    case (Ok u)
    obtain m3 where 3: "set_state ?sh 9 uuid i Connected m2 = (Ok (), m3)"
      "reported uuid i [Connected] m2 m3"
      using reported_set_state [OF assms] by blast
    let ?m4 = "snd (fetch_avatar env uuid i (snd (fetch_machine_info env uuid i m3)))"
    have "unreported uuid i m3 ?m4"
      using fetch_machine_info_unreported [OF assms] fetch_avatar_unreported [OF assms]
        unreported_trans by blast
    then have "reported uuid i [Connected] m1 ?m4"
      using unreported_reported [OF 2 3(2)] reported_trans [of uuid i "[Connected]" m1 m3 "[]"] by simp
    then have "reported uuid i [AwaitingDuplex, Connected] m ?m4"
      using reported_trans [OF 1(2)] by fastforce
    then show ?thesis using 1(1) d Ok 3(1) by (simp add: finish_connect_def)
  next
    case (Err e)
    obtain m3 where 3: "fail_in_state ?sh 9 uuid i (RS_Error RC_DuplexError) (DuplexError e)
        (clear_channel i m2) = (Err (DuplexError e), m3)" "reported uuid i [RS_Error RC_DuplexError] m1 m3"
      using step_then_fail [OF assms unreported_trans [OF 2 unreported_clear_channel]] by blast
    have "reported uuid i [AwaitingDuplex, RS_Error RC_DuplexError] m m3"
      using reported_trans [OF 1(2) 3(2)] by simp
    then show ?thesis using 1(1) d Err 3(1) by (simp add: finish_connect_def)
  qed
qed

lemma connect_reported:
  assumes "undisturbed (shared_of env) uuid i"
  shows "\<exists>r m'. connect env uuid i m = (r, m') \<and> reported uuid i (connect_states r) m m'
    \<and> connect_states r \<noteq> []"
proof -
  let ?sh = "shared_of env"
  obtain m1 where 1: "set_state ?sh 0 uuid i Connecting m = (Ok (), m1)" "reported uuid i [Connecting] m m1"
    using reported_set_state [OF assms] by blast
  have join: "reported uuid i (Connecting # sts) m m'" if "reported uuid i sts m1 m'" for sts m'
    using reported_trans [OF 1(2) that] by simp
  obtain c m2 where c: "receive_certificate env uuid m1 = (c, m2)" by force
  have 2: "unreported uuid i m1 m2" using receive_certificate_unreported [OF assms, of m1] c by simp
  show ?thesis
  proof (cases c)
    case (Err e)
    then show ?thesis
      using step_then_fail [OF assms 2, of 3 "certificate_error_state e" "CertificateError e"] join 1(1) c
      by (fastforce simp: connect_def Let_def certificate_error_states [symmetric]
          simp del: connect_states.simps)
  next
    case (Ok pem)
    obtain b m3 where b: "build_channel env uuid m2 = (b, m3)" by force
    have 3: "unreported uuid i m1 m3"
      using build_channel_unreported [OF assms, of m2] b unreported_trans [OF 2] by simp
    show ?thesis
    proof (cases b)
      case (Err e)
      then show ?thesis
        using step_then_fail [OF assms 3, of 5 "RS_Error SslError" "TlsError e"] join 1(1) c Ok b
        by (fastforce simp: connect_def Let_def)
    next
      case ch: (Ok ch)
      obtain p m4 where p: "ping ?sh 6 (ce_ping env) i (set_channel i ch m3) = (p, m4)" by force
      have 4: "unreported uuid i m1 m4"
        using ping_unreported [OF assms, of "set_channel i ch m3" 6 "ce_ping env"] p
          unreported_trans [OF unreported_trans [OF 3 unreported_set_channel]] by simp
      show ?thesis
      proof (cases p)
        case (Err e)
        have 5: "unreported uuid i m1 (clear_channel i m4)"
          by (rule unreported_trans [OF 4 unreported_clear_channel])
        show ?thesis
          using step_then_fail [OF assms 5, of 7 "RS_Error SslError" "PingError e"] join 1(1) c Ok b ch p Err
          by (fastforce simp: connect_def Let_def)
      next
        case ping: (Ok u)
        obtain r m' where r: "finish_connect env uuid i m4 = (r, m')"
          "reported uuid i (tl (connect_states r)) m4 m'" "r = Ok () \<or> (\<exists>e. r = Err (DuplexError e))"
          using finish_connect_reported [OF assms] by blast
        have "connect env uuid i m = (r, m')"
          using 1(1) c Ok b ch p ping r(1) by (simp add: connect_def Let_def)
        moreover have "reported uuid i (connect_states r) m m'"
          using join [OF unreported_reported [OF 4 r(2)]] r(3) by auto
        moreover have "connect_states r \<noteq> []" using r(3) by auto
        ultimately show ?thesis by blast
      qed
    qed
  qed
qed

section \<open>What an attempt returns\<close>

text \<open>The result as the answers determine it, in the order of the source.\<close>

definition duplex_result :: "connect_env \<Rightarrow> (unit, worker_error) result" where
  "duplex_result env =
     (case rpc_result (ce_duplex env) of
        Err e \<Rightarrow> Err e
      | Ok response \<Rightarrow> if response then Ok () else Err (OperationFailed ''Duplex not established''))"

definition connect_result :: "connect_env \<Rightarrow> (unit, connect_remote_error) result" where
  "connect_result env =
     (case unboxed_certificate env of
        Err e \<Rightarrow> Err (CertificateError e)
      | Ok pem \<Rightarrow>
         (case ce_channel env of
            Err s \<Rightarrow> Err (TlsError (OperationFailed s))
          | Ok ch \<Rightarrow>
             (case rpc_result (ce_ping env) of
                Err e \<Rightarrow> Err (PingError e)
              | Ok _ \<Rightarrow>
                 (case duplex_result env of Err e \<Rightarrow> Err (DuplexError e) | Ok _ \<Rightarrow> Ok ()))))"

definition ready :: "string \<Rightarrow> nat \<Rightarrow> manager \<Rightarrow> bool" where
  "ready uuid i m \<longleftrightarrow> sent_states i m \<noteq> None \<and> shown_state uuid m \<noteq> None"

text \<open>Other tasks that leave the client of the worker alone.\<close>

definition keeps_client :: "shared_env \<Rightarrow> nat \<Rightarrow> bool" where
  "keeps_client env i \<longleftrightarrow> (\<forall>k m. worker_client i (se_others env k m) = worker_client i m)"

lemma ready_kept:
  "ready uuid i m \<Longrightarrow> unreported uuid i m m' \<Longrightarrow> ready uuid i m'"
  "ready uuid i m \<Longrightarrow> reported uuid i sts m m' \<Longrightarrow> ready uuid i m'"
  by (simp_all add: ready_def unreported_def reported_def)

lemma ready_others:
  assumes "undisturbed env uuid i" and "ready uuid i m"
  shows "\<exists>r. get_remote uuid (se_others env k m) = Some r"
  using ready_kept(1) [OF assms(2) undisturbed_unreported [OF assms(1)], of k]
  by (auto simp: ready_def shown_state_def)

lemma set_state_client:
  "keeps_client env i \<Longrightarrow> worker_client i (snd (set_state env k uuid j st m)) = worker_client i m"
proof -
  have "worker_client i (send_state j st m) = worker_client i m"
    by (simp add: send_state_def worker_client_def update_worker_def nth_list_update)
  moreover have "worker_client i (snd (update_remote uuid f m)) = worker_client i m" for f m
    by (simp add: worker_client_def)
  ultimately show "keeps_client env i \<Longrightarrow> ?thesis"
    by (simp add: keeps_client_def set_state_def with_manager_def)
qed

lemma set_channel_client: "ready uuid i m \<Longrightarrow> worker_client i (set_channel i ch m) = Some ch"
  by (auto simp: ready_def sent_states_def worker_client_def set_channel_def update_worker_def split: if_splits)

lemma certificate_result:
  assumes "undisturbed (shared_of env) uuid i" and "ready uuid i m"
  shows "fst (receive_certificate env uuid m) = unboxed_certificate env"
proof -
  let ?m1 = "se_others (shared_of env) 1 m"
  obtain r where r: "get_remote uuid ?m1 = Some r" using ready_others [OF assms] by blast
  have "ready uuid i ?m1" using ready_kept(1) [OF assms(2) undisturbed_unreported [OF assms(1)]] .
  then obtain r2 where r2: "get_remote uuid (se_others (shared_of env) 2 ?m1) = Some r2"
    using ready_others [OF assms(1)] by blast
  show ?thesis
    using r r2 undisturbed_alive [OF assms(1)]
    by (cases "unboxed_certificate env")
      (simp_all add: receive_certificate_def read_remote_def with_manager_def update_remote_def get_remote_def)
qed

lemma channel_result:
  assumes "undisturbed (shared_of env) uuid i" and "ready uuid i m"
  shows "fst (build_channel env uuid m) =
    (case ce_channel env of Err s \<Rightarrow> Err (OperationFailed s) | Ok ch \<Rightarrow> Ok ch)"
  using ready_others [OF assms, of 4] undisturbed_alive [OF assms(1)]
  by (auto simp: build_channel_def read_remote_def with_manager_def split: result.split)

lemma with_client_present:
  "keeps_client env i \<Longrightarrow> worker_client i m = Some c \<Longrightarrow> with_client env k i f m = f (se_others env k m)"
  by (simp add: with_client_def keeps_client_def)

lemma finish_connect_result:
  assumes "undisturbed (shared_of env) uuid i" and "keeps_client (shared_of env) i"
    and "worker_client i m = Some c"
  shows "fst (finish_connect env uuid i m) =
    (case duplex_result env of Err e \<Rightarrow> Err (DuplexError e) | Ok _ \<Rightarrow> Ok ())"
proof -
  obtain m1 where 1: "set_state (shared_of env) 7 uuid i AwaitingDuplex m = (Ok (), m1)"
    using reported_set_state [OF assms(1)] by blast
  then have c: "worker_client i m1 = Some c"
    using set_state_client [OF assms(2), of 7 uuid i AwaitingDuplex m] assms(3) by simp
  obtain m2 where 2: "wait_for_duplex (shared_of env) 8 (ce_duplex env) i m1 = (duplex_result env, m2)"
    unfolding wait_for_duplex_def with_client_present [OF assms(2) c]
    by (auto simp: duplex_result_def split: result.splits)
  show ?thesis
  proof (cases "duplex_result env")
    case (Ok u)
    obtain m3 where "set_state (shared_of env) 9 uuid i Connected m2 = (Ok (), m3)"
      using reported_set_state [OF assms(1)] by blast
    then show ?thesis using 1 2 Ok by (simp add: finish_connect_def)
  next
    case (Err e)
    then show ?thesis
      using fail_in_state_reported [OF assms(1), of 9 "RS_Error RC_DuplexError" "DuplexError e" "clear_channel i m2"]
        1 2 by (auto simp: finish_connect_def)
  qed
qed

lemma connect_returns:
  assumes "undisturbed (shared_of env) uuid i" and "keeps_client (shared_of env) i" and "ready uuid i m"
  shows "fst (connect env uuid i m) = connect_result env"
proof -
  let ?sh = "shared_of env"
  note fails = fail_in_state_reported [OF assms(1)]
  obtain m1 where 1: "set_state ?sh 0 uuid i Connecting m = (Ok (), m1)" "ready uuid i m1"
    using reported_set_state [OF assms(1), of 0 Connecting m] ready_kept(2) [OF assms(3)] by blast
  obtain m2 where 2: "receive_certificate env uuid m1 = (unboxed_certificate env, m2)" "ready uuid i m2"
    using certificate_result [OF assms(1) 1(2)] ready_kept(1) [OF 1(2) receive_certificate_unreported [OF assms(1)]]
    by (metis prod.collapse)
  show ?thesis
  proof (cases "unboxed_certificate env")
    case (Err e)
    then show ?thesis
      using 1(1) 2(1) fails [of 3 "certificate_error_state e" "CertificateError e" m2]
      by (auto simp: connect_def connect_result_def)
  next
    case pem: (Ok pem)
    obtain b m3 where b: "build_channel env uuid m2 = (b, m3)" by force
    have 3: "ready uuid i m3" "b = (case ce_channel env of Err s \<Rightarrow> Err (OperationFailed s) | Ok ch \<Rightarrow> Ok ch)"
      using b channel_result [OF assms(1) 2(2)]
        ready_kept(1) [OF 2(2) build_channel_unreported [OF assms(1), of m2]] by simp_all
    show ?thesis
    proof (cases "ce_channel env")
      case (Err s)
      then show ?thesis
        using 1(1) 2(1) pem b 3(2) fails [of 5 "RS_Error SslError" "TlsError (OperationFailed s)" m3]
        by (auto simp: connect_def connect_result_def)
    next
      case (Ok ch)
      let ?m4 = "se_others ?sh 6 (set_channel i ch m3)"
      have client: "worker_client i (set_channel i ch m3) = Some ch" "worker_client i ?m4 = Some ch"
        using set_channel_client [OF 3(1)] assms(2) by (simp_all add: keeps_client_def)
      have ping: "ping ?sh 6 (ce_ping env) i (set_channel i ch m3) = (rpc_result (ce_ping env), ?m4)"
        using with_client_present [OF assms(2) client(1)] by (simp add: ping_def)
      have failed: "fst (fail_in_state ?sh 7 uuid i (RS_Error SslError) e (clear_channel i ?m4)) = Err e" for e
        using fails [of 7 "RS_Error SslError" e "clear_channel i ?m4"] by (metis fst_conv)
      show ?thesis
        using 1(1) 2(1) pem b 3(2) Ok ping finish_connect_result [OF assms(1,2) client(2)] failed
        by (cases "rpc_result (ce_ping env)") (simp_all add: connect_def connect_result_def Let_def)
    qed
  qed
qed

section \<open>Properties\<close>

text \<open>
  C5. What an attempt to connect returns and reports, for every answer of the environment: the
  result is the first failure in the order certificate, channel, ping, duplex; the states sent to
  the watch channel are exactly those this result stands for, the manager shows the last of them,
  and the state loop is neither started nor stopped. In particular \<open>connect\<close> returns \<open>Ok\<close> exactly when
  it ends in \<open>Connected\<close>, and a wrong group code is told apart from every other failure.
\<close>

theorem connect_reports_outcome:
  assumes "undisturbed (shared_of env) uuid i" and "connect env uuid i m = (r, m')"
    and "sent_states i m = Some sts" and "mg_remotes m uuid = Some rem"
    and "keeps_client (shared_of env) i"
  shows "r = connect_result env \<and> sent_states i m' = Some (sts @ connect_states r) \<and>
    shown_state uuid m' = Some (last (connect_states r)) \<and> loop_flag i m' = loop_flag i m \<and>
    (r = Ok () \<longleftrightarrow> shown_state uuid m' = Some Connected)"
proof -
  have rep: "reported uuid i (connect_states r) m m'" and ne: "connect_states r \<noteq> []"
    using connect_reported [OF assms(1), of m] assms(2) by auto
  then have shown: "shown_state uuid m' = Some (last (connect_states r))"
    using assms(4) by (simp add: reported_def shown_state_def get_remote_def)
  have "r = Ok () \<longleftrightarrow> last (connect_states r) = Connected"
    using ne by (cases r rule: connect_states.cases) auto
  moreover have "sent_states i m' = Some (sts @ connect_states r)" "loop_flag i m' = loop_flag i m"
    using rep assms(3) by (simp_all add: reported_def)
  moreover have "ready uuid i m"
    using assms(3,4) by (simp add: ready_def shown_state_def get_remote_def)
  then have "r = connect_result env" using connect_returns [OF assms(1,5)] assms(2) by (metis fst_conv)
  ultimately show ?thesis using shown by simp
qed

text \<open>Sample environments: a worker alone, and one whose remote answers everything.\<close>

definition calm :: shared_env where
  "calm = \<lparr>se_alive = \<lambda>k. True, se_others = \<lambda>k m. m, se_queued = 0\<rparr>"

definition answering :: connect_env where
  "answering =
     \<lparr>se_alive = \<lambda>k. True, se_others = \<lambda>k m. m, se_queued = 0, ce_uri_ok = True, ce_reg_connected = True,
      ce_cert = Ok ''QUJD'', ce_decode = \<lambda>s. Some [1, 2, 3], ce_unbox = \<lambda>b. Ok [4],
      ce_channel = Ok 1, ce_ping = RpcOk (), ce_duplex = RpcOk True,
      ce_info = Ok \<lparr>mi_display_name = ''Ann'', mi_user_name = ''ann'', mi_feature_flags = 1\<rparr>,
      ce_avatar = Ok ([], None)\<rparr>"

definition wrong_group_code :: connect_env where
  "wrong_group_code = answering\<lparr>ce_unbox := \<lambda>b. Err DecryptionFailed\<rparr>"

definition known_manager :: manager where
  "known_manager = snd (add_remote 1 sample_remote sample_manager)"

lemma sample_undisturbed:
  "undisturbed calm uuid i" "undisturbed (shared_of answering) uuid i"
  "undisturbed (shared_of wrong_group_code) uuid i"
  by (simp_all add: undisturbed_def calm_def shared_of_def answering_def wrong_group_code_def)

lemma known_manager_facts:
  "mg_remotes known_manager ''peer'' = Some sample_remote" "length (mg_arena known_manager) = 1"
  "sent_states 0 known_manager = Some []" "loop_flag 0 known_manager = Some True"
  by (simp_all add: known_manager_def add_remote_def insert_worker_def insert_remote_def
      announce_remote_def Let_def sample_manager_def manager_new_def sample_user_def
      sample_remote_def remote_new_def sent_states_def loop_flag_def worker_new_def)

lemma answering_keeps_client: "keeps_client (shared_of answering) i"
  by (simp add: keeps_client_def shared_of_def answering_def)

lemma answering_result: "connect_result answering = Ok ()"
  by (simp add: connect_result_def duplex_result_def unboxed_certificate_def rpc_result_def answering_def)

theorem connect_reports_witness:
  "\<exists>m'. connect answering ''peer'' 0 known_manager = (Ok (), m') \<and>
    sent_states 0 m' = Some [Connecting, AwaitingDuplex, Connected] \<and> loop_flag 0 m' = Some True"
proof -
  obtain r m' where c: "connect answering ''peer'' 0 known_manager = (r, m')" by force
  with connect_reports_outcome [OF sample_undisturbed(2) c known_manager_facts(3,1) answering_keeps_client]
    known_manager_facts(4) answering_result
  show ?thesis by auto
qed

section \<open>The end of the state loop\<close>

lemma loop_ends_on_mismatch:
  assumes "sent_states i m = Some sts" and "sts \<noteq> []" and "last sts = RS_Error GroupCodeMismatch"
  shows "worker_loop uuid i (inp # inps) m = (False, update_worker i (\<lambda>w. w\<lparr>w_loop := False\<rparr>) m)"
proof -
  have "watched_state (mg_arena m ! i) = RS_Error GroupCodeMismatch"
    using assms by (auto simp: sent_states_def watched_state_def split: if_splits)
  then show ?thesis by (simp add: loop_step_def)
qed

text \<open>
  C34. A group-code mismatch ends the worker's state loop for good: after it, a manual connection
  that succeeds leaves the remote \<open>Connected\<close>, but no loop is left to ping it, to reconnect it, or
  to disconnect it when the server shuts down.
\<close>

theorem mismatch_leaves_connection_unattended:
  assumes "undisturbed (shared_of env1) uuid i" and "undisturbed (shared_of env2) uuid i"
    and "connect env1 uuid i m = (Err (CertificateError WrongGroupCode), m1)"
    and "sent_states i m = Some sts" and "mg_remotes m uuid = Some rem"
    and "worker_loop uuid i (inp # inps) m1 = (running, m2)"
    and "connect env2 uuid i m2 = (Ok (), m3)"
  shows "\<not> running \<and> shown_state uuid m3 = Some Connected \<and> loop_flag i m3 = Some False"
proof -
  have i: "i < length (mg_arena m)" using assms(4) by (simp add: sent_states_def split: if_splits)
  obtain r1 m1' where 1: "connect env1 uuid i m = (r1, m1')" "reported uuid i (connect_states r1) m m1'"
    using connect_reported [OF assms(1), of m] by blast
  then have sent1: "sent_states i m1 = Some (sts @ [Connecting, RS_Error GroupCodeMismatch])"
    and shown1: "shown_state uuid m1 = Some (RS_Error GroupCodeMismatch)"
    using assms(3,4,5) by (auto simp: reported_def certificate_error_state_def shown_state_def get_remote_def)
  have loop: "running = False" "m2 = update_worker i (\<lambda>w. w\<lparr>w_loop := False\<rparr>) m1"
    using loop_ends_on_mismatch [OF sent1, of uuid inp inps] assms(6) by auto
  have i1: "i < length (mg_arena m1)" using sent1 by (simp add: sent_states_def split: if_splits)
  have 2: "loop_flag i m2 = Some False" "shown_state uuid m2 = Some (RS_Error GroupCodeMismatch)"
    using i1 shown1 by (simp_all add: loop(2) loop_flag_def update_worker_def shown_state_def get_remote_def)
  obtain r3 m3' where "connect env2 uuid i m2 = (r3, m3')" "reported uuid i (connect_states r3) m2 m3'"
    using connect_reported [OF assms(2), of m2] by blast
  then show ?thesis using assms(7) 2 loop(1) by (auto simp: reported_def)
qed

lemmas connect_defs =
  connect_def set_state_def with_manager_def send_state_def shared_of_def receive_certificate_def
  read_remote_def get_remote_def unboxed_certificate_def build_channel_def ping_def with_client_def
  worker_client_def set_channel_def finish_connect_def wait_for_duplex_def rpc_result_def
  fail_in_state_def unbox_error_of_def

lemma update_worker_nth:
  "i < length (mg_arena m) \<Longrightarrow> mg_arena (update_worker i f m) ! i = f (mg_arena m ! i)"
  by (simp add: update_worker_def)

lemma connect_wrong_group_code:
  assumes "mg_remotes m uuid = Some r"
  shows "\<exists>m'. connect wrong_group_code uuid i m = (Err (CertificateError WrongGroupCode), m')"
  using assms by (simp add: connect_defs answering_def wrong_group_code_def Let_def)

theorem mismatch_unattended_witness:
  "\<exists>m1 m2 m3 running. connect wrong_group_code ''peer'' 0 known_manager
      = (Err (CertificateError WrongGroupCode), m1) \<and>
    worker_loop ''peer'' 0 [LoopChanged] m1 = (running, m2) \<and>
    connect answering ''peer'' 0 m2 = (Ok (), m3) \<and>
    \<not> running \<and> shown_state ''peer'' m3 = Some Connected \<and> loop_flag 0 m3 = Some False"
proof -
  obtain m1 where 1: "connect wrong_group_code ''peer'' 0 known_manager
      = (Err (CertificateError WrongGroupCode), m1)"
    using connect_wrong_group_code known_manager_facts(1) by blast
  have rep: "reported ''peer'' 0 [Connecting, RS_Error GroupCodeMismatch] known_manager m1"
    using connect_reported [OF sample_undisturbed(3), of "''peer''" 0 known_manager] 1
    by (auto simp: certificate_error_state_def)
  obtain m2 where 2: "worker_loop ''peer'' 0 [LoopChanged] m1 = (False, m2)"
    "m2 = update_worker 0 (\<lambda>w. w\<lparr>w_loop := False\<rparr>) m1"
    using loop_ends_on_mismatch [of 0 m1 "[Connecting, RS_Error GroupCodeMismatch]"] rep
      known_manager_facts(3) by (auto simp: reported_def)
  have "ready ''peer'' 0 m2"
    using rep known_manager_facts
    by (auto simp: 2(2) ready_def reported_def sent_states_def shown_state_def get_remote_def
        update_worker_def split: if_splits)
  then obtain m3 where 3: "connect answering ''peer'' 0 m2 = (Ok (), m3)"
    using connect_returns [OF sample_undisturbed(2) answering_keeps_client] answering_result
    by (metis prod.collapse)
  show ?thesis
    using mismatch_leaves_connection_unattended
        [OF sample_undisturbed(3,2) 1 known_manager_facts(3,1) 2(1) 3] 1 2(1) 3 by blast
qed

end
