(* ===== verification/Warp_Grpc.thy ===== *)
theory Warp_Grpc
  imports Warp_Worker
begin

text \<open>
  \<open>src/grpc/warp.rs\<close>: the handlers of the Warp service. A handler is a function of the request and
  of the shared state at its accesses; the locks make each access atomic, and \<open>others\<close> is what other
  tasks do between the two accesses of a handler. A spawned task is part of the result.
\<close>

section \<open>Duplex\<close>

text \<open>
  The event loop after the first look at the remote. Each input is one resolution of the \<open>select!\<close>:
  the deadline; an event, with the shared state as it is when the handler looks; or a failed
  \<open>recv\<close> (the subscriber lagged), whose pattern does not match: the branch is then disabled and
  only the deadline is left.
\<close>

datatype duplex_input =
    DeadlineReached
  | EventReceived warp_event manager
  | ReceiveFailed

definition duplex_ready :: "remote_state \<Rightarrow> bool" where
  "duplex_ready st = (st = AwaitingDuplex \<or> st = Connected)"

definition remote_event_for :: "string \<Rightarrow> warp_event \<Rightarrow> bool" where
  "remote_event_for ident ev =
     (case ev of RemoteAdded u \<Rightarrow> u = ident | RemoteUpdated u \<Rightarrow> u = ident | _ \<Rightarrow> False)"

definition event_reports_duplex :: "string \<Rightarrow> warp_event \<Rightarrow> manager \<Rightarrow> bool" where
  "event_reports_duplex ident ev m \<longleftrightarrow>
     remote_event_for ident ev \<and>
     (case get_remote ident m of Some r \<Rightarrow> duplex_ready (r_state r) | None \<Rightarrow> False)"

fun duplex_loop :: "string \<Rightarrow> duplex_input list \<Rightarrow> bool option" where
  "duplex_loop ident [] = None"
| "duplex_loop ident (DeadlineReached # xs) = Some False"
| "duplex_loop ident (EventReceived ev m # xs) =
     (if event_reports_duplex ident ev m then Some True else duplex_loop ident xs)"
| "duplex_loop ident (ReceiveFailed # xs) = Some False"

text \<open>The first component is the handle of a worker whose \<open>connect\<close> is spawned.\<close>

definition waiting_for_duplex ::
  "lookup_name \<Rightarrow> manager \<Rightarrow> duplex_input list \<Rightarrow> nat option \<times> bool option" where
  "waiting_for_duplex req m xs =
     (let ident = ln_id req
      in case get_remote ident m of
           Some r \<Rightarrow>
            (case r_state r of
               RS_Error e \<Rightarrow> (get_worker ident m, duplex_loop ident xs)
             | Disconnected \<Rightarrow> (get_worker ident m, duplex_loop ident xs)
             | AwaitingDuplex \<Rightarrow> (None, Some True)
             | Connected \<Rightarrow> (None, Some True)
             | Connecting \<Rightarrow> (None, duplex_loop ident xs))
         | None \<Rightarrow> (None, duplex_loop ident xs))"

section \<open>Machine information\<close>

definition get_remote_machine_info :: "user_config \<Rightarrow> protocol_config \<Rightarrow> remote_machine_info" where
  "get_remote_machine_info uc pc =
     \<lparr>mi_display_name = uc_display_name uc, mi_user_name = uc_username uc,
      mi_feature_flags = pc_features pc\<rparr>"

definition avatar_chunk_size :: nat where "avatar_chunk_size = 1024 * 64"

text \<open>\<open>bytes.chunks(n)\<close>.\<close>

function chunks_of :: "nat \<Rightarrow> 'a list \<Rightarrow> 'a list list" where
  "chunks_of n xs = (if xs = [] \<or> n = 0 then [] else take n xs # chunks_of n (drop n xs))"
  by pat_completeness auto
termination by (relation "measure (\<lambda>(n, xs). length xs)") auto

declare chunks_of.simps [simp del]

definition get_remote_machine_avatar :: "user_config \<Rightarrow> bytes list" where
  "get_remote_machine_avatar uc =
     (case uc_picture uc of None \<Rightarrow> [] | Some bytes \<Rightarrow> chunks_of avatar_chunk_size bytes)"

section \<open>Transfers\<close>

text \<open>The fresh UUID of the incoming transfer and the clock are arguments.\<close>

definition process_transfer_op_request ::
  "string \<Rightarrow> u64 \<Rightarrow> transfer_op_request \<Rightarrow> manager \<Rightarrow> (unit, status) result outcome \<times> manager" where
  "process_transfer_op_request fresh now req m =
     (case tor_info req of
        None \<Rightarrow> (Return (Err (Status InvalidArgument ''Missing OpInfo'')), m)
      | Some info \<Rightarrow>
         (case transfer_from_request fresh now req of
            Panic \<Rightarrow> (Panic, m)
          | Return t \<Rightarrow>
             (case add_transfer (oi_ident info) t m of
                (Err e, m') \<Rightarrow> (Return (Err (Status Internal ''Failed to add transfer op request: NotFound'')), m')
              | (Ok u, m') \<Rightarrow> (Return (Ok ()), m'))))"

text \<open>The task \<open>send_stream\<close> that \<open>start_transfer\<close> spawns: remote, transfer, sources, token.\<close>

type_synonym spawned_stream = "string \<times> string \<times> path list \<times> token"

definition start_transfer ::
  "nat \<Rightarrow> (manager \<Rightarrow> manager) \<Rightarrow> op_info \<Rightarrow> manager \<Rightarrow> (spawned_stream, status) result \<times> manager" where
  "start_transfer qlen others req m =
     (case transfer_by_protocol_id (oi_ident req) (oi_timestamp req) m of
        None \<Rightarrow> (Err (Status NotFound ''Transfer not found''), m)
      | Some t \<Rightarrow>
         (case t_kind t of
            Incoming d \<Rightarrow> (Err (Status InvalidArgument ''Cannot start an incoming transfer''), m)
          | Outgoing ps tok \<Rightarrow>
             (case update_transfer qlen (t_remote_uuid t) (t_uuid t)
                     (\<lambda>t. t\<lparr>t_state := InProgress\<rparr>) (others m) of
                (Err e, m') \<Rightarrow> (Err (Status Internal ''Failed to update transfer state''), m')
              | (Ok u, m') \<Rightarrow> (Ok (t_remote_uuid t, t_uuid t, ps, tok), m'))))"

definition pause_transfer_op :: "op_info \<Rightarrow> (unit, status) result" where
  "pause_transfer_op req = Err (Status Unimplemented ''PauseTransferOp is not implemented'')"

definition stopped_state :: "transfer \<Rightarrow> bool \<Rightarrow> transfer_state" where
  "stopped_state t error =
     (case t_kind t of
        Outgoing ps tok \<Rightarrow> if error then Failed RemoteError else Stopped
      | Incoming d \<Rightarrow> if error then Failed RemoteError else Canceled)"

definition handle_stop_transfer ::
  "nat \<Rightarrow> (manager \<Rightarrow> manager) \<Rightarrow> stop_info \<Rightarrow> manager \<Rightarrow> (unit, status) result \<times> manager" where
  "handle_stop_transfer qlen others req m =
     (case si_info req of
        None \<Rightarrow> (Err (Status InvalidArgument ''Missing OpInfo''), m)
      | Some info \<Rightarrow>
         (case transfer_by_protocol_id (oi_ident info) (oi_timestamp info) m of
            None \<Rightarrow> (Err (Status NotFound ''Transfer not found''), m)
          | Some t \<Rightarrow>
              (Ok (), snd (update_transfer qlen (t_remote_uuid t) (t_uuid t)
                 (\<lambda>x. x\<lparr>t_state := stopped_state t (si_error req)\<rparr>) (others (cancel_outgoing t m))))))"

definition denied_state :: "transfer \<Rightarrow> transfer_state" where
  "denied_state t = (case t_kind t of Outgoing ps tok \<Rightarrow> Denied | Incoming d \<Rightarrow> Canceled)"

definition cancel_transfer_op_request ::
  "nat \<Rightarrow> (manager \<Rightarrow> manager) \<Rightarrow> op_info \<Rightarrow> manager \<Rightarrow> (unit, status) result \<times> manager" where
  "cancel_transfer_op_request qlen others req m =
     (case transfer_by_protocol_id (oi_ident req) (oi_timestamp req) m of
        None \<Rightarrow> (Err (Status NotFound ''Transfer not found''), m)
      | Some t \<Rightarrow>
          if t_state t = WaitingPermission
          then (Ok (), snd (update_transfer qlen (t_remote_uuid t) (t_uuid t)
                  (\<lambda>x. x\<lparr>t_state := denied_state t\<rparr>) (others m)))
          else (Err (Status FailedPrecondition
                  ''Can only cancel transfers that are waiting for permission''), m))"

section \<open>Messages and ping\<close>

definition send_text_message ::
  "protocol_config \<Rightarrow> string \<Rightarrow> u64 \<Rightarrow> text_message \<Rightarrow> manager \<Rightarrow> (unit, status) result \<times> manager" where
  "send_text_message pc fresh now req m =
     (if \<not> features_contains (pc_features pc) message_support
      then (Err (Status Unimplemented ''Messaging feature is disabled''), m)
      else case add_message (tm_ident req) (message_from_proto fresh now req) m of
             (Err e, m') \<Rightarrow> (Err (Status Internal ''Failed to add message: NotFound''), m')
           | (Ok u, m') \<Rightarrow> (Ok (), m'))"

definition handle_ping :: "lookup_name \<Rightarrow> (unit, status) result" where
  "handle_ping req = Ok ()"

section \<open>Lemmas\<close>

lemma concat_chunks_of [simp]: "0 < n \<Longrightarrow> concat (chunks_of n xs) = xs"
proof (induction n xs rule: chunks_of.induct)
  case (1 n xs)
  then show ?case by (subst chunks_of.simps) auto
qed

lemma chunks_of_bounds: "0 < n \<Longrightarrow> c \<in> set (chunks_of n xs) \<Longrightarrow> c \<noteq> [] \<and> length c \<le> n"
proof (induction n xs rule: chunks_of.induct)
  case (1 n xs)
  then show ?case by (subst (asm) chunks_of.simps) (auto split: if_splits)
qed

text \<open>The inputs reach an event that reports the duplex, and only events come before it.\<close>

definition duplex_hit :: "string \<Rightarrow> duplex_input list \<Rightarrow> bool" where
  "duplex_hit ident xs \<longleftrightarrow>
     (\<exists>ys ev m zs. xs = ys @ EventReceived ev m # zs \<and> event_reports_duplex ident ev m \<and>
       (\<forall>y \<in> set ys. \<exists>e m. y = EventReceived e m))"

lemma duplex_hit_Cons:
  "duplex_hit ident (x # xs) \<longleftrightarrow>
    (\<exists>ev m. x = EventReceived ev m \<and> (event_reports_duplex ident ev m \<or> duplex_hit ident xs))"
proof
  assume "duplex_hit ident (x # xs)"
  then obtain ys ev m zs where *: "x # xs = ys @ EventReceived ev m # zs"
    "event_reports_duplex ident ev m" "\<forall>y \<in> set ys. \<exists>e m. y = EventReceived e m"
    unfolding duplex_hit_def by blast
  show "\<exists>ev m. x = EventReceived ev m \<and> (event_reports_duplex ident ev m \<or> duplex_hit ident xs)"
  proof (cases ys)
    case Nil
    then show ?thesis using * by simp
  next
    case (Cons y ys')
    then have "x = y" "xs = ys' @ EventReceived ev m # zs" using *(1) by simp_all
    moreover have "duplex_hit ident xs" unfolding duplex_hit_def using * Cons calculation(2) by auto
    ultimately show ?thesis using *(3) Cons by auto
  qed
next
  assume "\<exists>ev m. x = EventReceived ev m \<and> (event_reports_duplex ident ev m \<or> duplex_hit ident xs)"
  then obtain ev m where x: "x = EventReceived ev m"
    and "event_reports_duplex ident ev m \<or> duplex_hit ident xs" by blast
  then show "duplex_hit ident (x # xs)"
  proof (elim disjE)
    assume "event_reports_duplex ident ev m"
    then show ?thesis unfolding duplex_hit_def x by (intro exI [of _ "[]"]) auto
  next
    assume "duplex_hit ident xs"
    then obtain ys e n zs where "xs = ys @ EventReceived e n # zs" "event_reports_duplex ident e n"
      "\<forall>y \<in> set ys. \<exists>e m. y = EventReceived e m" unfolding duplex_hit_def by blast
    then show ?thesis unfolding duplex_hit_def x by (intro exI [of _ "EventReceived ev m # ys"]) auto
  qed
qed

lemma duplex_loop_True: "duplex_loop ident xs = Some True \<longleftrightarrow> duplex_hit ident xs"
proof (induction ident xs rule: duplex_loop.induct)
  case (1 ident)
  then show ?case by (simp add: duplex_hit_def)
qed (simp_all add: duplex_hit_Cons)

end
