(* ===== verification/Warp_Requests.thy ===== *)
theory Warp_Requests
  imports Warp_Connection Warp_Grpc Warp_Reception
begin

text \<open>
  The two ends of a transfer together: the worker's operations on one side, the handlers of
  \<open>grpc/warp.rs\<close> on the other, each on its own manager. What an RPC answers is what the handler
  returns on the other manager.
\<close>

section \<open>Transfers in the manager\<close>

lemma get_transfer_add:
  assumes "mg_remotes m ru = Some r" and "get_transfer ru (t_uuid t) m = None"
  shows "\<exists>m'. add_transfer ru t m = (Ok (), m') \<and> get_transfer ru (t_uuid t) m' = Some t
    \<and> mg_remotes m' ru \<noteq> None \<and> mg_fullname m' = mg_fullname m
    \<and> mg_arena m' = mg_arena m"
  using assms by (auto simp: add_transfer_def get_transfer_def find_append has_uuid_def)

lemma keeps_uuid_state [simp]: "keeps_uuid (\<lambda>t. t\<lparr>t_state := f t\<rparr>)"
  "keeps_uuid (copy_processed p)" "keeps_uuid (accept_update d)"
  by (simp_all add: keeps_uuid_def copy_processed_def accept_update_def)

lemma get_transfer_updated:
  assumes "keeps_uuid f" and "get_transfer ru tu m = Some t"
  shows "get_transfer ru tu (snd (update_transfer q ru tu f m)) = Some (f t)"
  using transfers.get_same [OF assms(1), where q = q and k = "(ru, tu)" and s = m] assms(2) by simp

lemma update_transfer_Ok:
  "get_transfer ru tu m = Some t \<Longrightarrow> update_transfer q ru tu f m = (Ok (), snd (update_transfer q ru tu f m))"
  using update_transfer_result [of q ru tu f m] by (simp add: prod_eq_iff)

lemma get_transfer_uuid: "get_transfer ru tu m = Some t \<Longrightarrow> t_uuid t = tu"
  by (auto simp: get_transfer_def has_uuid_def dest!: find_Some_prop split: option.splits)

text \<open>A transfer found by its protocol identifier is the one its UUID names, in a well-formed manager.\<close>

lemma find_unique:
  assumes "distinct (map g xs)" and "x \<in> set xs"
  shows "find (\<lambda>y. g y = g x) xs = Some x"
  using assms by (induction xs) (auto simp: image_iff)

lemma transfer_by_protocol_id_get:
  assumes "mgr_inv m" and "transfer_by_protocol_id ru pid m = Some t"
  shows "t_remote_uuid t = ru \<and> get_transfer ru (t_uuid t) m = Some t \<and> t_protocol_id t = pid"
proof -
  obtain r where r: "mg_remotes m ru = Some r" "find (\<lambda>t. t_protocol_id t = pid) (r_transfers r) = Some t"
    using assms(2) by (auto simp: transfer_by_protocol_id_def split: option.splits)
  have wf: "remote_wf ru r" using mgr_inv_remote [OF assms(1) r(1)] .
  have t: "t \<in> set (r_transfers r)" "t_protocol_id t = pid" using find_Some_prop [OF r(2)] by simp_all
  have "find (has_uuid (t_uuid t)) (r_transfers r) = Some t"
    using find_unique [of t_uuid "r_transfers r" t] wf t(1)
    by (simp add: remote_wf_def has_uuid_def [abs_def])
  then show ?thesis using wf t r(1) by (simp add: remote_wf_def get_transfer_def)
qed

text \<open>The environment of a single task: nothing else runs, the manager lives.\<close>

definition alone :: "shared_env \<Rightarrow> bool" where
  "alone env \<longleftrightarrow> (\<forall>k. se_alive env k) \<and> (\<forall>k m. se_others env k m = m)"

lemma alone_simps:
  assumes "alone env"
  shows "with_manager env k f m = f m"
    "with_client env k i g m = (if worker_client i m = None then (Err NoClient, m) else g m)"
  using assms by (simp_all add: alone_def with_manager_def with_client_def Let_def)

lemma alone_request: "alone (request_shared env) \<longleftrightarrow> (\<forall>k. se_alive env k) \<and> (\<forall>k m. se_others env k m = m)"
  by (simp add: alone_def request_shared_def)

section \<open>Offering a transfer\<close>

definition offered :: "request_env \<Rightarrow> string \<Rightarrow> path list \<Rightarrow> transfer" where
  "offered env uuid paths = transfer_new_outgoing (re_uuid env) (re_now env) uuid paths (re_token env)"

lemma offered_simps [simp]:
  "t_uuid (offered env uuid paths) = u_text (re_uuid env)" "t_state (offered env uuid paths) = Initializing"
  "t_protocol_id (offered env uuid paths) = u_hi (re_uuid env) + u_lo (re_uuid env)"
  by (simp_all add: offered_def transfer_new_outgoing_def)

lemma request_starts:
  assumes "alone (request_shared env)" and "worker_client i m = Some c"
    and "mg_remotes m uuid = Some r" and "get_transfer uuid (u_text (re_uuid env)) m = None"
  shows "\<exists>m1. add_transfer uuid (offered env uuid paths) m = (Ok (), m1) \<and>
    get_transfer uuid (u_text (re_uuid env)) m1 = Some (offered env uuid paths) \<and>
    mg_fullname m1 = mg_fullname m \<and>
    send_transfer_request env uuid i paths m =
      (case re_process env paths (offered env uuid paths) of
         (Ok u, p) \<Rightarrow>
          (case re_answer env of
             Err s \<Rightarrow> (Err (RemoteFailed s), m1)
           | Ok u \<Rightarrow>
               (Ok (Some (transfer_as_proto p (mg_fullname m))),
                snd (update_transfer (se_queued env) uuid (u_text (re_uuid env)) (copy_processed p) m1)))
       | (Err e, p) \<Rightarrow>
           (Err (OperationFailed ''process_paths''),
            snd (update_transfer (se_queued env) uuid (u_text (re_uuid env))
                   (\<lambda>t. t\<lparr>t_state := Failed FailedToProcessFiles\<rparr>) m1)))"
proof -
  let ?t = "offered env uuid paths"
  obtain m1 where m1: "add_transfer uuid ?t m = (Ok (), m1)"
    "get_transfer uuid (u_text (re_uuid env)) m1 = Some ?t" "mg_fullname m1 = mg_fullname m"
    using get_transfer_add [OF assms(3), of ?t] assms(4) by auto
  note ok = update_transfer_Ok [OF m1(2)]
  have "send_transfer_request env uuid i paths m =
      (case re_process env paths ?t of
         (Ok u, p) \<Rightarrow>
          (case re_answer env of
             Err s \<Rightarrow> (Err (RemoteFailed s), m1)
           | Ok u \<Rightarrow>
               try_then (update_or_fail (update_transfer (se_queued env) uuid (t_uuid ?t) (copy_processed p) m1))
                 id (\<lambda>_ m. (Ok (Some (transfer_as_proto p (mg_fullname m))), m)))
       | (Err e, p) \<Rightarrow>
           try_then (update_or_fail (update_transfer (se_queued env) uuid (t_uuid ?t)
                   (\<lambda>t. t\<lparr>t_state := Failed FailedToProcessFiles\<rparr>) m1))
             id (\<lambda>_ m. (Err (OperationFailed ''process_paths''), m)))"
    using assms(2) m1(1)
    by (simp add: send_transfer_request_def alone_simps [OF assms(1)] offered_def update_or_fail_def
        transfer_new_outgoing_def Let_def split: prod.split result.split)
  moreover have "update_or_fail (update_transfer q uuid (u_text (re_uuid env)) f m1) =
      (Ok (), snd (update_transfer q uuid (u_text (re_uuid env)) f m1))" for q f
    unfolding update_or_fail_def by (subst ok) simp
  moreover have "mg_fullname (snd (update_transfer q uuid u f m1)) = mg_fullname m" for q u f
    using m1(3) by simp
  ultimately show ?thesis
    using m1 by (intro exI [of _ m1]) (simp split: prod.splits result.splits)
qed

lemma process_transfer_op_request_Ok:
  assumes "tor_info req = Some info" and "transfer_from_request fresh now req = Return t"
    and "t_uuid t = fresh" and "mg_remotes m (oi_ident info) = Some r"
    and "get_transfer (oi_ident info) fresh m = None"
  shows "\<exists>m'. process_transfer_op_request fresh now req m = (Return (Ok ()), m') \<and>
    get_transfer (oi_ident info) fresh m' = Some t"
proof -
  obtain m' where "add_transfer (oi_ident info) t m = (Ok (), m')"
    "get_transfer (oi_ident info) (t_uuid t) m' = Some t"
    using get_transfer_add [OF assms(4), of t] assms(3,5) by auto
  then show ?thesis using assms by (simp add: process_transfer_op_request_def)
qed

lemma process_paths_real_shape:
  assumes "process_paths_real meta walk mime paths t = (Ok (), p)"
  shows "p = set_source_info (t_total_bytes p, t_file_count p, t_entry_names p)
    (t_single_name p) (t_single_mime_type p) t"
  using assms
proof (cases rule: process_paths_real_cases)
  case (many acc)
  then show ?thesis by (cases acc) simp
qed simp

text \<open>
  C12. Offering a transfer. When the sources can be processed and the remote's handler answers, the
  transfer waits for permission on both sides, the sender's with the sizes and names that
  \<open>process_paths\<close> found, and the receiver's record has the same protocol identifier, total size,
  file count, entry names, single name and MIME type; the receiver's is an incoming transfer filed
  under the sender.
\<close>

theorem offer_reaches_receiver:
  assumes "alone (request_shared env)" and "worker_client i ma = Some c"
    and "mg_remotes ma peer = Some ra" and "get_transfer peer (u_text (re_uuid env)) ma = None"
    and "re_process env paths (offered env peer paths) = (Ok (), p)"
    and "re_process env = process_paths_real meta walk mime"
    and "\<forall>q \<in> set paths. \<forall>n. path_file_name q = Some n \<longrightarrow> n \<noteq> []" and "\<forall>q. mime q \<noteq> []"
    and "re_answer env = Ok ()"
    and "mg_remotes mb (mg_fullname ma) = Some rb" and "get_transfer (mg_fullname ma) fresh mb = None"
  shows "\<exists>req ma' mb' ta tb. send_transfer_request env peer i paths ma = (Ok (Some req), ma') \<and>
    process_transfer_op_request fresh now req mb = (Return (Ok ()), mb') \<and>
    get_transfer peer (u_text (re_uuid env)) ma' = Some ta \<and>
    get_transfer (mg_fullname ma) fresh mb' = Some tb \<and>
    t_state ta = WaitingPermission \<and> ta = p\<lparr>t_state := WaitingPermission\<rparr> \<and>
    tb = ta\<lparr>t_uuid := fresh, t_remote_uuid := mg_fullname ma, t_timestamp := now,
            t_kind := Incoming [RootDir]\<rparr>"
proof -
  let ?t = "offered env peer paths"
  obtain ma1 where 1: "get_transfer peer (u_text (re_uuid env)) ma1 = Some ?t"
    "send_transfer_request env peer i paths ma =
      (Ok (Some (transfer_as_proto p (mg_fullname ma))),
       snd (update_transfer (se_queued env) peer (u_text (re_uuid env)) (copy_processed p) ma1))"
    using request_starts [OF assms(1-4), of paths] assms(5,9) by auto
  let ?req = "transfer_as_proto p (mg_fullname ma)"
  have p: "single_consistent p" and pt: "p = set_source_info (t_total_bytes p, t_file_count p, t_entry_names p)
      (t_single_name p) (t_single_mime_type p) ?t"
    using process_paths_real_consistent [OF _ assms(7,8)] process_paths_real_shape assms(5,6) by metis+
  have ta: "copy_processed p ?t = p\<lparr>t_state := WaitingPermission\<rparr>"
    by (subst (2) pt) (simp add: copy_processed_def set_source_info_def)
  have moved: "t_bytes_transferred p = 0" "t_bytes_per_second p = 0"
    by (subst pt, simp add: set_source_info_def offered_def transfer_new_outgoing_def)+
  let ?tb = "p\<lparr>t_uuid := fresh, t_remote_uuid := mg_fullname ma, t_state := WaitingPermission,
      t_timestamp := now, t_bytes_transferred := 0, t_bytes_per_second := 0,
      t_kind := Incoming [RootDir]\<rparr>"
  have info: "tor_info ?req = Some \<lparr>oi_ident = mg_fullname ma, oi_timestamp = t_protocol_id p,
      oi_readable_name = [], oi_use_compression = False\<rparr>"
    by (simp add: transfer_as_proto_def)
  obtain mb' where 2: "process_transfer_op_request fresh now ?req mb = (Return (Ok ()), mb')"
    "get_transfer (mg_fullname ma) fresh mb' = Some ?tb"
    using process_transfer_op_request_Ok [OF info transfer_from_as_proto [OF p], where fresh = fresh
        and m = mb and r = rb] assms(10,11) by auto
  have "?tb = p\<lparr>t_state := WaitingPermission, t_uuid := fresh, t_remote_uuid := mg_fullname ma,
      t_timestamp := now, t_kind := Incoming [RootDir]\<rparr>"
    using moved by (cases p) simp
  then show ?thesis
    using 1(2) 2 get_transfer_updated [OF _ 1(1), of "copy_processed p" "se_queued env"] ta
    by (intro exI conjI) (assumption | simp)+
qed

text \<open>Two sample managers that know each other.\<close>

definition connected_manager :: manager where
  "connected_manager = set_channel 0 1 known_manager"

definition other_manager :: manager where
  "other_manager = snd (add_remote 2 (remote_new ''me'' (V4 2) 42000 42001 ''me'' ''other'') sample_manager)"

definition sample_request :: request_env where
  "sample_request =
     \<lparr>se_alive = \<lambda>k. True, se_others = \<lambda>k m. m, se_queued = 0,
      re_uuid = \<lparr>u_text = ''u1'', u_hi = 3, u_lo = 4\<rparr>, re_now = 5, re_token = 9,
      re_process = process_paths_real sample_meta sample_walk (\<lambda>_. ''text/plain''),
      re_answer = Ok ()\<rparr>"

lemma connected_manager_facts:
  "worker_client 0 connected_manager = Some 1" "mg_remotes connected_manager ''peer'' = Some sample_remote"
  "get_transfer ''peer'' tu connected_manager = None" "mg_fullname connected_manager = ''me''"
  "mg_remotes other_manager ''me'' = Some (remote_new ''me'' (V4 2) 42000 42001 ''me'' ''other'')"
  "get_transfer ''me'' tu other_manager = None"
proof -
  show "worker_client 0 connected_manager = Some 1"
    by (simp add: connected_manager_def worker_client_def set_channel_def update_worker_def known_manager_facts)
  show r: "mg_remotes connected_manager ''peer'' = Some sample_remote"
    by (simp add: connected_manager_def set_channel_def known_manager_facts)
  show "get_transfer ''peer'' tu connected_manager = None"
    by (simp add: get_transfer_def r) (simp add: sample_remote_def remote_new_def)
  show "mg_fullname connected_manager = ''me''"
    by (simp add: connected_manager_def set_channel_def known_manager_def add_remote_def insert_worker_def
        insert_remote_def announce_remote_def Let_def sample_manager_def manager_new_def sample_user_def)
  show "mg_remotes other_manager ''me'' = Some (remote_new ''me'' (V4 2) 42000 42001 ''me'' ''other'')"
    by (simp add: other_manager_def add_remote_def insert_worker_def insert_remote_def
        announce_remote_def Let_def remote_new_def)
  then show "get_transfer ''me'' tu other_manager = None"
    by (simp add: get_transfer_def remote_new_def)
qed

lemma sample_request_alone: "alone (request_shared sample_request)"
  by (simp add: alone_request sample_request_def)

theorem offer_reaches_receiver_witness:
  "\<exists>req ma' mb' ta tb. send_transfer_request sample_request ''peer'' 0 [[RootDir, Normal ''d'']]
      connected_manager = (Ok (Some req), ma') \<and>
    process_transfer_op_request ''t9'' 6 req other_manager = (Return (Ok ()), mb') \<and>
    get_transfer ''peer'' ''u1'' ma' = Some ta \<and> get_transfer ''me'' ''t9'' mb' = Some tb \<and>
    t_state ta = WaitingPermission \<and> t_total_bytes tb = t_total_bytes ta"
proof -
  obtain p where p: "re_process sample_request [[RootDir, Normal ''d'']]
      (offered sample_request ''peer'' [[RootDir, Normal ''d'']]) = (Ok (), p)"
    by (simp add: sample_request_def process_paths_real_def sample_meta_def sample_walk_def finish_loop_def)
  have "get_transfer ''peer'' (u_text (re_uuid sample_request)) connected_manager = None"
    by (simp add: connected_manager_facts)
  from offer_reaches_receiver [OF sample_request_alone connected_manager_facts(1,2) this p,
      where meta = sample_meta and walk = sample_walk and mime = "\<lambda>_. ''text/plain''" and
        fresh = "''t9''" and now = 6 and mb = other_manager] connected_manager_facts(4-6)
  obtain req ma' mb' ta tb where "send_transfer_request sample_request ''peer'' 0 [[RootDir, Normal ''d'']]
      connected_manager = (Ok (Some req), ma')"
    "process_transfer_op_request ''t9'' 6 req other_manager = (Return (Ok ()), mb')"
    "get_transfer ''peer'' (u_text (re_uuid sample_request)) ma' = Some ta"
    "get_transfer ''me'' ''t9'' mb' = Some tb" "t_state ta = WaitingPermission"
    "tb = ta\<lparr>t_uuid := ''t9'', t_remote_uuid := ''me'', t_timestamp := 6, t_kind := Incoming [RootDir]\<rparr>"
    by (auto simp: sample_request_def path_file_name_def)
  moreover have "u_text (re_uuid sample_request) = ''u1''" by (simp add: sample_request_def)
  ultimately show ?thesis by auto
qed

text \<open>
  A request that the remote does not answer leaves the sender's record stuck: the call returns
  an error, and the transfer, already listed, stays \<open>Initializing\<close> with no sizes.
\<close>

theorem failed_offer_stays_initializing:
  assumes "alone (request_shared env)" and "worker_client i m = Some c"
    and "mg_remotes m peer = Some r" and "get_transfer peer (u_text (re_uuid env)) m = None"
    and "re_process env paths (offered env peer paths) = (Ok (), p)" and "re_answer env = Err s"
  shows "\<exists>m' t. send_transfer_request env peer i paths m = (Err (RemoteFailed s), m') \<and>
    get_transfer peer (u_text (re_uuid env)) m' = Some t \<and> t_state t = Initializing \<and> t_total_bytes t = 0"
  using request_starts [OF assms(1-4), of paths] assms(5,6)
  by (auto simp: offered_def transfer_new_outgoing_def)

theorem failed_offer_witness:
  "\<exists>m' t. send_transfer_request (sample_request\<lparr>re_answer := Err (Status Unavailable ''gone'')\<rparr>) ''peer'' 0
      [[RootDir, Normal ''d'']] connected_manager = (Err (RemoteFailed (Status Unavailable ''gone'')), m') \<and>
    get_transfer ''peer'' (u_text (re_uuid (sample_request\<lparr>re_answer := Err (Status Unavailable ''gone'')\<rparr>))) m'
      = Some t \<and> t_state t = Initializing \<and> t_total_bytes t = 0"
proof -
  let ?env = "sample_request\<lparr>re_answer := Err (Status Unavailable ''gone'')\<rparr>"
  obtain p where p: "re_process ?env [[RootDir, Normal ''d'']]
      (offered ?env ''peer'' [[RootDir, Normal ''d'']]) = (Ok (), p)"
    by (simp add: sample_request_def process_paths_real_def sample_meta_def sample_walk_def finish_loop_def)
  have "alone (request_shared ?env)" by (simp add: alone_request sample_request_def)
  then show ?thesis
    by (rule failed_offer_stays_initializing [OF _ connected_manager_facts(1,2,3) p]) simp
qed

section \<open>Ending a transfer from either side\<close>

text \<open>The request the worker sends: its own full name and the protocol identifier.\<close>

definition op_info_of :: "manager \<Rightarrow> transfer \<Rightarrow> op_info" where
  "op_info_of m t =
     \<lparr>oi_ident = mg_fullname m, oi_timestamp = t_protocol_id t, oi_readable_name = [],
      oi_use_compression = False\<rparr>"

definition incoming :: "transfer \<Rightarrow> bool" where
  "incoming t = (case t_kind t of Incoming d \<Rightarrow> True | Outgoing ps tok \<Rightarrow> False)"

lemma cancel_outgoing_simps [simp]:
  "get_transfer ru tu (cancel_outgoing t m) = get_transfer ru tu m"
  "mg_fullname (cancel_outgoing t m) = mg_fullname m" "mg_remotes (cancel_outgoing t m) = mg_remotes m"
  by (simp_all add: cancel_outgoing_def get_transfer_def split: transfer_kind.splits)

lemma cancel_outgoing_token:
  "t_kind t = Outgoing ps tok \<Longrightarrow> tok \<in> set (mg_cancelled (cancel_outgoing t m))"
  by (simp add: cancel_outgoing_def)

lemma read_transfer_alone:
  "alone env \<Longrightarrow> get_transfer uuid tu m = Some t \<Longrightarrow> read_transfer env k uuid tu m = (Ok t, m)"
  by (simp add: read_transfer_def alone_simps)

lemma update_or_fail_Ok:
  "get_transfer uuid tu m = Some t \<Longrightarrow>
    update_or_fail (update_transfer q uuid tu f m) = (Ok (), snd (update_transfer q uuid tu f m))"
  unfolding update_or_fail_def by (subst update_transfer_Ok) simp_all

text \<open>The local half of a cancellation or a stop, when the remote answered.\<close>

lemma cancel_transfer_done:
  assumes "alone env" and "worker_client i m = Some c" and "get_transfer uuid tu m = Some t"
  shows "\<exists>m'. cancel_transfer env (Ok ()) uuid i tu m = (Ok (), m') \<and>
    get_transfer uuid tu m' = Some (t\<lparr>t_state := cancel_state t\<rparr>) \<and>
    mg_cancelled m' = mg_cancelled (cancel_outgoing t m)"
  using assms get_transfer_updated [OF keeps_uuid_state(1), where m = "cancel_outgoing t m"]
  by (simp add: cancel_transfer_def alone_simps read_transfer_alone update_or_fail_Ok Let_def)

lemma stop_transfer_done:
  assumes "alone env" and "worker_client i m = Some c" and "get_transfer uuid tu m = Some t"
  shows "\<exists>m'. stop_transfer env (Ok ()) uuid i tu m = (Ok (), m') \<and>
    get_transfer uuid tu m' = Some (t\<lparr>t_state := Stopped\<rparr>) \<and>
    mg_cancelled m' = mg_cancelled (cancel_outgoing t m)"
  using assms get_transfer_updated [OF keeps_uuid_state(1), where m = "cancel_outgoing t m"]
  by (simp add: stop_transfer_def alone_simps read_transfer_alone update_or_fail_Ok Let_def)

text \<open>The remote half.\<close>

lemma handle_cancel_done:
  assumes "mgr_inv m" and "transfer_by_protocol_id (oi_ident req) (oi_timestamp req) m = Some t"
    and "t_state t = WaitingPermission"
  shows "\<exists>m'. cancel_transfer_op_request q (\<lambda>m. m) req m = (Ok (), m') \<and>
    get_transfer (oi_ident req) (t_uuid t) m' = Some (t\<lparr>t_state := denied_state t\<rparr>)"
  using assms transfer_by_protocol_id_get [OF assms(1,2)] get_transfer_updated [OF keeps_uuid_state(1)]
  by (simp add: cancel_transfer_op_request_def)

lemma handle_stop_done:
  assumes "mgr_inv m" and "si_info req = Some info"
    and "transfer_by_protocol_id (oi_ident info) (oi_timestamp info) m = Some t"
  shows "\<exists>m'. handle_stop_transfer q (\<lambda>m. m) req m = (Ok (), m') \<and>
    get_transfer (oi_ident info) (t_uuid t) m' = Some (t\<lparr>t_state := stopped_state t (si_error req)\<rparr>) \<and>
    mg_cancelled m' = mg_cancelled (cancel_outgoing t m)"
  using assms transfer_by_protocol_id_get [OF assms(1,3)]
    get_transfer_updated [OF keeps_uuid_state(1), where m = "cancel_outgoing t m"]
  by (simp add: handle_stop_transfer_def)

text \<open>
  Cancelling an offer leaves both sides in the same state, whoever does it: \<open>Denied\<close> when the
  receiver refuses, \<open>Canceled\<close> when the sender withdraws; and the token of the outgoing side that
  cancels is cancelled.
\<close>

theorem cancel_agrees:
  assumes "alone env" and "worker_client i ma = Some c" and "get_transfer peer tu ma = Some ta"
    and "mgr_inv mb" and "transfer_by_protocol_id (mg_fullname ma) (t_protocol_id ta) mb = Some tb"
    and "t_state tb = WaitingPermission" and "incoming ta \<noteq> incoming tb"
  shows "\<exists>answer ma' mb' ta' tb'.
    cancel_transfer_op_request q (\<lambda>m. m) (op_info_of ma ta) mb = (answer, mb') \<and>
    cancel_transfer env answer peer i tu ma = (Ok (), ma') \<and>
    get_transfer peer tu ma' = Some ta' \<and> get_transfer (mg_fullname ma) (t_uuid tb) mb' = Some tb' \<and>
    t_state ta' = t_state tb' \<and> t_state ta' = (if incoming ta then Denied else Canceled) \<and>
    (\<forall>ps tok. t_kind ta = Outgoing ps tok \<longrightarrow> tok \<in> set (mg_cancelled ma'))"
proof -
  obtain mb' where b: "cancel_transfer_op_request q (\<lambda>m. m) (op_info_of ma ta) mb = (Ok (), mb')"
    "get_transfer (mg_fullname ma) (t_uuid tb) mb' = Some (tb\<lparr>t_state := denied_state tb\<rparr>)"
    using handle_cancel_done [OF assms(4), of "op_info_of ma ta"] assms(5,6) by (auto simp: op_info_of_def)
  obtain ma' where a: "cancel_transfer env (Ok ()) peer i tu ma = (Ok (), ma')"
    "get_transfer peer tu ma' = Some (ta\<lparr>t_state := cancel_state ta\<rparr>)"
    "mg_cancelled ma' = mg_cancelled (cancel_outgoing ta ma)"
    using cancel_transfer_done [OF assms(1-3)] by blast
  have "cancel_state ta = denied_state tb" "cancel_state ta = (if incoming ta then Denied else Canceled)"
    using assms(7) by (auto simp: cancel_state_def denied_state_def incoming_def split: transfer_kind.splits)
  then show ?thesis using a b cancel_outgoing_token by fastforce
qed

text \<open>
  Stopping a running transfer from either side: the side that stops shows \<open>Stopped\<close>; the other
  shows \<open>Stopped\<close> if it is the sender and \<open>Canceled\<close> if it is the receiver, or a remote error if the
  stop reports one; and the sender's token is cancelled in both cases, so its stream ends.
\<close>

theorem stop_reaches_sender:
  assumes "alone env" and "worker_client i ma = Some c" and "get_transfer peer tu ma = Some ta"
    and "mgr_inv mb" and "transfer_by_protocol_id (mg_fullname ma) (t_protocol_id ta) mb = Some tb"
    and "incoming ta \<noteq> incoming tb" and "req = \<lparr>si_info = Some (op_info_of ma ta), si_error = err\<rparr>"
  shows "\<exists>answer ma' mb' ta' tb'.
    handle_stop_transfer q (\<lambda>m. m) req mb = (answer, mb') \<and>
    stop_transfer env answer peer i tu ma = (Ok (), ma') \<and>
    get_transfer peer tu ma' = Some ta' \<and> get_transfer (mg_fullname ma) (t_uuid tb) mb' = Some tb' \<and>
    t_state ta' = Stopped \<and>
    t_state tb' = (if err then Failed RemoteError else if incoming tb then Canceled else Stopped) \<and>
    (\<forall>ps tok. t_kind ta = Outgoing ps tok \<longrightarrow> tok \<in> set (mg_cancelled ma')) \<and>
    (\<forall>ps tok. t_kind tb = Outgoing ps tok \<longrightarrow> tok \<in> set (mg_cancelled mb'))"
proof -
  obtain mb' where b: "handle_stop_transfer q (\<lambda>m. m) req mb = (Ok (), mb')"
    "get_transfer (mg_fullname ma) (t_uuid tb) mb' = Some (tb\<lparr>t_state := stopped_state tb err\<rparr>)"
    "mg_cancelled mb' = mg_cancelled (cancel_outgoing tb mb)"
    using handle_stop_done [OF assms(4), of req "op_info_of ma ta"] assms(5,7) by (auto simp: op_info_of_def)
  obtain ma' where a: "stop_transfer env (Ok ()) peer i tu ma = (Ok (), ma')"
    "get_transfer peer tu ma' = Some (ta\<lparr>t_state := Stopped\<rparr>)"
    "mg_cancelled ma' = mg_cancelled (cancel_outgoing ta ma)"
    using stop_transfer_done [OF assms(1-3)] by blast
  have "stopped_state tb err = (if err then Failed RemoteError else if incoming tb then Canceled else Stopped)"
    by (simp add: stopped_state_def incoming_def split: transfer_kind.splits)
  then show ?thesis using a b cancel_outgoing_token by fastforce
qed

lemma mgr_inv_add_remote:
  assumes "mgr_inv m" and "r_transfers r = []"
  shows "mgr_inv (snd (add_remote tok r m))"
proof -
  let ?m1 = "snd (insert_worker tok (r_uuid r) m)"
  have 1: "r_uuid r \<in> dom (mg_workers ?m1)" "length (mg_arena m) < length (mg_arena ?m1)"
    by (simp_all add: insert_worker_def Let_def)
  have "mgr_inv (announce_remote (length (mg_arena m)) (r_uuid r) (insert_remote r ?m1))"
    by (intro mgr_inv_announce_remote mgr_inv_insert_remote mgr_inv_insert_worker assms)
      (use 1 in \<open>auto simp: insert_remote_def\<close>)
  moreover have "snd (add_remote tok r m) =
      announce_remote (length (mg_arena m)) (r_uuid r) (insert_remote r ?m1)"
    by (simp add: add_remote_def insert_worker_def Let_def)
  ultimately show ?thesis by simp
qed

text \<open>A sample pair: the receiver's manager \<open>connected_manager\<close> and the sender's \<open>other_manager\<close>.\<close>

definition receiving_manager :: manager where
  "receiving_manager = snd (add_transfer ''peer'' sample_incoming connected_manager)"

definition sample_outgoing :: transfer where
  "sample_outgoing =
     (transfer_new_outgoing \<lparr>u_text = ''t2'', u_hi = 3, u_lo = 4\<rparr> 5 ''me'' [] 9)
       \<lparr>t_state := WaitingPermission\<rparr>"

definition sending_manager :: manager where
  "sending_manager = snd (add_transfer ''me'' sample_outgoing other_manager)"

lemma sample_pair:
  "worker_client 0 receiving_manager = Some 1"
  "get_transfer ''peer'' ''t1'' receiving_manager = Some sample_incoming"
  "mg_fullname receiving_manager = ''me''" "mgr_inv sending_manager"
  "transfer_by_protocol_id ''me'' 7 sending_manager = Some sample_outgoing"
  "t_protocol_id sample_incoming = 7" "t_state sample_outgoing = WaitingPermission"
  "incoming sample_incoming" "\<not> incoming sample_outgoing" "t_kind sample_outgoing = Outgoing [] 9"
proof -
  have u: "t_uuid sample_incoming = ''t1''" by (simp add: sample_incoming_def transfer_new_outgoing_def)
  obtain m' where m': "add_transfer ''peer'' sample_incoming connected_manager = (Ok (), m')"
    "get_transfer ''peer'' (t_uuid sample_incoming) m' = Some sample_incoming"
    "mg_fullname m' = ''me''" "mg_arena m' = mg_arena connected_manager"
    using get_transfer_add [OF connected_manager_facts(2), of sample_incoming] connected_manager_facts(3,4)
    by auto
  then have r: "receiving_manager = m'" by (simp add: receiving_manager_def)
  show "worker_client 0 receiving_manager = Some 1"
    using connected_manager_facts(1) m'(4) unfolding r worker_client_def by metis
  show "get_transfer ''peer'' ''t1'' receiving_manager = Some sample_incoming"
    "mg_fullname receiving_manager = ''me''"
    using m' u by (simp_all add: r)
  have inv: "mgr_inv other_manager"
    unfolding other_manager_def
    by (rule mgr_inv_add_remote [OF mgr_inv_new [OF sample_manager_new]]) (simp add: remote_new_def)
  show "mgr_inv sending_manager"
    unfolding sending_manager_def
    by (rule mgr_inv_add_transfer [OF inv _ connected_manager_facts(6)]) (simp add: sample_outgoing_def transfer_new_outgoing_def)
  show "transfer_by_protocol_id ''me'' 7 sending_manager = Some sample_outgoing"
    using connected_manager_facts(5)
    by (simp add: sending_manager_def add_transfer_def transfer_by_protocol_id_def remote_new_def
        sample_outgoing_def transfer_new_outgoing_def)
qed (simp_all add: sample_incoming_def sample_outgoing_def transfer_new_outgoing_def incoming_def)

lemma receiving_manager_inv: "mgr_inv receiving_manager"
  unfolding receiving_manager_def
proof (rule mgr_inv_add_transfer [OF _ _ connected_manager_facts(3)])
  have "mgr_inv known_manager"
    unfolding known_manager_def
    by (rule mgr_inv_add_remote [OF mgr_inv_new [OF sample_manager_new]])
      (simp add: sample_remote_def remote_new_def)
  then show "mgr_inv connected_manager"
    unfolding connected_manager_def set_channel_def by (rule mgr_inv_update_worker) simp
qed (simp add: sample_incoming_def transfer_new_outgoing_def)

lemma calm_alone: "alone calm"
  by (simp add: alone_def calm_def)

theorem cancel_agrees_witness:
  "\<exists>answer ma' mb' ta' tb'.
    cancel_transfer_op_request 0 (\<lambda>m. m) (op_info_of receiving_manager sample_incoming) sending_manager
      = (answer, mb') \<and>
    cancel_transfer calm answer ''peer'' 0 ''t1'' receiving_manager = (Ok (), ma') \<and>
    get_transfer ''peer'' ''t1'' ma' = Some ta' \<and> get_transfer ''me'' (t_uuid sample_outgoing) mb' = Some tb' \<and>
    t_state ta' = t_state tb' \<and> t_state ta' = Denied"
proof -
  have "transfer_by_protocol_id (mg_fullname receiving_manager) (t_protocol_id sample_incoming)
      sending_manager = Some sample_outgoing"
    using sample_pair by simp
  moreover have "incoming sample_incoming \<noteq> incoming sample_outgoing" using sample_pair by simp
  ultimately show ?thesis
    using cancel_agrees [OF calm_alone sample_pair(1,2,4) _ sample_pair(7), where q = 0] sample_pair(3,8)
    by auto
qed

theorem stop_reaches_sender_witness:
  "\<exists>answer ma' mb' tb'.
    handle_stop_transfer 0 (\<lambda>m. m)
      \<lparr>si_info = Some (op_info_of receiving_manager sample_incoming), si_error = False\<rparr> sending_manager
      = (answer, mb') \<and>
    stop_transfer calm answer ''peer'' 0 ''t1'' receiving_manager = (Ok (), ma') \<and>
    get_transfer ''me'' (t_uuid sample_outgoing) mb' = Some tb' \<and> t_state tb' = Stopped \<and>
    9 \<in> set (mg_cancelled mb')"
proof -
  have "transfer_by_protocol_id (mg_fullname receiving_manager) (t_protocol_id sample_incoming)
      sending_manager = Some sample_outgoing"
    using sample_pair by simp
  moreover have "incoming sample_incoming \<noteq> incoming sample_outgoing" using sample_pair by simp
  ultimately show ?thesis
    using stop_reaches_sender [OF calm_alone sample_pair(1,2,4) _ _ refl, where q = 0 and err = False]
      sample_pair(3,8,9,10) by auto
qed

section \<open>Starting, and the final word\<close>

text \<open>
  The sender's \<open>start_transfer\<close> does not look at the state of the transfer: whatever it is
  (not yet offered, denied, cancelled, already completed), a peer that names an outgoing transfer
  gets its stream, and the transfer is \<open>InProgress\<close> again.
\<close>

theorem start_ignores_state:
  assumes "mgr_inv m" and "transfer_by_protocol_id (oi_ident req) (oi_timestamp req) m = Some t"
    and "t_kind t = Outgoing ps tok"
  shows "\<exists>m'. start_transfer q (\<lambda>m. m) req m = (Ok (oi_ident req, t_uuid t, ps, tok), m') \<and>
    get_transfer (oi_ident req) (t_uuid t) m' = Some (t\<lparr>t_state := InProgress\<rparr>)"
proof -
  have t: "t_remote_uuid t = oi_ident req" "get_transfer (oi_ident req) (t_uuid t) m = Some t"
    using transfer_by_protocol_id_get [OF assms(1,2)] by simp_all
  let ?f = "\<lambda>t :: transfer. t\<lparr>t_state := InProgress\<rparr>"
  obtain m' where m': "update_transfer q (oi_ident req) (t_uuid t) ?f m = (Ok (), m')"
    using update_transfer_Ok [OF t(2), of q ?f] by (rule that)
  have "get_transfer (oi_ident req) (t_uuid t) (snd (update_transfer q (oi_ident req) (t_uuid t) ?f m))
      = Some (?f t)"
    by (rule get_transfer_updated [OF keeps_uuid_state(1) t(2)])
  then have "get_transfer (oi_ident req) (t_uuid t) m' = Some (?f t)"
    using m' by simp
  with m' show ?thesis using assms(2,3) by (simp add: start_transfer_def t(1))
qed

theorem start_ignores_state_witness:
  "\<exists>m'. start_transfer 0 (\<lambda>m. m) (op_info_of receiving_manager sample_incoming) sending_manager =
      (Ok (oi_ident (op_info_of receiving_manager sample_incoming), t_uuid sample_outgoing, [], 9), m') \<and>
    get_transfer (oi_ident (op_info_of receiving_manager sample_incoming)) (t_uuid sample_outgoing) m' =
      Some (sample_outgoing\<lparr>t_state := InProgress\<rparr>)"
  by (rule start_ignores_state [OF sample_pair(4) _ sample_pair(10)])
    (simp add: op_info_of_def sample_pair)

text \<open>
  The last word on the receiver's side. A stop from the sender that arrives before the final
  update of a reception whose stream has ended survives it, as \<open>Canceled\<close>; but a stop that reports an
  error does not: the final update turns \<open>Failed RemoteError\<close> into \<open>Completed\<close>.
\<close>

theorem error_stop_is_overwritten:
  assumes "receive_stream_inner p xs receive_state_new w = Some (RxOk True, w1)"
    and "mgr_inv (wo_mgr w1)" and "si_info req = Some info"
    and "transfer_by_protocol_id (oi_ident info) (oi_timestamp info) (wo_mgr w1) = Some t"
    and "incoming t"
  shows "\<exists>w' t'. receive_stream p (oi_ident info) (t_uuid t) xs q
      (\<lambda>m. snd (handle_stop_transfer q' (\<lambda>m. m) req m)) w = Some (RxOk True, w') \<and>
    get_transfer (oi_ident info) (t_uuid t) (wo_mgr w') = Some t' \<and>
    t_state t' = (if si_error req then Completed else Canceled)"
proof -
  obtain m' where m': "handle_stop_transfer q' (\<lambda>m. m) req (wo_mgr w1) = (Ok (), m')"
    "get_transfer (oi_ident info) (t_uuid t) m' = Some (t\<lparr>t_state := stopped_state t (si_error req)\<rparr>)"
    using handle_stop_done [OF assms(2-4)] by blast
  have "stopped_state t (si_error req) = (if si_error req then Failed RemoteError else Canceled)"
    using assms(5) by (simp add: stopped_state_def incoming_def split: transfer_kind.splits)
  then have "t_state (finish_receive Completed (t\<lparr>t_state := stopped_state t (si_error req)\<rparr>)) =
      (if si_error req then Completed else Canceled)"
    by (simp add: finish_receive_def)
  then show ?thesis
    using assms(1) m'(1) get_transfer_updated [OF keeps_uuid_finish m'(2)]
    by (simp add: receive_stream_def)
qed

theorem error_stop_witness:
  "\<exists>w' t'. receive_stream (process_chunk_real [RootDir] ''peer'' ''t1'')
      (oi_ident \<lparr>oi_ident = ''peer'', oi_timestamp = 7, oi_readable_name = [], oi_use_compression = False\<rparr>)
      (t_uuid sample_incoming) [RxEnd] 0
      (\<lambda>m. snd (handle_stop_transfer 0 (\<lambda>m. m) \<lparr>si_info = Some \<lparr>oi_ident = ''peer'', oi_timestamp = 7,
        oi_readable_name = [], oi_use_compression = False\<rparr>, si_error = True\<rparr> m))
      \<lparr>wo_mgr = receiving_manager, wo_fs = []\<rparr> = Some (RxOk True, w') \<and>
    get_transfer ''peer'' ''t1'' (wo_mgr w') = Some t' \<and> t_state t' = Completed"
proof -
  let ?info = "\<lparr>oi_ident = ''peer'', oi_timestamp = 7, oi_readable_name = [], oi_use_compression = False\<rparr>"
  let ?w = "\<lparr>wo_mgr = receiving_manager, wo_fs = []\<rparr>"
  have u: "t_uuid sample_incoming = ''t1''" "t_protocol_id sample_incoming = 7"
    by (simp_all add: sample_incoming_def transfer_new_outgoing_def)
  have run: "receive_stream_inner (process_chunk_real [RootDir] ''peer'' ''t1'') [RxEnd] receive_state_new ?w
      = Some (RxOk True, ?w)"
    by (simp add: finish_with_def finalize_current_file_def receive_state_new_def)
  have inv: "mgr_inv (wo_mgr ?w)" by (simp add: receiving_manager_inv)
  have found: "transfer_by_protocol_id (oi_ident ?info) (oi_timestamp ?info) (wo_mgr ?w)
      = Some sample_incoming"
    using connected_manager_facts(2)
    by (simp add: receiving_manager_def add_transfer_def transfer_by_protocol_id_def sample_remote_def
        remote_new_def sample_incoming_def transfer_new_outgoing_def)
  show ?thesis
    using error_stop_is_overwritten [OF run inv _ found sample_pair(8), where q = 0 and q' = 0 and
        req = "\<lparr>si_info = Some ?info, si_error = True\<rparr>"] u by auto
qed

end
