(* ===== verification/Warp_Session.thy ===== *)
theory Warp_Session
  imports Warp_Requests Warp_Sender
begin

text \<open>
  One transfer between two machines, from the offer to the end: a step relation on the pair of
  managers whose steps are the operations of the worker on one side with the handlers they call on
  the other, and the final updates of the two stream tasks. The guards are those of the user
  interface (accept and refuse what waits, stop what runs). Every call runs to its end before the
  next step.
\<close>

section \<open>The two ends\<close>

text \<open>
  The full names of both machines (each files the other under its name), the workers that stand for
  the connection, the UUIDs of the transfer on either side and its common protocol identifier.
\<close>

record link =
  lk_sender :: string
  lk_receiver :: string
  lk_sender_worker :: nat
  lk_receiver_worker :: nat
  lk_sent :: string
  lk_received :: string
  lk_pid :: u64

record session =
  ss_sender :: manager
  ss_receiver :: manager
  ss_sending :: bool
  ss_receiving :: bool

definition sender_transfer :: "link \<Rightarrow> session \<Rightarrow> transfer option" where
  "sender_transfer l s = get_transfer (lk_receiver l) (lk_sent l) (ss_sender s)"

definition receiver_transfer :: "link \<Rightarrow> session \<Rightarrow> transfer option" where
  "receiver_transfer l s = get_transfer (lk_sender l) (lk_received l) (ss_receiver s)"

section \<open>Calls\<close>

text \<open>\<open>cancel_transfer\<close> and \<open>stop_transfer\<close> of one side with the handler of the other.\<close>

definition cancel_call ::
  "shared_env \<Rightarrow> nat \<Rightarrow> string \<Rightarrow> nat \<Rightarrow> string \<Rightarrow> manager \<times> manager \<Rightarrow> manager \<times> manager" where
  "cancel_call env q peer i tu = (\<lambda>(ma, mb).
     case get_transfer peer tu ma of
       None \<Rightarrow> (ma, mb)
     | Some t \<Rightarrow>
        (case cancel_transfer_op_request q (\<lambda>m. m) (op_info_of ma t) mb of
           (answer, mb') \<Rightarrow> (snd (cancel_transfer env answer peer i tu ma), mb')))"

definition stop_call ::
  "shared_env \<Rightarrow> nat \<Rightarrow> bool \<Rightarrow> string \<Rightarrow> nat \<Rightarrow> string \<Rightarrow> manager \<times> manager \<Rightarrow> manager \<times> manager" where
  "stop_call env q err peer i tu = (\<lambda>(ma, mb).
     case get_transfer peer tu ma of
       None \<Rightarrow> (ma, mb)
     | Some t \<Rightarrow>
        (case handle_stop_transfer q (\<lambda>m. m)
                \<lparr>si_info = Some (op_info_of ma t), si_error = err\<rparr> mb of
           (answer, mb') \<Rightarrow> (snd (stop_transfer env answer peer i tu ma), mb')))"

text \<open>\<open>accept_transfer\<close> with the sender's \<open>start_transfer\<close>; each spawns its stream task when it succeeds.\<close>

definition accept_call :: "shared_env \<Rightarrow> nat \<Rightarrow> path \<Rightarrow> link \<Rightarrow> session \<Rightarrow> session" where
  "accept_call env q dest l s =
     (case receiver_transfer l s of
        None \<Rightarrow> s
      | Some t \<Rightarrow>
         (case start_transfer q (\<lambda>m. m) (op_info_of (ss_receiver s) t) (ss_sender s) of
            (started, ms) \<Rightarrow>
              (let answer = (case started of Ok stream \<Rightarrow> Ok () | Err e \<Rightarrow> Err e)
               in case accept_transfer env answer (lk_sender l) (lk_receiver_worker l) (lk_received l) dest
                         (ss_receiver s) of
                    (accepted, mr) \<Rightarrow>
                      s\<lparr>ss_sender := ms, ss_receiver := mr,
                        ss_sending := (case started of Ok stream \<Rightarrow> True | Err e \<Rightarrow> ss_sending s),
                        ss_receiving := (ss_receiving s \<or> accepted = Ok ())\<rparr>)))"

definition update_sent :: "nat \<Rightarrow> (transfer \<Rightarrow> transfer) \<Rightarrow> link \<Rightarrow> session \<Rightarrow> session" where
  "update_sent q f l s =
     s\<lparr>ss_sender := snd (update_transfer q (lk_receiver l) (lk_sent l) f (ss_sender s))\<rparr>"

definition update_received :: "nat \<Rightarrow> (transfer \<Rightarrow> transfer) \<Rightarrow> link \<Rightarrow> session \<Rightarrow> session" where
  "update_received q f l s =
     s\<lparr>ss_receiver := snd (update_transfer q (lk_sender l) (lk_received l) f (ss_receiver s))\<rparr>"

section \<open>Steps\<close>

inductive session_step :: "link \<Rightarrow> session \<Rightarrow> session \<Rightarrow> bool" for l where
  accept: "session_step l s (accept_call env q dest l s)"
    if "alone env" "receiver_transfer l s = Some t" "t_state t = WaitingPermission"
| refuse: "session_step l s (s\<lparr>ss_sender := ms, ss_receiver := mr\<rparr>)"
    if "alone env" "receiver_transfer l s = Some t" "t_state t = WaitingPermission"
      "cancel_call env q (lk_sender l) (lk_receiver_worker l) (lk_received l) (ss_receiver s, ss_sender s) = (mr, ms)"
| withdraw: "session_step l s (s\<lparr>ss_sender := ms, ss_receiver := mr\<rparr>)"
    if "alone env" "sender_transfer l s = Some t" "t_state t = WaitingPermission"
      "cancel_call env q (lk_receiver l) (lk_sender_worker l) (lk_sent l) (ss_sender s, ss_receiver s) = (ms, mr)"
| stop_receiving: "session_step l s (s\<lparr>ss_sender := ms, ss_receiver := mr\<rparr>)"
    if "alone env" "receiver_transfer l s = Some t" "t_state t = InProgress"
      "stop_call env q err (lk_sender l) (lk_receiver_worker l) (lk_received l) (ss_receiver s, ss_sender s) = (mr, ms)"
| stop_sending: "session_step l s (s\<lparr>ss_sender := ms, ss_receiver := mr\<rparr>)"
    if "alone env" "sender_transfer l s = Some t" "t_state t = InProgress"
      "stop_call env q err (lk_receiver l) (lk_sender_worker l) (lk_sent l) (ss_sender s, ss_receiver s) = (ms, mr)"
| chunk_sent: "session_step l s (update_sent q (progress n avg) l s)" if "ss_sending s"
| chunk_received: "session_step l s (update_received q (progress n avg) l s)" if "ss_receiving s"
| sending_ended: "session_step l s ((update_sent q (finish_send (send_final_state r cancelled)) l s)\<lparr>ss_sending := False\<rparr>)"
    if "ss_sending s"
| reception_ended: "session_step l s ((update_received q (finish_receive final) l s)\<lparr>ss_receiving := False\<rparr>)"
    if "ss_receiving s" "rx_final_state r = Some final"

section \<open>One side\<close>

text \<open>A manager in which the transfer is found by its UUID and by its protocol identifier alike.\<close>

definition filed :: "string \<Rightarrow> string \<Rightarrow> string \<Rightarrow> u64 \<Rightarrow> manager \<Rightarrow> transfer \<Rightarrow> bool" where
  "filed name peer tu pid m t \<longleftrightarrow>
     mgr_inv m \<and> mg_fullname m = name \<and> get_transfer peer tu m = Some t \<and>
     transfer_by_protocol_id peer pid m = Some t \<and> t_protocol_id t = pid"

lemma filedD:
  assumes "filed name peer tu pid m t"
  shows "mgr_inv m" "mg_fullname m = name" "get_transfer peer tu m = Some t"
    "transfer_by_protocol_id peer pid m = Some t" "t_protocol_id t = pid" "t_remote_uuid t = peer" "t_uuid t = tu"
  using assms transfer_by_protocol_id_get [of m peer pid t] get_transfer_uuid [of peer tu m t]
  by (auto simp: filed_def)

text \<open>The same, with a client to call the other machine.\<close>

definition holds :: "string \<Rightarrow> string \<Rightarrow> nat \<Rightarrow> string \<Rightarrow> u64 \<Rightarrow> manager \<Rightarrow> transfer \<Rightarrow> bool" where
  "holds name peer i tu pid m t \<longleftrightarrow> filed name peer tu pid m t \<and> worker_client i m \<noteq> None"

lemma holdsD:
  assumes "holds name peer i tu pid m t"
  shows "mgr_inv m" "mg_fullname m = name" "\<exists>c. worker_client i m = Some c" "get_transfer peer tu m = Some t"
    "transfer_by_protocol_id peer pid m = Some t" "t_protocol_id t = pid" "t_remote_uuid t = peer" "t_uuid t = tu"
  using assms filedD by (auto simp: holds_def)

lemma find_upd_first_two:
  "find P xs = Some t \<Longrightarrow> find Q xs = Some t \<Longrightarrow> Q (f t) \<Longrightarrow> find Q (upd_first P f xs) = Some (f t)"
  by (induction xs) (auto split: if_splits dest: find_Some_prop)

lemma worker_client_cong [simp]:
  "worker_client i (snd (update_transfer q ru tu f m)) = worker_client i m"
  "worker_client i (cancel_outgoing t m) = worker_client i m"
  by (simp_all add: worker_client_def cancel_outgoing_def split: transfer_kind.splits)

lemma by_protocol_id_cancel [simp]:
  "transfer_by_protocol_id ru pid (cancel_outgoing t m) = transfer_by_protocol_id ru pid m"
  by (simp add: transfer_by_protocol_id_def)

lemma filed_update:
  assumes h: "filed name peer tu pid m t" and f: "transfer_closure_ok f" "\<And>x. t_protocol_id (f x) = t_protocol_id x"
  shows "filed name peer tu pid (snd (update_transfer q peer tu f m)) (f t)"
proof -
  have k: "keeps_uuid f" using f(1) by (simp add: keeps_uuid_def transfer_closure_ok_def)
  obtain r where r: "mg_remotes m peer = Some r" "find (has_uuid tu) (r_transfers r) = Some t"
    using filedD(3) [OF h] by (auto simp: get_transfer_def split: option.splits)
  have "find (\<lambda>t. t_protocol_id t = pid) (r_transfers r) = Some t"
    using filedD(4) [OF h] r(1) by (simp add: transfer_by_protocol_id_def)
  from find_upd_first_two [OF r(2) this, of f] have
    "transfer_by_protocol_id peer pid (snd (update_transfer q peer tu f m)) = Some (f t)"
    using r(1) f(2) filedD(5) [OF h] by (simp add: transfer_by_protocol_id_def mg_remotes_update_transfer)
  then show ?thesis
    using h get_transfer_updated [OF k filedD(3) [OF h]] mgr_inv_update_transfer [OF filedD(1) [OF h] f(1)] f(2)
    by (simp add: filed_def)
qed

lemma filed_cancel:
  assumes "filed name peer tu pid m t"
  shows "filed name peer tu pid (cancel_outgoing x m) t"
proof -
  have "mgr_inv (cancel_outgoing x m)"
    using filedD(1) [OF assms] mgr_inv_cancel_token by (simp add: cancel_outgoing_def split: transfer_kind.splits)
  then show ?thesis using assms by (simp add: filed_def)
qed

lemma holds_update:
  "holds name peer i tu pid m t \<Longrightarrow> transfer_closure_ok f \<Longrightarrow> (\<And>x. t_protocol_id (f x) = t_protocol_id x) \<Longrightarrow>
    holds name peer i tu pid (snd (update_transfer q peer tu f m)) (f t)"
  by (simp add: holds_def filed_update)

lemma holds_cancel: "holds name peer i tu pid m t \<Longrightarrow> holds name peer i tu pid (cancel_outgoing x m) t"
  by (simp add: holds_def filed_cancel)

lemma state_closure [simp]:
  "transfer_closure_ok (\<lambda>t. t\<lparr>t_state := st\<rparr>)" "transfer_closure_ok (progress n avg)"
  "transfer_closure_ok (finish_send st)" "transfer_closure_ok (finish_receive st)"
  "transfer_closure_ok (accept_update d)"
  by (simp_all add: transfer_closure_ok_def progress_def finish_send_def finish_receive_def
      accept_update_def Let_def)

lemma holds_state:
  "holds name peer i tu pid m t \<Longrightarrow>
    holds name peer i tu pid (snd (update_transfer q peer tu (\<lambda>t. t\<lparr>t_state := st\<rparr>) m)) (t\<lparr>t_state := st\<rparr>)"
  by (rule holds_update) simp_all

text \<open>The local halves: what a worker's operation does when the remote answered.\<close>

lemma cancel_local:
  assumes "alone env" and h: "holds name peer i tu pid m t"
  shows "holds name peer i tu pid (snd (cancel_transfer env (Ok ()) peer i tu m)) (t\<lparr>t_state := cancel_state t\<rparr>)"
proof -
  obtain c where "worker_client i m = Some c" using holdsD(3) [OF h] by blast
  then have "snd (cancel_transfer env (Ok ()) peer i tu m) =
      snd (update_transfer (se_queued env) peer tu (\<lambda>x. x\<lparr>t_state := cancel_state t\<rparr>) (cancel_outgoing t m))"
    using assms(1) holdsD(4) [OF h]
    by (simp add: cancel_transfer_def alone_simps read_transfer_alone update_or_fail_Ok Let_def)
  then show ?thesis using holds_state [OF holds_cancel [OF h]] by simp
qed

lemma stop_local:
  assumes "alone env" and h: "holds name peer i tu pid m t"
  shows "holds name peer i tu pid (snd (stop_transfer env (Ok ()) peer i tu m)) (t\<lparr>t_state := Stopped\<rparr>)"
proof -
  obtain c where "worker_client i m = Some c" using holdsD(3) [OF h] by blast
  then have "snd (stop_transfer env (Ok ()) peer i tu m) =
      snd (update_transfer (se_queued env) peer tu (\<lambda>x. x\<lparr>t_state := Stopped\<rparr>) (cancel_outgoing t m))"
    using assms(1) holdsD(4) [OF h]
    by (simp add: stop_transfer_def alone_simps read_transfer_alone update_or_fail_Ok Let_def)
  then show ?thesis using holds_state [OF holds_cancel [OF h]] by simp
qed

lemma accept_local:
  assumes "alone env" and h: "holds name peer i tu pid m t" and "incoming t"
  shows "\<exists>m'. accept_transfer env (Ok ()) peer i tu dest m = (Ok (), m') \<and>
    holds name peer i tu pid m' (accept_update dest t)"
proof -
  obtain c where "worker_client i m = Some c" using holdsD(3) [OF h] by blast
  then have "accept_transfer env (Ok ()) peer i tu dest m =
      (Ok (), snd (update_transfer (se_queued env) peer tu (accept_update dest) m))"
    using assms(1,3) holdsD(4) [OF h]
    by (simp add: accept_transfer_def alone_simps read_transfer_alone update_or_fail_Ok incoming_def
        split: transfer_kind.splits)
  moreover have "t_protocol_id (accept_update dest x) = t_protocol_id x" for x by (simp add: accept_update_def)
  ultimately show ?thesis using holds_update [OF h state_closure(5)] by simp
qed

text \<open>The remote halves: what the handlers answer and do.\<close>

lemma cancel_remote:
  assumes h: "holds name peer i tu pid m t" and "t_state t = WaitingPermission"
    and "oi_ident req = peer" and "oi_timestamp req = pid"
  shows "\<exists>m'. cancel_transfer_op_request q (\<lambda>m. m) req m = (Ok (), m') \<and>
    holds name peer i tu pid m' (t\<lparr>t_state := denied_state t\<rparr>)"
  using assms holds_state [OF h] holdsD [OF h] by (simp add: cancel_transfer_op_request_def)

lemma stop_remote:
  assumes h: "holds name peer i tu pid m t" and "si_info req = Some info"
    and "oi_ident info = peer" and "oi_timestamp info = pid"
  shows "\<exists>m'. handle_stop_transfer q (\<lambda>m. m) req m = (Ok (), m') \<and>
    holds name peer i tu pid m' (t\<lparr>t_state := stopped_state t (si_error req)\<rparr>)"
  using assms holds_state [OF holds_cancel [OF h]] holdsD [OF h] by (simp add: handle_stop_transfer_def)

lemma start_remote:
  assumes h: "holds name peer i tu pid m t" and "\<not> incoming t"
    and "oi_ident req = peer" and "oi_timestamp req = pid"
  shows "\<exists>stream m'. start_transfer q (\<lambda>m. m) req m = (Ok stream, m') \<and>
    holds name peer i tu pid m' (t\<lparr>t_state := InProgress\<rparr>)"
proof -
  obtain ps tok where k: "t_kind t = Outgoing ps tok"
    using assms(2) by (auto simp: incoming_def split: transfer_kind.splits)
  have ok: "update_transfer q peer tu (\<lambda>t. t\<lparr>t_state := InProgress\<rparr>) m =
      (Ok (), snd (update_transfer q peer tu (\<lambda>t. t\<lparr>t_state := InProgress\<rparr>) m))"
    by (rule update_transfer_Ok [OF holdsD(4) [OF h]])
  show ?thesis
    using assms(3,4) k holdsD [OF h] ok holds_state [OF h, of q InProgress]
    by (auto simp: start_transfer_def split: prod.splits result.splits)
qed

section \<open>Calls between the two sides\<close>

lemma op_info_of_simps [simp]:
  "oi_ident (op_info_of m t) = mg_fullname m" "oi_timestamp (op_info_of m t) = t_protocol_id t"
  by (simp_all add: op_info_of_def)

lemma cancel_call_done:
  assumes "alone env" and a: "holds na nb i ta pid ma x" and b: "holds nb na j tb pid mb y"
    and "t_state y = WaitingPermission" and "cancel_call env q nb i ta (ma, mb) = (ma', mb')"
  shows "holds na nb i ta pid ma' (x\<lparr>t_state := cancel_state x\<rparr>) \<and>
    holds nb na j tb pid mb' (y\<lparr>t_state := denied_state y\<rparr>)"
proof -
  obtain m' where "cancel_transfer_op_request q (\<lambda>m. m) (op_info_of ma x) mb = (Ok (), m')"
    "holds nb na j tb pid m' (y\<lparr>t_state := denied_state y\<rparr>)"
    using cancel_remote [OF b assms(4)] holdsD(2,6) [OF a] by (metis op_info_of_simps)
  then show ?thesis
    using assms(5) holdsD(4) [OF a] cancel_local [OF assms(1) a] by (auto simp: cancel_call_def)
qed

lemma stop_call_done:
  assumes "alone env" and a: "holds na nb i ta pid ma x" and b: "holds nb na j tb pid mb y"
    and "stop_call env q err nb i ta (ma, mb) = (ma', mb')"
  shows "holds na nb i ta pid ma' (x\<lparr>t_state := Stopped\<rparr>) \<and>
    holds nb na j tb pid mb' (y\<lparr>t_state := stopped_state y err\<rparr>)"
proof -
  obtain m' where "handle_stop_transfer q (\<lambda>m. m) \<lparr>si_info = Some (op_info_of ma x), si_error = err\<rparr> mb = (Ok (), m')"
    "holds nb na j tb pid m' (y\<lparr>t_state := stopped_state y err\<rparr>)"
    using stop_remote [OF b, of "\<lparr>si_info = Some (op_info_of ma x), si_error = err\<rparr>" "op_info_of ma x"] holdsD(2,6) [OF a] by auto
  then show ?thesis
    using assms(4) holdsD(4) [OF a] stop_local [OF assms(1) a] by (auto simp: stop_call_def)
qed

definition sender_holds :: "link \<Rightarrow> session \<Rightarrow> transfer \<Rightarrow> bool" where
  "sender_holds l s t \<longleftrightarrow>
     holds (lk_sender l) (lk_receiver l) (lk_sender_worker l) (lk_sent l) (lk_pid l) (ss_sender s) t \<and> \<not> incoming t"

definition receiver_holds :: "link \<Rightarrow> session \<Rightarrow> transfer \<Rightarrow> bool" where
  "receiver_holds l s t \<longleftrightarrow>
     holds (lk_receiver l) (lk_sender l) (lk_receiver_worker l) (lk_received l) (lk_pid l) (ss_receiver s) t \<and> incoming t"

lemma accept_call_done:
  assumes "alone env" and a: "sender_holds l s x" and b: "receiver_holds l s y"
  shows "\<exists>x' y'. sender_holds l (accept_call env q dest l s) x' \<and> receiver_holds l (accept_call env q dest l s) y' \<and>
    t_state x' = InProgress \<and> t_state y' = InProgress \<and>
    ss_sending (accept_call env q dest l s) \<and> ss_receiving (accept_call env q dest l s)"
proof -
  have h: "holds (lk_sender l) (lk_receiver l) (lk_sender_worker l) (lk_sent l) (lk_pid l) (ss_sender s) x" "\<not> incoming x"
    "holds (lk_receiver l) (lk_sender l) (lk_receiver_worker l) (lk_received l) (lk_pid l) (ss_receiver s) y" "incoming y"
    using a b by (simp_all add: sender_holds_def receiver_holds_def)
  have op: "oi_ident (op_info_of (ss_receiver s) y) = lk_receiver l" "oi_timestamp (op_info_of (ss_receiver s) y) = lk_pid l"
    using holdsD(2,6) [OF h(3)] by simp_all
  obtain stream ms where 1: "start_transfer q (\<lambda>m. m) (op_info_of (ss_receiver s) y) (ss_sender s) = (Ok stream, ms)"
    "holds (lk_sender l) (lk_receiver l) (lk_sender_worker l) (lk_sent l) (lk_pid l) ms (x\<lparr>t_state := InProgress\<rparr>)"
    using start_remote [OF h(1,2) op] by blast
  obtain mr where 2: "accept_transfer env (Ok ()) (lk_sender l) (lk_receiver_worker l) (lk_received l) dest (ss_receiver s) = (Ok (), mr)"
    "holds (lk_receiver l) (lk_sender l) (lk_receiver_worker l) (lk_received l) (lk_pid l) mr (accept_update dest y)"
    using accept_local [OF assms(1) h(3,4)] by blast
  have "receiver_transfer l s = Some y" using holdsD(4) [OF h(3)] by (simp add: receiver_transfer_def)
  then have "accept_call env q dest l s =
      s\<lparr>ss_sender := ms, ss_receiver := mr, ss_sending := True, ss_receiving := True\<rparr>"
    using 1(1) 2(1) by (simp add: accept_call_def)
  then show ?thesis
    using 1(2) 2(2) h(2)
    by (intro exI [of _ "x\<lparr>t_state := InProgress\<rparr>"] exI [of _ "accept_update dest y"])
      (simp add: sender_holds_def receiver_holds_def incoming_def accept_update_def)
qed


section \<open>The invariant\<close>

definition is_failure :: "transfer_state \<Rightarrow> bool" where
  "is_failure st = (case st of Failed e \<Rightarrow> True | _ \<Rightarrow> False)"

text \<open>The states a transfer has once it was accepted.\<close>

definition started :: "transfer_state \<Rightarrow> bool" where
  "started st \<longleftrightarrow> st \<in> {InProgress, Completed, Stopped, Canceled} \<or> is_failure st"

text \<open>
  The phase of a transfer, from what both sides show and which stream tasks run: it waits on both,
  or it was refused or withdrawn on both before a task ran, or it was accepted; and then a side that
  shows it in progress has a task.
\<close>

definition agree :: "bool \<Rightarrow> bool \<Rightarrow> transfer_state \<Rightarrow> transfer_state \<Rightarrow> bool" where
  "agree sending receiving a b \<longleftrightarrow>
     (a = WaitingPermission \<and> b = WaitingPermission \<and> \<not> sending \<and> \<not> receiving) \<or>
     (a = b \<and> a \<in> {Denied, Canceled} \<and> \<not> sending \<and> \<not> receiving) \<or>
     (started a \<and> started b \<and> (a = InProgress \<longrightarrow> sending) \<and> (b = InProgress \<longrightarrow> receiving))"

definition session_inv :: "link \<Rightarrow> session \<Rightarrow> bool" where
  "session_inv l s \<longleftrightarrow>
     (\<exists>x y. sender_holds l s x \<and> receiver_holds l s y \<and>
        agree (ss_sending s) (ss_receiving s) (t_state x) (t_state y))"

text \<open>An offer that was answered.\<close>

definition offer_pending :: "link \<Rightarrow> session \<Rightarrow> bool" where
  "offer_pending l s \<longleftrightarrow>
     (\<exists>x y. sender_holds l s x \<and> receiver_holds l s y \<and>
        t_state x = WaitingPermission \<and> t_state y = WaitingPermission) \<and>
     \<not> ss_sending s \<and> \<not> ss_receiving s"

lemma offer_pending_inv: "offer_pending l s \<Longrightarrow> session_inv l s"
  by (auto simp: offer_pending_def session_inv_def agree_def)

lemma session_invI:
  "sender_holds l s x \<Longrightarrow> receiver_holds l s y \<Longrightarrow>
    agree (ss_sending s) (ss_receiving s) (t_state x) (t_state y) \<Longrightarrow> session_inv l s"
  by (auto simp: session_inv_def)

lemma sender_holds_transfer: "sender_holds l s x \<Longrightarrow> sender_transfer l s = Some x"
  by (simp add: sender_holds_def sender_transfer_def holds_def filed_def)

lemma receiver_holds_transfer: "receiver_holds l s y \<Longrightarrow> receiver_transfer l s = Some y"
  by (simp add: receiver_holds_def receiver_transfer_def holds_def filed_def)

lemma incoming_state [simp]: "incoming (t\<lparr>t_state := st\<rparr>) = incoming t"
  by (simp add: incoming_def)

lemma end_states:
  "incoming x \<Longrightarrow> cancel_state x = Denied" "\<not> incoming x \<Longrightarrow> cancel_state x = Canceled"
  "incoming x \<Longrightarrow> denied_state x = Canceled" "\<not> incoming x \<Longrightarrow> denied_state x = Denied"
  "started (stopped_state x err)" "stopped_state x err \<noteq> InProgress"
  "started (send_final_state r c)" "send_final_state r c \<noteq> InProgress"
  by (auto simp: incoming_def cancel_state_def denied_state_def stopped_state_def send_final_state_def
      started_def is_failure_def split: transfer_kind.splits result.splits bool.splits)

lemma rx_final_started: "rx_final_state r = Some st \<Longrightarrow> started st \<and> st \<noteq> InProgress"
  by (cases r rule: rx_final_state.cases) (auto simp: started_def is_failure_def)

lemma started_simps [simp]: "started InProgress" "started Stopped" "\<not> started WaitingPermission" "\<not> started Denied"
  by (simp_all add: started_def is_failure_def)

lemma update_sent_holds:
  assumes "sender_holds l s x" and "transfer_closure_ok f" and "\<And>t. t_protocol_id (f t) = t_protocol_id t"
    and "incoming (f x) = incoming x"
  shows "sender_holds l (update_sent q f l s) (f x)"
  using assms holds_update [of _ _ _ _ _ _ x f] by (simp add: sender_holds_def update_sent_def)

lemma update_received_holds:
  assumes "receiver_holds l s y" and "transfer_closure_ok f" and "\<And>t. t_protocol_id (f t) = t_protocol_id t"
    and "incoming (f y) = incoming y"
  shows "receiver_holds l (update_received q f l s) (f y)"
  using assms holds_update [of _ _ _ _ _ _ y f] by (simp add: receiver_holds_def update_received_def)


section \<open>Every step keeps it\<close>

text \<open>What is known of both sides before a step, and what is to be found afterwards.\<close>

lemma session_invE:
  assumes "session_inv l s"
  obtains x y where "sender_holds l s x" "receiver_holds l s y"
    "sender_transfer l s = Some x" "receiver_transfer l s = Some y"
    "agree (ss_sending s) (ss_receiving s) (t_state x) (t_state y)"
  using assms sender_holds_transfer receiver_holds_transfer by (auto simp: session_inv_def)

lemma agree_waiting:
  "agree sending receiving a b \<Longrightarrow> a = WaitingPermission \<or> b = WaitingPermission \<Longrightarrow>
    a = WaitingPermission \<and> b = WaitingPermission \<and> \<not> sending \<and> \<not> receiving"
  by (auto simp: agree_def)

lemma agree_started:
  "agree sending receiving a b \<Longrightarrow> a = InProgress \<or> b = InProgress \<or> sending \<or> receiving \<Longrightarrow>
    started a \<and> started b \<and> (a = InProgress \<longrightarrow> sending) \<and> (b = InProgress \<longrightarrow> receiving)"
  by (auto simp: agree_def)

lemma holds_pair:
  "sender_holds l (s\<lparr>ss_sender := ms, ss_receiver := mr\<rparr>) x \<longleftrightarrow>
     holds (lk_sender l) (lk_receiver l) (lk_sender_worker l) (lk_sent l) (lk_pid l) ms x \<and> \<not> incoming x"
  "receiver_holds l (s\<lparr>ss_sender := ms, ss_receiver := mr\<rparr>) y \<longleftrightarrow>
     holds (lk_receiver l) (lk_sender l) (lk_receiver_worker l) (lk_received l) (lk_pid l) mr y \<and> incoming y"
  by (simp_all add: sender_holds_def receiver_holds_def)

lemma step_cancel:
  assumes inv: "session_inv l s" and alone: "alone env"
    and waiting: "receiver_transfer l s = Some t \<or> sender_transfer l s = Some t" "t_state t = WaitingPermission"
    and call: "cancel_call env q (lk_sender l) (lk_receiver_worker l) (lk_received l) (ss_receiver s, ss_sender s) = (mr, ms) \<or>
      cancel_call env q' (lk_receiver l) (lk_sender_worker l) (lk_sent l) (ss_sender s, ss_receiver s) = (ms, mr)"
  shows "session_inv l (s\<lparr>ss_sender := ms, ss_receiver := mr\<rparr>)"
proof -
  obtain x y where xy: "sender_holds l s x" "receiver_holds l s y"
    "sender_transfer l s = Some x" "receiver_transfer l s = Some y"
    "agree (ss_sending s) (ss_receiving s) (t_state x) (t_state y)" using inv by (rule session_invE)
  have one: "t_state x = WaitingPermission \<or> t_state y = WaitingPermission"
    using waiting unfolding xy(3,4) by auto
  have w: "t_state x = WaitingPermission" "t_state y = WaitingPermission" "\<not> ss_sending s" "\<not> ss_receiving s"
    using agree_waiting [OF xy(5)] waiting(2) one by blast+
  have h: "\<not> incoming x" "incoming y" using xy(1,2) by (simp_all add: sender_holds_def receiver_holds_def)
  note a = xy(1) [unfolded sender_holds_def, THEN conjunct1] and b = xy(2) [unfolded receiver_holds_def, THEN conjunct1]
  from call show ?thesis
  proof
    assume c: "cancel_call env q (lk_sender l) (lk_receiver_worker l) (lk_received l) (ss_receiver s, ss_sender s) = (mr, ms)"
    from cancel_call_done [OF alone b a w(1) c] show ?thesis
      using h w(3,4)
      by (intro session_invI [of l _ "x\<lparr>t_state := denied_state x\<rparr>" "y\<lparr>t_state := cancel_state y\<rparr>"])
        (simp_all add: holds_pair end_states agree_def)
  next
    assume c: "cancel_call env q' (lk_receiver l) (lk_sender_worker l) (lk_sent l) (ss_sender s, ss_receiver s) = (ms, mr)"
    from cancel_call_done [OF alone a b w(2) c] show ?thesis
      using h w(3,4)
      by (intro session_invI [of l _ "x\<lparr>t_state := cancel_state x\<rparr>" "y\<lparr>t_state := denied_state y\<rparr>"])
        (simp_all add: holds_pair end_states agree_def)
  qed
qed

lemma step_stop:
  assumes inv: "session_inv l s" and alone: "alone env"
    and call: "stop_call env q err (lk_sender l) (lk_receiver_worker l) (lk_received l) (ss_receiver s, ss_sender s) = (mr, ms) \<or>
      stop_call env q' err' (lk_receiver l) (lk_sender_worker l) (lk_sent l) (ss_sender s, ss_receiver s) = (ms, mr)"
  shows "session_inv l (s\<lparr>ss_sender := ms, ss_receiver := mr\<rparr>)"
proof -
  obtain x y where xy: "sender_holds l s x" "receiver_holds l s y"
    "sender_transfer l s = Some x" "receiver_transfer l s = Some y"
    "agree (ss_sending s) (ss_receiving s) (t_state x) (t_state y)" using inv by (rule session_invE)
  have h: "\<not> incoming x" "incoming y" using xy(1,2) by (simp_all add: sender_holds_def receiver_holds_def)
  note a = xy(1) [unfolded sender_holds_def, THEN conjunct1] and b = xy(2) [unfolded receiver_holds_def, THEN conjunct1]
  from call show ?thesis
  proof
    assume c: "stop_call env q err (lk_sender l) (lk_receiver_worker l) (lk_received l) (ss_receiver s, ss_sender s) = (mr, ms)"
    from stop_call_done [OF alone b a c] show ?thesis
      using h by (intro session_invI [of l _ "x\<lparr>t_state := stopped_state x err\<rparr>" "y\<lparr>t_state := Stopped\<rparr>"])
        (simp_all add: holds_pair end_states agree_def)
  next
    assume c: "stop_call env q' err' (lk_receiver l) (lk_sender_worker l) (lk_sent l) (ss_sender s, ss_receiver s) = (ms, mr)"
    from stop_call_done [OF alone a b c] show ?thesis
      using h by (intro session_invI [of l _ "x\<lparr>t_state := Stopped\<rparr>" "y\<lparr>t_state := stopped_state y err'\<rparr>"])
        (simp_all add: holds_pair end_states agree_def)
  qed
qed

text \<open>An update by a stream task: the other side is untouched.\<close>

lemma other_side [simp]:
  "receiver_holds l (update_sent q f l s) y = receiver_holds l s y"
  "sender_holds l (update_received q f l s) x = sender_holds l s x"
  "sender_holds l (s\<lparr>ss_sending := v\<rparr>) x = sender_holds l s x"
  "receiver_holds l (s\<lparr>ss_receiving := v\<rparr>) y = receiver_holds l s y"
  "receiver_holds l (s\<lparr>ss_sending := v\<rparr>) y = receiver_holds l s y"
  "sender_holds l (s\<lparr>ss_receiving := v\<rparr>) x = sender_holds l s x"
  "ss_sending (update_sent q f l s) = ss_sending s" "ss_receiving (update_sent q f l s) = ss_receiving s"
  "ss_sending (update_received q f l s) = ss_sending s" "ss_receiving (update_received q f l s) = ss_receiving s"
  by (simp_all add: receiver_holds_def sender_holds_def update_sent_def update_received_def)

lemma closure_frame [simp]:
  "t_protocol_id (progress n avg t) = t_protocol_id t" "incoming (progress n avg t) = incoming t"
  "t_state (progress n avg t) = t_state t"
  "t_protocol_id (finish_send st t) = t_protocol_id t" "incoming (finish_send st t) = incoming t"
  "t_state (finish_send st t) = st"
  "t_protocol_id (finish_receive st t) = t_protocol_id t" "incoming (finish_receive st t) = incoming t"
  "t_state (finish_receive st t) = (if t_state t = Stopped \<or> t_state t = Canceled then t_state t else st)"
  by (simp_all add: progress_def finish_send_def finish_receive_def incoming_def Let_def)

lemma step_sent:
  assumes inv: "session_inv l s" and running: "ss_sending s"
  shows "session_inv l (update_sent q (progress n avg) l s)"
    "session_inv l ((update_sent q (finish_send (send_final_state r c)) l s)\<lparr>ss_sending := False\<rparr>)"
proof -
  obtain x y where xy: "sender_holds l s x" "receiver_holds l s y"
    and ag: "agree (ss_sending s) (ss_receiving s) (t_state x) (t_state y)"
    using inv by (rule session_invE)
  have st: "started (t_state x)" "started (t_state y)" "t_state y = InProgress \<longrightarrow> ss_receiving s"
    using agree_started [OF ag] running by simp_all
  show "session_inv l (update_sent q (progress n avg) l s)"
    using xy ag update_sent_holds [OF xy(1), of "progress n avg" q]
    by (intro session_invI [of l _ "progress n avg x" y]) simp_all
  show "session_inv l ((update_sent q (finish_send (send_final_state r c)) l s)\<lparr>ss_sending := False\<rparr>)"
    using xy st update_sent_holds [OF xy(1), of "finish_send (send_final_state r c)" q]
    by (intro session_invI [of l _ "finish_send (send_final_state r c) x" y])
      (simp_all add: agree_def end_states)
qed

lemma step_received:
  assumes inv: "session_inv l s" and running: "ss_receiving s" and final: "rx_final_state r = Some st"
  shows "session_inv l ((update_received q (finish_receive st) l s)\<lparr>ss_receiving := False\<rparr>)"
proof -
  obtain x y where xy: "sender_holds l s x" "receiver_holds l s y"
    and ag: "agree (ss_sending s) (ss_receiving s) (t_state x) (t_state y)"
    using inv by (rule session_invE)
  have st: "started (t_state x)" "started (t_state y)" "t_state x = InProgress \<longrightarrow> ss_sending s"
    using agree_started [OF ag] running by simp_all
  show ?thesis
    using xy st rx_final_started [OF final] update_received_holds [OF xy(2), of "finish_receive st" q]
    by (intro session_invI [of l _ x "finish_receive st y"]) (auto simp: agree_def)
qed

lemma step_chunk_received:
  assumes inv: "session_inv l s"
  shows "session_inv l (update_received q (progress n avg) l s)"
proof -
  obtain x y where xy: "sender_holds l s x" "receiver_holds l s y"
    and ag: "agree (ss_sending s) (ss_receiving s) (t_state x) (t_state y)"
    using inv by (rule session_invE)
  then show ?thesis
    using update_received_holds [OF xy(2), of "progress n avg" q]
    by (intro session_invI [of l _ x "progress n avg y"]) simp_all
qed

lemma step_accept:
  assumes inv: "session_inv l s" and alone: "alone env"
  shows "session_inv l (accept_call env q dest l s)"
proof -
  obtain x y where xy: "sender_holds l s x" "receiver_holds l s y" using inv by (rule session_invE)
  from accept_call_done [OF alone xy, of q dest] show ?thesis
    by (auto simp: agree_def intro: session_invI)
qed

lemma session_step_inv: "session_step l s s' \<Longrightarrow> session_inv l s \<Longrightarrow> session_inv l s'"
proof (induction rule: session_step.induct)
  case (accept env s t q dest)
  then show ?case by (intro step_accept)
next
  case (refuse env s t q mr ms)
  show ?case by (rule step_cancel [OF refuse(5,1) _ refuse(3)]) (use refuse(2,4) in auto)
next
  case (withdraw env s t q ms mr)
  show ?case by (rule step_cancel [OF withdraw(5,1) _ withdraw(3)]) (use withdraw(2,4) in auto)
next
  case (stop_receiving env s t q err mr ms)
  show ?case by (rule step_stop [OF stop_receiving(5,1)]) (use stop_receiving(4) in auto)
next
  case (stop_sending env s t q err ms mr)
  show ?case by (rule step_stop [OF stop_sending(5,1)]) (use stop_sending(4) in auto)
qed (auto intro: step_sent step_received step_chunk_received)

interpretation sessions: step_invariant "session_step l" "session_inv l" for l
  by unfold_locales (rule session_step_inv)

lemma agree_facts:
  assumes "agree sending receiving a b"
  shows "(a = WaitingPermission \<longleftrightarrow> b = WaitingPermission) \<and> (a = Denied \<longleftrightarrow> b = Denied) \<and>
    (a \<in> {WaitingPermission, Denied} \<longrightarrow> \<not> sending \<and> \<not> receiving) \<and>
    (a = InProgress \<longrightarrow> sending) \<and> (b = InProgress \<longrightarrow> receiving) \<and> {a, b} \<inter> {Initializing, Paused} = {}"
  using assms unfolding agree_def by (elim disjE) (auto simp: started_def is_failure_def)

section \<open>Properties\<close>


text \<open>The sample pair again, with a client on the sending side as well.\<close>

definition sample_link :: link where
  "sample_link =
     \<lparr>lk_sender = ''peer'', lk_receiver = ''me'', lk_sender_worker = 0, lk_receiver_worker = 0,
      lk_sent = ''t2'', lk_received = ''t1'', lk_pid = 7\<rparr>"

definition sample_session :: session where
  "sample_session =
     \<lparr>ss_sender = set_channel 0 1 (sending_manager\<lparr>mg_fullname := ''peer''\<rparr>),
      ss_receiver = receiving_manager, ss_sending = False, ss_receiving = False\<rparr>"

lemma sample_session_facts:
  "offer_pending sample_link sample_session"
  "receiver_transfer sample_link sample_session = Some sample_incoming"
  "sender_transfer sample_link sample_session = Some sample_outgoing"
proof -
  let ?m = "sending_manager\<lparr>mg_fullname := ''peer''\<rparr>"
  have len: "0 < length (mg_arena sending_manager)"
    by (simp add: sending_manager_def add_transfer_def other_manager_def add_remote_def insert_worker_def
        announce_remote_def insert_remote_def Let_def split: option.split)
  have remotes: "mg_remotes (set_channel 0 1 ?m) = mg_remotes sending_manager"
    by (simp add: set_channel_def)
  have u: "t_uuid sample_outgoing = ''t2''" "t_protocol_id sample_outgoing = 7"
    "t_state sample_incoming = WaitingPermission"
    by (simp_all add: sample_outgoing_def sample_incoming_def transfer_new_outgoing_def)
  have "mgr_inv ?m" using sample_pair(4) by (simp add: mgr_inv_def workers_wf_def)
  then have inv: "mgr_inv (set_channel 0 1 ?m)" unfolding set_channel_def by (rule mgr_inv_update_worker) simp
  have found: "transfer_by_protocol_id ''me'' 7 (set_channel 0 1 ?m) = Some sample_outgoing"
    using sample_pair(5) remotes by (simp add: transfer_by_protocol_id_def)
  have "get_transfer ''me'' ''t2'' (set_channel 0 1 ?m) = Some sample_outgoing"
    using transfer_by_protocol_id_get [OF inv found] u(1) by simp
  moreover have "worker_client 0 (set_channel 0 1 ?m) = Some 1"
    using len by (simp add: worker_client_def set_channel_def update_worker_def)
  moreover have "mg_fullname (set_channel 0 1 ?m) = ''peer''" by (simp add: set_channel_def)
  ultimately have 1: "sender_holds sample_link sample_session sample_outgoing"
    using inv found u(2) sample_pair(9)
    by (simp add: sender_holds_def sample_link_def sample_session_def holds_def filed_def)
  have "transfer_by_protocol_id ''peer'' 7 receiving_manager = Some sample_incoming"
    using connected_manager_facts(2)
    by (simp add: receiving_manager_def add_transfer_def transfer_by_protocol_id_def sample_remote_def
        remote_new_def sample_incoming_def transfer_new_outgoing_def)
  then have 2: "receiver_holds sample_link sample_session sample_incoming"
    using sample_pair(1-3,6,8) receiving_manager_inv
    by (simp add: receiver_holds_def sample_link_def sample_session_def holds_def filed_def)
  show "offer_pending sample_link sample_session"
    using 1 2 u(3) sample_pair(7) by (auto simp: offer_pending_def sample_session_def)
  show "receiver_transfer sample_link sample_session = Some sample_incoming"
    using 2 by (rule receiver_holds_transfer)
  show "sender_transfer sample_link sample_session = Some sample_outgoing"
    using 1 by (rule sender_holds_transfer)
qed


section \<open>How a session ends\<close>

text \<open>Nothing waits and no task runs: no step is possible any more.\<close>

definition session_over :: "link \<Rightarrow> session \<Rightarrow> bool" where
  "session_over l s \<longleftrightarrow> \<not> ss_sending s \<and> \<not> ss_receiving s \<and>
     (\<forall>x. sender_transfer l s = Some x \<or> receiver_transfer l s = Some x \<longrightarrow>
        t_state x \<notin> {WaitingPermission, InProgress})"

inductive_cases session_stepE: "session_step l s s'"

lemma session_over_stuck: "session_over l s \<Longrightarrow> \<not> session_step l s s'"
  by (auto simp: session_over_def elim!: session_stepE)

text \<open>From every state of a run the session can still end: no transfer is stuck.\<close>

lemma tasks_end:
  "\<exists>s'. (session_step l)\<^sup>*\<^sup>* s s' \<and> \<not> ss_sending s' \<and> \<not> ss_receiving s'"
proof -
  let ?sent = "\<lambda>s. (update_sent 0 (finish_send (send_final_state (Ok True) False)) l s)\<lparr>ss_sending := False\<rparr>"
  let ?received = "\<lambda>s. (update_received 0 (finish_receive Completed) l s)\<lparr>ss_receiving := False\<rparr>"
  have 1: "\<exists>s1. (session_step l)\<^sup>*\<^sup>* s s1 \<and> \<not> ss_sending s1"
  proof (cases "ss_sending s")
    case True
    then have "session_step l s (?sent s)" by (rule session_step.sending_ended)
    then have "(session_step l)\<^sup>*\<^sup>* s (?sent s)" by (rule r_into_rtranclp)
    moreover have "\<not> ss_sending (?sent s)" by simp
    ultimately show ?thesis by blast
  qed blast
  then obtain s1 where s1: "(session_step l)\<^sup>*\<^sup>* s s1" "\<not> ss_sending s1" by blast
  show ?thesis
  proof (cases "ss_receiving s1")
    case True
    then have "session_step l s1 (?received s1)"
      by (rule session_step.reception_ended [where r = "RxOk True"]) simp
    with s1(1) have "(session_step l)\<^sup>*\<^sup>* s (?received s1)" by (rule rtranclp.rtrancl_into_rtrancl)
    moreover have "\<not> ss_sending (?received s1)" "\<not> ss_receiving (?received s1)" using s1(2) by simp_all
    ultimately show ?thesis by blast
  qed (use s1 in blast)
qed

lemma refusal_ends:
  assumes inv: "session_inv l s" and idle: "\<not> ss_sending s" "\<not> ss_receiving s" and "alone env"
  shows "\<exists>s'. (session_step l)\<^sup>*\<^sup>* s s' \<and> session_over l s'"
proof -
  obtain x y where xy: "sender_holds l s x" "receiver_holds l s y"
    and tr: "sender_transfer l s = Some x" "receiver_transfer l s = Some y"
    and ag: "agree (ss_sending s) (ss_receiving s) (t_state x) (t_state y)" using inv by (rule session_invE)
  show ?thesis
  proof (cases "t_state y = WaitingPermission")
    case False
    then have "session_over l s"
      using tr idle agree_facts [OF ag] by (auto simp: session_over_def)
    then show ?thesis by blast
  next
    case True
    then have w: "t_state x = WaitingPermission" using agree_facts [OF ag] by simp
    note a = xy(1) [unfolded sender_holds_def, THEN conjunct1] and b = xy(2) [unfolded receiver_holds_def, THEN conjunct1]
    obtain mr ms where c: "cancel_call env 0 (lk_sender l) (lk_receiver_worker l) (lk_received l)
        (ss_receiver s, ss_sender s) = (mr, ms)" by force
    let ?s = "s\<lparr>ss_sender := ms, ss_receiver := mr\<rparr>"
    have "session_step l s ?s" by (rule session_step.refuse [OF assms(4) tr(2) True c])
    moreover have "session_over l ?s"
      using cancel_call_done [OF assms(4) b a w c] xy idle end_states(1,4)
      by (auto simp: session_over_def sender_transfer_def receiver_transfer_def sender_holds_def
          receiver_holds_def dest!: holdsD(4))
    ultimately show ?thesis by blast
  qed
qed

lemma session_can_end:
  assumes "offer_pending l s0" and "(session_step l)\<^sup>*\<^sup>* s0 s" and "alone env"
  shows "\<exists>s'. (session_step l)\<^sup>*\<^sup>* s s' \<and> session_over l s'"
proof -
  obtain s1 where s1: "(session_step l)\<^sup>*\<^sup>* s s1" "\<not> ss_sending s1" "\<not> ss_receiving s1"
    using tasks_end by blast
  have "(session_step l)\<^sup>*\<^sup>* s0 s1" using assms(2) s1(1) by (rule rtranclp_trans)
  then have "session_inv l s1" using offer_pending_inv [OF assms(1)] by (rule sessions.run_kept)
  from refusal_ends [OF this s1(2,3) assms(3)] show ?thesis using s1(1) by (meson rtranclp_trans)
qed

text \<open>
  The final update of the sender's task spares no state, unlike the receiver's: \<open>Stopped\<close>, which the
  stop left on the sender, is replaced when the stream ends.
\<close>

lemma final_updates_differ:
  "t_state (finish_receive final (t\<lparr>t_state := Stopped\<rparr>)) = Stopped"
  "t_state (finish_send final (t\<lparr>t_state := Stopped\<rparr>)) = final"
  by simp_all


text \<open>
  An offer that the receiver accepts before the sender's worker has recorded the answer: the
  recording writes \<open>WaitingPermission\<close> over \<open>InProgress\<close>, while the stream is being sent.
\<close>

definition early_start :: "manager \<Rightarrow> (spawned_stream, status) result \<times> manager" where
  "early_start =
     start_transfer 0 (\<lambda>m. m)
       \<lparr>oi_ident = ''peer'', oi_timestamp = 7, oi_readable_name = [], oi_use_compression = False\<rparr>"

definition early_request :: request_env where
  "early_request = sample_request\<lparr>se_others := \<lambda>k m. if k = 2 then snd (early_start m) else m\<rparr>"

lemma early_accept_is_overwritten:
  "\<exists>m1 stream m2 req m' t.
    get_transfer ''peer'' ''u1'' m1 = Some (offered sample_request ''peer'' [[RootDir, Normal ''d'']]) \<and>
    early_start m1 = (Ok stream, m2) \<and>
    map_option t_state (get_transfer ''peer'' ''u1'' m2) = Some InProgress \<and>
    send_transfer_request early_request ''peer'' 0 [[RootDir, Normal ''d'']] connected_manager = (Ok (Some req), m') \<and>
    get_transfer ''peer'' ''u1'' m' = Some t \<and> t_state t = WaitingPermission"
proof -
  let ?paths = "[[RootDir, Normal ''d'']]"
  let ?t = "offered sample_request ''peer'' ?paths"
  have u: "t_uuid ?t = ''u1''" "t_protocol_id ?t = 7" "t_remote_uuid ?t = ''peer''"
    "\<exists>ps tok. t_kind ?t = Outgoing ps tok"
    by (simp_all add: offered_def transfer_new_outgoing_def sample_request_def)
  obtain m1 where m1: "add_transfer ''peer'' ?t connected_manager = (Ok (), m1)"
    "get_transfer ''peer'' ''u1'' m1 = Some ?t"
    using get_transfer_add [OF connected_manager_facts(2), of ?t] connected_manager_facts(3) u(1) by auto
  have found: "transfer_by_protocol_id ''peer'' 7 m1 = Some ?t"
    using m1(1) connected_manager_facts(2) u(2)
    by (auto simp: add_transfer_def transfer_by_protocol_id_def sample_remote_def remote_new_def)
  let ?f = "\<lambda>t :: transfer. t\<lparr>t_state := InProgress\<rparr>"
  obtain m2 where up: "update_transfer 0 ''peer'' ''u1'' ?f m1 = (Ok (), m2)"
    using update_transfer_Ok [OF m1(2), of 0 ?f] by (rule that)
  have m2: "get_transfer ''peer'' ''u1'' m2 = Some (?f ?t)"
    using get_transfer_updated [OF keeps_uuid_state(1) m1(2), of 0 "\<lambda>_. InProgress"] by (simp add: up)
  obtain stream where start: "early_start m1 = (Ok stream, m2)"
    using found u up by (auto simp: early_start_def start_transfer_def)
  obtain p where p: "re_process sample_request ?paths ?t = (Ok (), p)"
    by (simp add: sample_request_def process_paths_real_def sample_meta_def sample_walk_def finish_loop_def)
  let ?m3 = "snd (update_transfer 0 ''peer'' ''u1'' (copy_processed p) m2)"
  have "send_transfer_request early_request ''peer'' 0 ?paths connected_manager =
      (Ok (Some (transfer_as_proto p (mg_fullname ?m3))), ?m3)"
    using m1(1) p start u(1) connected_manager_facts(1) update_or_fail_Ok [OF m2]
    by (simp add: send_transfer_request_def early_request_def request_shared_def with_client_def
        with_manager_def sample_request_def offered_def update_or_fail_def Let_def)
  moreover have "get_transfer ''peer'' ''u1'' ?m3 = Some (copy_processed p (?t\<lparr>t_state := InProgress\<rparr>))"
    by (rule get_transfer_updated [OF keeps_uuid_state(2) m2])
  moreover have "t_state (copy_processed p x) = WaitingPermission" for x by (simp add: copy_processed_def)
  ultimately show ?thesis using m1(2) start m2 by (intro exI conjI) (assumption | simp)+
qed

end
