(* ===== verification/Warp_Sections.thy ===== *)
theory Warp_Sections
  imports Warp_Session "HOL-Library.Multiset"
begin

text \<open>
  The operations that end or start a transfer (\<open>accept_transfer\<close>, \<open>cancel_transfer\<close>,
  \<open>stop_transfer\<close> of \<open>remote_worker.rs\<close>, and the handlers of \<open>grpc/warp.rs\<close> they call), cut where
  they give up the locks: the caller reads, the handler reads, the handler writes, the caller
  writes. Every operation of the model is shown to be its sections with whatever other tasks do in
  between.
\<close>

section \<open>Calls and sections\<close>

datatype call_kind = AcceptCall path | CancelCall | StopCall bool

text \<open>The caller: its client, the transfer, the check of the direction, the token.\<close>

definition caller_read ::
  "call_kind \<Rightarrow> nat \<Rightarrow> string \<Rightarrow> string \<Rightarrow> manager \<Rightarrow> (transfer, worker_error) result \<times> manager" where
  "caller_read c i peer tu m =
     (if worker_client i m = None then (Err NoClient, m)
      else case get_transfer peer tu m of
             None \<Rightarrow> (Err TransferNotFound, m)
           | Some t \<Rightarrow>
              (case c of
                 AcceptCall d \<Rightarrow>
                  (case t_kind t of
                     Outgoing ps tok \<Rightarrow> (Err (IllegalOperation ''Cannot accept an outgoing transfer''), m)
                   | Incoming d \<Rightarrow> (Ok t, m))
               | CancelCall \<Rightarrow> (Ok t, cancel_outgoing t m)
               | StopCall err \<Rightarrow> (Ok t, cancel_outgoing t m)))"

definition handler_read ::
  "call_kind \<Rightarrow> op_info \<Rightarrow> manager \<Rightarrow> (transfer, status) result \<times> manager" where
  "handler_read c req m =
     (case transfer_by_protocol_id (oi_ident req) (oi_timestamp req) m of
        None \<Rightarrow> (Err (Status NotFound ''Transfer not found''), m)
      | Some t \<Rightarrow>
         (case c of
            AcceptCall d \<Rightarrow>
             (case t_kind t of
                Incoming d \<Rightarrow> (Err (Status InvalidArgument ''Cannot start an incoming transfer''), m)
              | Outgoing ps tok \<Rightarrow> (Ok t, m))
          | CancelCall \<Rightarrow>
             (if t_state t = WaitingPermission then (Ok t, m)
              else (Err (Status FailedPrecondition
                      ''Can only cancel transfers that are waiting for permission''), m))
          | StopCall err \<Rightarrow> (Ok t, cancel_outgoing t m)))"

text \<open>What the handler and the caller write, from the transfer they read.\<close>

definition handler_update :: "call_kind \<Rightarrow> transfer \<Rightarrow> transfer \<Rightarrow> transfer" where
  "handler_update c t x =
     (case c of
        AcceptCall d \<Rightarrow> x\<lparr>t_state := InProgress\<rparr>
      | CancelCall \<Rightarrow> x\<lparr>t_state := denied_state t\<rparr>
      | StopCall err \<Rightarrow> x\<lparr>t_state := stopped_state t err\<rparr>)"

definition handler_write ::
  "nat \<Rightarrow> call_kind \<Rightarrow> transfer \<Rightarrow> manager \<Rightarrow> (unit, status) result \<times> manager" where
  "handler_write q c t m =
     (case update_transfer q (t_remote_uuid t) (t_uuid t) (handler_update c t) m of
        (Ok u, m') \<Rightarrow> (Ok (), m')
      | (Err e, m') \<Rightarrow>
         (case c of
            AcceptCall d \<Rightarrow> (Err (Status Internal ''Failed to update transfer state''), m')
          | CancelCall \<Rightarrow> (Ok (), m')
          | StopCall err \<Rightarrow> (Ok (), m')))"

definition caller_update :: "call_kind \<Rightarrow> transfer \<Rightarrow> transfer \<Rightarrow> transfer" where
  "caller_update c t x =
     (case c of
        AcceptCall d \<Rightarrow> accept_update d x
      | CancelCall \<Rightarrow> x\<lparr>t_state := cancel_state t\<rparr>
      | StopCall err \<Rightarrow> x\<lparr>t_state := Stopped\<rparr>)"

definition caller_write ::
  "nat \<Rightarrow> call_kind \<Rightarrow> string \<Rightarrow> string \<Rightarrow> transfer \<Rightarrow> manager \<Rightarrow> (unit, worker_error) result \<times> manager" where
  "caller_write q c peer tu t m = update_or_fail (update_transfer q peer tu (caller_update c t) m)"

section \<open>The operations are their sections\<close>

text \<open>The handlers.\<close>

lemma start_transfer_sections:
  "start_transfer q others req m =
     (case handler_read (AcceptCall d) req m of
        (Err e, m) \<Rightarrow> (Err e, m)
      | (Ok t, m) \<Rightarrow>
         (case handler_write q (AcceptCall d) t (others m) of
            (Err e, m) \<Rightarrow> (Err e, m)
          | (Ok u, m) \<Rightarrow>
             (Ok (t_remote_uuid t, t_uuid t,
                  (case t_kind t of Outgoing ps tok \<Rightarrow> ps | Incoming d \<Rightarrow> []),
                  (case t_kind t of Outgoing ps tok \<Rightarrow> tok | Incoming d \<Rightarrow> 0)), m)))"
  by (simp add: start_transfer_def handler_read_def handler_write_def handler_update_def [abs_def]
      split: option.split transfer_kind.split prod.split result.split)

lemma cancel_handler_sections:
  "cancel_transfer_op_request q others req m =
     (case handler_read CancelCall req m of
        (Err e, m) \<Rightarrow> (Err e, m)
      | (Ok t, m) \<Rightarrow> handler_write q CancelCall t (others m))"
  by (simp add: cancel_transfer_op_request_def handler_read_def handler_write_def handler_update_def [abs_def]
      split: option.split prod.split result.split)

lemma stop_handler_sections:
  assumes "si_info req = Some info"
  shows "handle_stop_transfer q others req m =
     (case handler_read (StopCall (si_error req)) info m of
        (Err e, m) \<Rightarrow> (Err e, m)
      | (Ok t, m) \<Rightarrow> handler_write q (StopCall (si_error req)) t (others m))"
  using assms
  by (simp add: handle_stop_transfer_def handler_read_def handler_write_def handler_update_def [abs_def]
      split: option.split prod.split result.split)

text \<open>
  The worker's operations, with a manager that lives: the tasks in between are those of the
  environment, before the first section, between the two, and before the return.
\<close>

definition caller_sections ::
  "call_kind \<Rightarrow> shared_env \<Rightarrow> (unit, status) result \<Rightarrow> string \<Rightarrow> nat \<Rightarrow> string \<Rightarrow> manager
    \<Rightarrow> (unit, worker_error) result \<times> manager" where
  "caller_sections c env answer peer i tu m =
     (case caller_read c i peer tu (se_others env 0 m) of
        (Err e, m) \<Rightarrow> (Err e, m)
      | (Ok t, m) \<Rightarrow>
         (case answer of
            Err s \<Rightarrow> (Err (RemoteFailed s), m)
          | Ok u \<Rightarrow> caller_write (se_queued env) c peer tu t (se_others env 2 m)))"

text \<open>Between the client and the transfer no other task runs: both belong to the first section.\<close>

definition first_section :: "shared_env \<Rightarrow> bool" where
  "first_section env \<longleftrightarrow> (\<forall>k. se_alive env k) \<and> (\<forall>m. se_others env 1 m = m) \<and> (\<forall>m. se_others env 3 m = m)"

lemma caller_sections:
  assumes "first_section env"
  shows "cancel_transfer env answer peer i tu m = caller_sections CancelCall env answer peer i tu m"
    and "stop_transfer env answer peer i tu m = caller_sections (StopCall err) env answer peer i tu m"
    and "accept_transfer env answer peer i tu d m = caller_sections (AcceptCall d) env answer peer i tu m"
proof -
  note defs = caller_sections_def caller_read_def caller_write_def caller_update_def [abs_def] with_client_def
    with_manager_def read_transfer_def Let_def
  have env: "se_alive env k" "se_others env (Suc 0) m = m" "se_others env 3 m = m" for k m
    using assms by (simp_all add: first_section_def)
  show "cancel_transfer env answer peer i tu m = caller_sections CancelCall env answer peer i tu m"
    by (simp add: defs cancel_transfer_def env split: option.split result.split)
  show "stop_transfer env answer peer i tu m = caller_sections (StopCall err) env answer peer i tu m"
    by (simp add: defs stop_transfer_def env split: option.split result.split)
  have alive: "with_manager env 3 f = f" for f :: "manager \<Rightarrow> (unit, worker_error) result \<times> manager"
    by (rule ext) (simp add: with_manager_def env)
  have "try_then x id (\<lambda>_ m. (Ok (), m)) = x" for x :: "(unit, worker_error) result \<times> manager"
    by (cases x; cases "fst x") (auto simp: try_then_def)
  then show "accept_transfer env answer peer i tu d m = caller_sections (AcceptCall d) env answer peer i tu m"
    using alive by (simp add: defs accept_transfer_def env split: option.split result.split transfer_kind.split)
qed

end
