(* ===== verification/Warp_Interleaving.thy ===== *)
theory Warp_Interleaving
  imports Warp_Sections
begin

text \<open>
  One transfer between two machines with every call cut into its atomic sections: any number of
  calls of either side in flight at once, each stopped anywhere while others go on, requests and
  answers that get lost, and every other operation of either manager in between. No guard restricts
  when a user accepts, refuses, cancels or stops.
\<close>

section \<open>The two sides\<close>

datatype side = Sending | Receiving

fun opposite :: "side \<Rightarrow> side" where
  "opposite Sending = Receiving"
| "opposite Receiving = Sending"

fun lk_own :: "link \<Rightarrow> side \<Rightarrow> string" where
  "lk_own l Sending = lk_sender l"
| "lk_own l Receiving = lk_receiver l"

fun lk_worker :: "link \<Rightarrow> side \<Rightarrow> nat" where
  "lk_worker l Sending = lk_sender_worker l"
| "lk_worker l Receiving = lk_receiver_worker l"

fun lk_uuid :: "link \<Rightarrow> side \<Rightarrow> string" where
  "lk_uuid l Sending = lk_sent l"
| "lk_uuid l Receiving = lk_received l"

abbreviation lk_peer :: "link \<Rightarrow> side \<Rightarrow> string" where
  "lk_peer l a \<equiv> lk_own l (opposite a)"

text \<open>
  A call in flight, with what its task has read: the request is on its way; the handler has read
  its transfer and has not yet written; the answer is on its way. A handler that reads and refuses
  answers at once.
\<close>

datatype call =
    Requested side call_kind transfer
  | Handling side call_kind transfer transfer
  | Answered side call_kind transfer "(unit, status) result"

fun after_read :: "side \<Rightarrow> call_kind \<Rightarrow> transfer \<Rightarrow> (transfer, status) result \<Rightarrow> call" where
  "after_read a c t (Ok u) = Handling a c t u"
| "after_read a c t (Err e) = Answered a c t (Err e)"

text \<open>
  The managers, the number of running stream tasks on each side, the calls, and whether an answer
  was lost after its handler had written, or a reception panicked.
\<close>

record network =
  nw_manager :: "side \<Rightarrow> manager"
  nw_tasks :: "side \<Rightarrow> nat"
  nw_calls :: "call multiset"
  nw_lost :: bool
  nw_panicked :: bool

definition nw_transfer :: "link \<Rightarrow> network \<Rightarrow> side \<Rightarrow> transfer option" where
  "nw_transfer l s a = get_transfer (lk_peer l a) (lk_uuid l a) (nw_manager s a)"

text \<open>A successful \<open>start_transfer\<close> and a successful \<open>accept_transfer\<close> spawn a task.\<close>

definition spawned :: "call_kind \<Rightarrow> ('a, 'b) result \<Rightarrow> nat \<Rightarrow> nat" where
  "spawned c r n = (case (c, r) of (AcceptCall d, Ok u) \<Rightarrow> Suc n | _ \<Rightarrow> n)"

definition task_update :: "nat \<Rightarrow> (transfer \<Rightarrow> transfer) \<Rightarrow> link \<Rightarrow> side \<Rightarrow> network \<Rightarrow> network" where
  "task_update q f l a s =
     s\<lparr>nw_manager := (nw_manager s)
        (a := snd (update_transfer q (lk_peer l a) (lk_uuid l a) f (nw_manager s a)))\<rparr>"

text \<open>The operations of a manager that are not about this transfer.\<close>

fun elsewhere :: "string \<Rightarrow> string \<Rightarrow> mgr_op \<Rightarrow> bool" where
  "elsewhere peer tu (InsertRemote r) \<longleftrightarrow> r_uuid r \<noteq> peer"
| "elsewhere peer tu (UpdateTransfer q ru u f) \<longleftrightarrow>
     (ru, u) \<noteq> (peer, tu) \<and> (\<forall>t. t_protocol_id (f t) = t_protocol_id t)"
| "elsewhere peer tu (RemoveTransfer ru u) \<longleftrightarrow> (ru, u) \<noteq> (peer, tu)"
| "elsewhere peer tu e \<longleftrightarrow> True"

section \<open>Steps\<close>

inductive network_step :: "link \<Rightarrow> network \<Rightarrow> network \<Rightarrow> bool" for l where
  began: "network_step l s
      (s\<lparr>nw_manager := (nw_manager s)(a := m), nw_calls := add_mset (Requested a c t) (nw_calls s)\<rparr>)"
    if "caller_read c (lk_worker l a) (lk_peer l a) (lk_uuid l a) (nw_manager s a) = (Ok t, m)"
| delivered: "network_step l s
      (s\<lparr>nw_manager := (nw_manager s)(opposite a := m), nw_calls := add_mset (after_read a c t r) cs\<rparr>)"
    if "nw_calls s = add_mset (Requested a c t) cs"
      "handler_read c (op_info_of (nw_manager s a) t) (nw_manager s (opposite a)) = (r, m)"
| handled: "network_step l s
      (s\<lparr>nw_manager := (nw_manager s)(opposite a := m), nw_calls := add_mset (Answered a c t r) cs,
         nw_tasks := (nw_tasks s)(opposite a := spawned c r (nw_tasks s (opposite a)))\<rparr>)"
    if "nw_calls s = add_mset (Handling a c t u) cs"
      "handler_write q c u (nw_manager s (opposite a)) = (r, m)"
| concluded: "network_step l s
      (s\<lparr>nw_manager := (nw_manager s)(a := m), nw_calls := cs,
         nw_tasks := (nw_tasks s)(a := spawned c r (nw_tasks s a))\<rparr>)"
    if "nw_calls s = add_mset (Answered a c t (Ok ())) cs"
      "caller_write q c (lk_peer l a) (lk_uuid l a) t (nw_manager s a) = (r, m)"
| failed: "network_step l s (s\<lparr>nw_calls := cs\<rparr>)"
    if "nw_calls s = add_mset (Answered a c t (Err e)) cs"
| request_lost: "network_step l s (s\<lparr>nw_calls := cs\<rparr>)"
    if "nw_calls s = add_mset (Requested a c t) cs"
| handler_dropped: "network_step l s (s\<lparr>nw_calls := cs\<rparr>)"
    if "nw_calls s = add_mset (Handling a c t u) cs"
| answer_lost: "network_step l s (s\<lparr>nw_calls := cs, nw_lost := True\<rparr>)"
    if "nw_calls s = add_mset (Answered a c t (Ok ())) cs"
| chunk: "network_step l s (task_update q (progress n avg) l a s)"
    if "0 < nw_tasks s a"
| sending_ended: "network_step l s
      ((task_update q (finish_send (send_final_state r cancelled)) l Sending s)
         \<lparr>nw_tasks := (nw_tasks s)(Sending := nw_tasks s Sending - 1)\<rparr>)"
    if "0 < nw_tasks s Sending"
| reception_ended: "network_step l s
      ((task_update q (finish_receive final) l Receiving s)
         \<lparr>nw_tasks := (nw_tasks s)(Receiving := nw_tasks s Receiving - 1)\<rparr>)"
    if "0 < nw_tasks s Receiving" "rx_final_state r = Some final"
| reception_panicked: "network_step l s
      (s\<lparr>nw_tasks := (nw_tasks s)(Receiving := nw_tasks s Receiving - 1), nw_panicked := True\<rparr>)"
    if "0 < nw_tasks s Receiving"
| elsewhere: "network_step l s (s\<lparr>nw_manager := (nw_manager s)(a := mgr_step e (nw_manager s a))\<rparr>)"
    if "op_ok e (nw_manager s a)" "elsewhere (lk_peer l a) (lk_uuid l a) e"

section \<open>What the rest of the program leaves alone\<close>

lemma opposite_simps [simp]: "opposite (opposite a) = a" "opposite a \<noteq> a" "a \<noteq> opposite a"
  by (cases a; simp)+

lemma side_cases: "b = a \<or> b = opposite a"
  by (cases a; cases b) simp_all

definition on_side :: "link \<Rightarrow> side \<Rightarrow> manager \<Rightarrow> transfer \<Rightarrow> bool" where
  "on_side l a m t \<longleftrightarrow> filed (lk_own l a) (lk_peer l a) (lk_uuid l a) (lk_pid l) m t"

lemma find_map_first:
  assumes "find P ts = Some t" "t_uuid t \<noteq> u"
    and "\<And>x. P (f x) = P x"
  shows "find P (upd_first (has_uuid u) f ts) = Some t"
  using assms by (induction ts) (auto simp: has_uuid_def split: if_splits)

lemma find_delete_first:
  assumes "find P ts = Some t" "t_uuid t \<noteq> u"
  shows "find P (del_first (has_uuid u) ts) = Some t"
  using assms by (induction ts) (auto simp: has_uuid_def split: if_splits)

text \<open>What such an operation can do to the transfers that this one is filed among.\<close>

inductive kept_first :: "string \<Rightarrow> transfer list \<Rightarrow> transfer list \<Rightarrow> bool" where
  appended: "kept_first tu ts (ts @ new)"
| updated: "kept_first tu ts (upd_first (has_uuid u) f ts)"
    if "u \<noteq> tu" "\<And>t. t_protocol_id (f t) = t_protocol_id t" "\<And>t. t_uuid (f t) = t_uuid t"
| removed: "kept_first tu ts (del_first (has_uuid u) ts)" if "u \<noteq> tu"

lemma kept_first_same [simp]: "kept_first tu ts ts" "kept_first tu ts (ts @ new)"
  using kept_first.appended [of tu ts "[]"] by (simp_all add: kept_first.appended)

lemma elsewhere_transfers:
  assumes e: "op_ok e m" "elsewhere peer tu e" and r: "mg_remotes m peer = Some r"
  shows "\<exists>r'. mg_remotes (mgr_step e m) peer = Some r' \<and> kept_first tu (r_transfers r) (r_transfers r')"
proof (cases e)
  case (InsertRemote x)
  then show ?thesis using r e by (simp add: insert_remote_def put_remote_def)
next
  case (UpdateRemote u f)
  then show ?thesis
    using r e by (auto simp: update_remote_def remote_closure_ok_def split: option.split)
next
  case (AddTransfer ru t)
  then show ?thesis using r by (auto simp: add_transfer_def split: option.split)
next
  case (UpdateTransfer q ru u f)
  show ?thesis
  proof (cases "ru = peer")
    case True
    then have "kept_first tu (r_transfers r) (upd_first (has_uuid u) f (r_transfers r))"
      using e UpdateTransfer by (intro kept_first.updated) (auto simp: transfer_closure_ok_def)
    then show ?thesis using r True UpdateTransfer by (simp add: mg_remotes_update_transfer)
  qed (use r UpdateTransfer in \<open>simp add: mg_remotes_update_transfer\<close>)
next
  case (RemoveTransfer ru u)
  show ?thesis
  proof (cases "ru = peer")
    case True
    then have "kept_first tu (r_transfers r) (del_first (has_uuid u) (r_transfers r))"
      using e RemoveTransfer by (intro kept_first.removed) auto
    then show ?thesis
      using r True RemoveTransfer by (auto simp: remove_transfer_def split: option.split)
  qed (use r RemoveTransfer in \<open>auto simp: remove_transfer_def split: option.split\<close>)
next
  case (AddMessage ru x)
  then show ?thesis using r by (auto simp: add_message_def split: option.split)
next
  case (RemoveMessage ru mu)
  then show ?thesis using r by (auto simp: remove_message_def split: option.split)
qed (use r in \<open>simp_all add: insert_worker_def announce_remote_def Let_def\<close>)

lemma kept_first_find:
  assumes "kept_first tu ts ts'" and "find P ts = Some t" and "t_uuid t = tu"
    and P: "\<And>x y. t_protocol_id x = t_protocol_id y \<Longrightarrow> t_uuid x = t_uuid y \<Longrightarrow> P x = P y"
  shows "find P ts' = Some t"
  using assms(1)
proof cases
  case (appended new)
  then show ?thesis using assms(2) by (simp add: find_append)
next
  case (updated u f)
  then have "P (f x) = P x" for x by (intro P) simp_all
  then show ?thesis using updated(1,2) assms(2,3) find_map_first [of P ts t u f] by simp
next
  case (removed u)
  then show ?thesis using assms(2,3) find_delete_first [of P ts t u] by simp
qed

lemma mg_fullname_step [simp]: "mg_fullname (mgr_step e m) = mg_fullname m"
  by (cases e)
    (simp_all add: insert_worker_def insert_remote_def announce_remote_def add_transfer_def remove_transfer_def
      add_message_def remove_message_def Let_def split: option.split)

lemma filed_elsewhere:
  assumes h: "filed name peer tu pid m t" and e: "op_ok e m" "elsewhere peer tu e"
  shows "filed name peer tu pid (mgr_step e m) t"
proof -
  obtain r where r: "mg_remotes m peer = Some r" "find (has_uuid tu) (r_transfers r) = Some t"
    "find (\<lambda>t. t_protocol_id t = pid) (r_transfers r) = Some t"
    using filedD(3,4) [OF h] by (auto simp: get_transfer_def transfer_by_protocol_id_def split: option.splits)
  obtain r' where r': "mg_remotes (mgr_step e m) peer = Some r'" "kept_first tu (r_transfers r) (r_transfers r')"
    using elsewhere_transfers [OF e r(1)] by blast
  have "find (has_uuid tu) (r_transfers r') = Some t" "find (\<lambda>t. t_protocol_id t = pid) (r_transfers r') = Some t"
    using kept_first_find [OF r'(2) _ filedD(7) [OF h]] r(2,3) by (simp_all add: has_uuid_def)
  then show ?thesis
    using h r'(1) mgr_step_inv [OF filedD(1) [OF h] e(1)]
    by (simp add: filed_def get_transfer_def transfer_by_protocol_id_def)
qed

end
