(* ===== verification/Warp_Settled.thy ===== *)
theory Warp_Settled
  imports Warp_Interleaving
begin

text \<open>
  What every interleaving of the sections of a transfer keeps: the type of the transfer on both
  sides, that a side in progress has a task, and the agreement that holds once the calls are over.
\<close>

section \<open>Types\<close>

text \<open>
  What an offer fixes: identifiers, sizes and names on both sides; on the sender also the sources and
  the token, on the receiver the direction.
\<close>

definition offer_data ::
  "transfer \<Rightarrow> string \<times> string \<times> u64 \<times> u64 \<times> u64 \<times> u64 \<times> string list \<times> string option \<times> string option" where
  "offer_data t =
     (t_uuid t, t_remote_uuid t, t_protocol_id t, t_timestamp t, t_total_bytes t, t_file_count t,
      t_entry_names t, t_single_name t, t_single_mime_type t)"

fun kind_on :: "side \<Rightarrow> transfer_kind \<Rightarrow> transfer_kind \<Rightarrow> bool" where
  "kind_on Sending k0 k \<longleftrightarrow> k = k0 \<and> (\<exists>ps tok. k = Outgoing ps tok)"
| "kind_on Receiving k0 k \<longleftrightarrow> (\<exists>d. k = Incoming d)"

definition typed :: "side \<Rightarrow> transfer \<Rightarrow> transfer \<Rightarrow> bool" where
  "typed a t0 t \<longleftrightarrow>
     offer_data t = offer_data t0 \<and> kind_on a (t_kind t0) (t_kind t) \<and> t_state t \<notin> {Initializing, Paused}"

fun call_typed :: "(side \<Rightarrow> transfer) \<Rightarrow> call \<Rightarrow> bool" where
  "call_typed t0 (Requested a c t) \<longleftrightarrow> typed a (t0 a) t \<and> (\<forall>d. c = AcceptCall d \<longrightarrow> a = Receiving)"
| "call_typed t0 (Handling a c t u) \<longleftrightarrow>
     typed a (t0 a) t \<and> (\<forall>d. c = AcceptCall d \<longrightarrow> a = Receiving) \<and> typed (opposite a) (t0 (opposite a)) u"
| "call_typed t0 (Answered a c t r) \<longleftrightarrow> typed a (t0 a) t \<and> (\<forall>d. c = AcceptCall d \<longrightarrow> a = Receiving)"

definition waiting :: "transfer \<Rightarrow> bool" where
  "waiting t \<longleftrightarrow> t_state t = WaitingPermission"

text \<open>The closures the sections apply keep the type, end the waiting, and start only with a task.\<close>

lemma typed_incoming:
  "typed Receiving t0 t \<Longrightarrow> \<exists>d. t_kind t = Incoming d"
  "typed Sending t0 t \<Longrightarrow> \<exists>ps tok. t_kind t = Outgoing ps tok"
  by (auto simp: typed_def) metis

definition ended_state :: "transfer_state \<Rightarrow> bool" where
  "ended_state st \<longleftrightarrow> st \<notin> {Initializing, Paused, WaitingPermission, InProgress}"

lemma written_ended [simp]:
  "ended_state (cancel_state t)" "ended_state (denied_state t)" "ended_state (stopped_state t err)"
  "ended_state (send_final_state r c)" "ended_state Stopped" "ended_state Canceled"
  by (simp_all add: ended_state_def cancel_state_def denied_state_def stopped_state_def send_final_state_def
      split: transfer_kind.split result.split bool.split)

lemma rx_final_ended [simp]: "rx_final_state r = Some st \<Longrightarrow> ended_state st"
  by (cases r rule: rx_final_state.cases) (auto simp: ended_state_def)

lemma handler_update_facts:
  "transfer_closure_ok (handler_update c u)" "t_protocol_id (handler_update c u x) = t_protocol_id x"
  "offer_data (handler_update c u x) = offer_data x" "t_kind (handler_update c u x) = t_kind x"
  "(\<exists>d. c = AcceptCall d) \<and> t_state (handler_update c u x) = InProgress \<or> ended_state (t_state (handler_update c u x))"
  by (cases c; simp add: transfer_closure_ok_def handler_update_def offer_data_def)+

lemma caller_update_facts:
  "transfer_closure_ok (caller_update c u)" "t_protocol_id (caller_update c u x) = t_protocol_id x"
  "offer_data (caller_update c u x) = offer_data x"
  "t_kind (caller_update c u x) = (case c of AcceptCall d \<Rightarrow> Incoming d | _ \<Rightarrow> t_kind x)"
  "(\<exists>d. c = AcceptCall d) \<and> t_state (caller_update c u x) = InProgress \<or> ended_state (t_state (caller_update c u x))"
  by (cases c; simp add: transfer_closure_ok_def caller_update_def accept_update_def offer_data_def)+

lemma task_update_facts:
  "offer_data (progress n avg x) = offer_data x" "t_kind (progress n avg x) = t_kind x"
  "offer_data (finish_send st x) = offer_data x" "t_kind (finish_send st x) = t_kind x"
  "offer_data (finish_receive st x) = offer_data x" "t_kind (finish_receive st x) = t_kind x"
  by (simp_all add: progress_def finish_send_def finish_receive_def offer_data_def Let_def)

lemma finish_ended:
  "ended_state (t_state (finish_send (send_final_state r c) x))"
  "rx_final_state q = Some st \<Longrightarrow> ended_state (t_state (finish_receive st x))"
  by simp_all

section \<open>The protocol alone\<close>

text \<open>
  Only who still waits, the calls and the loss of answers matter for the agreement: an answer that
  says yes comes from a side that no longer waits, and a side that waits alone is about to get one.
\<close>

definition agreement :: "(side \<Rightarrow> bool) \<Rightarrow> call multiset \<Rightarrow> bool \<Rightarrow> bool" where
  "agreement w calls lost \<longleftrightarrow>
     (\<forall>a c t. Answered a c t (Ok ()) \<in># calls \<longrightarrow> \<not> w (opposite a)) \<and>
     (\<forall>a. w a \<and> \<not> w (opposite a) \<longrightarrow> lost \<or> (\<exists>c t. Answered a c t (Ok ()) \<in># calls))"

lemma all_sides: "(\<forall>a. P a) \<longleftrightarrow> P Sending \<and> P Receiving"
  by (metis side.exhaust)

lemma agreement_requested: "agreement w cs lost \<Longrightarrow> agreement w (add_mset (Requested a c t) cs) lost"
  by (auto simp: agreement_def)

lemma agreement_read:
  "agreement w (add_mset (Requested a c t) cs) lost \<Longrightarrow> agreement w (add_mset (after_read a c t r) cs) lost"
  by (cases r) (auto simp: agreement_def)

lemma agreement_handled:
  "agreement w (add_mset (Handling a c t u) cs) lost \<Longrightarrow>
    agreement (w(opposite a := False)) (add_mset (Answered a c t (Ok ())) cs) lost"
  by (cases a) (auto simp: agreement_def all_sides)

lemma agreement_concluded:
  "agreement w (add_mset (Answered a c t (Ok ())) cs) lost \<Longrightarrow> agreement (w(a := False)) cs lost"
  by (cases a) (auto simp: agreement_def all_sides)

lemma agreement_dropped:
  "agreement w (add_mset (Answered a c t (Err e)) cs) lost \<Longrightarrow> agreement w cs lost"
  "agreement w (add_mset (Requested a c t) cs) lost \<Longrightarrow> agreement w cs lost"
  "agreement w (add_mset (Handling a c t u) cs) lost \<Longrightarrow> agreement w cs lost"
  "agreement w (add_mset (Answered a c t r) cs) lost \<Longrightarrow> agreement w cs True"
  by (auto simp: agreement_def)

lemma agreement_settled: "agreement w {#} False \<Longrightarrow> w Sending = w Receiving"
  by (auto simp: agreement_def all_sides)

section \<open>The invariant\<close>

text \<open>
  One side: its transfer is filed and typed, no task runs while it waits, and a task runs while it is
  in progress, unless the reception panicked.
\<close>

definition side_ok :: "link \<Rightarrow> (side \<Rightarrow> transfer) \<Rightarrow> bool \<Rightarrow> side \<Rightarrow> manager \<Rightarrow> nat \<Rightarrow> transfer \<Rightarrow> bool" where
  "side_ok l t0 panicked a m n x \<longleftrightarrow>
     on_side l a m x \<and> typed a (t0 a) x \<and> (waiting x \<longrightarrow> n = 0) \<and>
     (t_state x = InProgress \<longrightarrow> 0 < n \<or> (a = Receiving \<and> panicked))"

definition network_inv :: "link \<Rightarrow> (side \<Rightarrow> transfer) \<Rightarrow> network \<Rightarrow> bool" where
  "network_inv l t0 s \<longleftrightarrow>
     (\<exists>x. (\<forall>a. side_ok l t0 (nw_panicked s) a (nw_manager s a) (nw_tasks s a) (x a)) \<and>
        (\<forall>c \<in># nw_calls s. call_typed t0 c) \<and>
        agreement (\<lambda>a. waiting (x a)) (nw_calls s) (nw_lost s))"

lemma network_invI:
  assumes "\<And>a. side_ok l t0 (nw_panicked s) a (nw_manager s a) (nw_tasks s a) (x a)"
    and "\<And>c. c \<in># nw_calls s \<Longrightarrow> call_typed t0 c"
    and "agreement (\<lambda>a. waiting (x a)) (nw_calls s) (nw_lost s)"
  shows "network_inv l t0 s"
  using assms by (auto simp: network_inv_def)

lemma network_invE:
  assumes "network_inv l t0 s"
  obtains x where "\<And>a. side_ok l t0 (nw_panicked s) a (nw_manager s a) (nw_tasks s a) (x a)"
    "\<And>c. c \<in># nw_calls s \<Longrightarrow> call_typed t0 c"
    "agreement (\<lambda>a. waiting (x a)) (nw_calls s) (nw_lost s)"
  using assms by (auto simp: network_inv_def)

text \<open>Writing to the transfer of one side.\<close>

lemma on_side_update:
  "on_side l a m x \<Longrightarrow> transfer_closure_ok f \<Longrightarrow> (\<And>y. t_protocol_id (f y) = t_protocol_id y) \<Longrightarrow>
    on_side l a (snd (update_transfer q (lk_peer l a) (lk_uuid l a) f m)) (f x)"
  by (simp add: on_side_def filed_update)

lemma on_side_found: "on_side l a m x \<Longrightarrow> get_transfer (lk_peer l a) (lk_uuid l a) m = Some x"
  by (simp add: on_side_def filed_def)

lemma typed_names:
  assumes "on_side l a m x" and "typed a t0 x" and "typed a t0 u"
  shows "t_remote_uuid u = lk_peer l a" "t_uuid u = lk_uuid l a"
  using assms filedD(6,7) unfolding on_side_def typed_def offer_data_def by auto

lemma side_handled:
  assumes x: "side_ok l t0 p a m n x" and u: "typed a (t0 a) u"
    and c: "\<forall>d. c = AcceptCall d \<longrightarrow> a = Sending" and w: "handler_write q c u m = (r, m')"
  shows "r = Ok () \<and> side_ok l t0 p a m' (spawned c r n) (handler_update c u x) \<and> \<not> waiting (handler_update c u x)"
proof -
  have side: "on_side l a m x" "typed a (t0 a) x" using x by (simp_all add: side_ok_def)
  have "update_transfer q (t_remote_uuid u) (t_uuid u) (handler_update c u) m =
      (Ok (), snd (update_transfer q (lk_peer l a) (lk_uuid l a) (handler_update c u) m))"
    using update_transfer_Ok [OF on_side_found [OF side(1)]] typed_names [OF side u] by simp
  then have r: "r = Ok ()" "m' = snd (update_transfer q (lk_peer l a) (lk_uuid l a) (handler_update c u) m)"
    using w by (simp_all add: handler_write_def)
  have "on_side l a m' (handler_update c u x)"
    unfolding r(2) using side(1) handler_update_facts(1,2) by (rule on_side_update)
  then show ?thesis
    using side(2) r(1) x handler_update_facts(3,4) [of c u x] handler_update_facts(5) [of c u x]
    by (auto simp: side_ok_def typed_def ended_state_def waiting_def spawned_def split: call_kind.split)
qed

lemma side_concluded:
  assumes x: "side_ok l t0 p a m n x" and c: "\<forall>d. c = AcceptCall d \<longrightarrow> a = Receiving"
    and w: "caller_write q c (lk_peer l a) (lk_uuid l a) u m = (r, m')"
  shows "side_ok l t0 p a m' (spawned c r n) (caller_update c u x) \<and> \<not> waiting (caller_update c u x)"
proof -
  have side: "on_side l a m x" "typed a (t0 a) x" using x by (simp_all add: side_ok_def)
  have r: "r = Ok ()" "m' = snd (update_transfer q (lk_peer l a) (lk_uuid l a) (caller_update c u) m)"
    using w update_or_fail_Ok [OF on_side_found [OF side(1)]] by (simp_all add: caller_write_def)
  have "on_side l a m' (caller_update c u x)"
    unfolding r(2) using side(1) caller_update_facts(1,2) by (rule on_side_update)
  moreover have "kind_on a (t_kind (t0 a)) (t_kind (caller_update c u x))"
    using side(2) c caller_update_facts(4) [of c u x] by (cases c) (auto simp: typed_def)
  ultimately show ?thesis
    using side(2) r(1) x caller_update_facts(3) [of c u x] caller_update_facts(5) [of c u x]
    by (auto simp: side_ok_def typed_def ended_state_def waiting_def spawned_def split: call_kind.split)
qed

text \<open>What the callers and the handlers read.\<close>

lemma side_began:
  assumes x: "side_ok l t0 p a m n x" and r: "caller_read c i (lk_peer l a) (lk_uuid l a) m = (Ok t, m')"
  shows "t = x \<and> side_ok l t0 p a m' n x \<and> (\<forall>d. c = AcceptCall d \<longrightarrow> a = Receiving)"
proof -
  have side: "on_side l a m x" "typed a (t0 a) x" using x by (simp_all add: side_ok_def)
  have "on_side l a (cancel_outgoing x m) x" using side(1) by (simp add: on_side_def filed_cancel)
  then have "t = x \<and> on_side l a m' x \<and> (\<forall>d. c = AcceptCall d \<longrightarrow> (\<exists>d. t_kind x = Incoming d))"
    using r on_side_found [OF side(1)] side(1)
    by (auto simp: caller_read_def split: if_splits call_kind.splits transfer_kind.splits)
  moreover have "a = Receiving" if "t_kind x = Incoming d" for d
    using that side(2) typed_incoming(2) [of "t0 a" x] by (cases a) auto
  ultimately show ?thesis using x by (auto simp: side_ok_def)
qed

lemma side_read:
  assumes x: "side_ok l t0 p a m n x" and r: "handler_read c req m = (r, m')"
    and req: "oi_ident req = lk_peer l a" "oi_timestamp req = lk_pid l"
  shows "side_ok l t0 p a m' n x \<and> (\<forall>u. r = Ok u \<longrightarrow> u = x)"
proof -
  have side: "on_side l a m x" using x by (simp add: side_ok_def)
  then have found: "transfer_by_protocol_id (oi_ident req) (oi_timestamp req) m = Some x"
    using req by (simp add: on_side_def filed_def)
  have "on_side l a (cancel_outgoing x m) x" using side by (simp add: on_side_def filed_cancel)
  then have "on_side l a m' x \<and> (\<forall>u. r = Ok u \<longrightarrow> u = x)"
    using r found side
    by (auto simp: handler_read_def split: if_splits call_kind.splits transfer_kind.splits)
  then show ?thesis using x by (simp add: side_ok_def)
qed

section \<open>Every step keeps it\<close>

text \<open>One side changes, the other is as it was.\<close>

lemma both_sides_updated:
  assumes "\<And>a. side_ok l t0 p a (m a) (n a) (x a)" and "side_ok l t0 p b m' n' y"
  shows "side_ok l t0 p a ((m(b := m')) a) ((n(b := n')) a) ((x(b := y)) a)"
  using assms by simp

lemma waiting_updated:
  "\<not> waiting y \<Longrightarrow> (\<lambda>a. waiting ((x(b := y)) a)) = (\<lambda>a. waiting (x a))(b := False)"
  by (simp add: fun_eq_iff)

lemma step_began:
  assumes inv: "network_inv l t0 s"
    and r: "caller_read c i (lk_peer l a) (lk_uuid l a) (nw_manager s a) = (Ok t, m)"
  shows "network_inv l t0
    (s\<lparr>nw_manager := (nw_manager s)(a := m), nw_calls := add_mset (Requested a c t) (nw_calls s)\<rparr>)"
proof -
  obtain x where x: "\<And>a. side_ok l t0 (nw_panicked s) a (nw_manager s a) (nw_tasks s a) (x a)"
    and calls: "\<And>c. c \<in># nw_calls s \<Longrightarrow> call_typed t0 c"
    and agr: "agreement (\<lambda>a. waiting (x a)) (nw_calls s) (nw_lost s)" using inv by (rule network_invE) auto
  have b: "t = x a" "side_ok l t0 (nw_panicked s) a m (nw_tasks s a) (x a)" "\<forall>d. c = AcceptCall d \<longrightarrow> a = Receiving"
    using side_began [OF x r] by auto
  then have "call_typed t0 (Requested a c t)" using x [of a] by (simp add: side_ok_def)
  then show ?thesis
    using x b calls agreement_requested [OF agr] by (intro network_invI [where x = x]) auto
qed

lemma step_delivered:
  assumes inv: "network_inv l t0 s" and cs: "nw_calls s = add_mset (Requested a c t) cs"
    and r: "handler_read c (op_info_of (nw_manager s a) t) (nw_manager s (opposite a)) = (r, m)"
  shows "network_inv l t0
    (s\<lparr>nw_manager := (nw_manager s)(opposite a := m), nw_calls := add_mset (after_read a c t r) cs\<rparr>)"
proof -
  obtain x where x: "\<And>a. side_ok l t0 (nw_panicked s) a (nw_manager s a) (nw_tasks s a) (x a)"
    and calls: "\<And>c. c \<in># nw_calls s \<Longrightarrow> call_typed t0 c"
    and agr: "agreement (\<lambda>a. waiting (x a)) (nw_calls s) (nw_lost s)" using inv by (rule network_invE) auto
  have t: "typed a (t0 a) t" "\<forall>d. c = AcceptCall d \<longrightarrow> a = Receiving" using calls [of "Requested a c t"] cs by simp_all
  have xa: "on_side l a (nw_manager s a) (x a)" "typed a (t0 a) (x a)" using x [of a] by (simp_all add: side_ok_def)
  then have "t_protocol_id t = lk_pid l"
    using t(1) filedD(5) [of _ _ _ _ _ "x a"] unfolding on_side_def typed_def offer_data_def by auto
  then have req: "oi_ident (op_info_of (nw_manager s a) t) = lk_peer l (opposite a)"
    "oi_timestamp (op_info_of (nw_manager s a) t) = lk_pid l"
    using xa(1) by (simp_all add: on_side_def filed_def)
  note b = side_read [OF x [of "opposite a"] r req]
  have "typed (opposite a) (t0 (opposite a)) (x (opposite a))" using x by (simp add: side_ok_def)
  then have "call_typed t0 (after_read a c t r)" using b t by (cases r) auto
  then show ?thesis
    using x b calls agr agreement_read cs by (intro network_invI [where x = x]) auto
qed

lemma step_handled:
  assumes inv: "network_inv l t0 s" and cs: "nw_calls s = add_mset (Handling a c t u) cs"
    and w: "handler_write q c u (nw_manager s (opposite a)) = (r, m)"
  shows "network_inv l t0
    (s\<lparr>nw_manager := (nw_manager s)(opposite a := m), nw_calls := add_mset (Answered a c t r) cs,
       nw_tasks := (nw_tasks s)(opposite a := spawned c r (nw_tasks s (opposite a)))\<rparr>)"
proof -
  obtain x where x: "\<And>a. side_ok l t0 (nw_panicked s) a (nw_manager s a) (nw_tasks s a) (x a)"
    and calls: "\<And>c. c \<in># nw_calls s \<Longrightarrow> call_typed t0 c"
    and agr: "agreement (\<lambda>a. waiting (x a)) (nw_calls s) (nw_lost s)" using inv by (rule network_invE) auto
  have t: "typed a (t0 a) t" "\<forall>d. c = AcceptCall d \<longrightarrow> a = Receiving"
    "typed (opposite a) (t0 (opposite a)) u" using calls [of "Handling a c t u"] cs by simp_all
  have "\<forall>d. c = AcceptCall d \<longrightarrow> opposite a = Sending" using t(2) by auto
  from side_handled [OF x t(3) this w]
  have h: "r = Ok ()" "side_ok l t0 (nw_panicked s) (opposite a) m (spawned c r (nw_tasks s (opposite a)))
      (handler_update c u (x (opposite a)))" "\<not> waiting (handler_update c u (x (opposite a)))" by blast+
  have "agreement ((\<lambda>a. waiting (x a))(opposite a := False)) (add_mset (Answered a c t r) cs) (nw_lost s)"
    using agreement_handled agr unfolding cs h(1) by blast
  then show ?thesis
    using both_sides_updated [OF x h(2)] calls t waiting_updated [OF h(3), of x] cs
    by (intro network_invI [where x = "x(opposite a := handler_update c u (x (opposite a)))"]) auto
qed

lemma step_concluded:
  assumes inv: "network_inv l t0 s" and cs: "nw_calls s = add_mset (Answered a c t (Ok ())) cs"
    and w: "caller_write q c (lk_peer l a) (lk_uuid l a) t (nw_manager s a) = (r, m)"
  shows "network_inv l t0
    (s\<lparr>nw_manager := (nw_manager s)(a := m), nw_calls := cs,
       nw_tasks := (nw_tasks s)(a := spawned c r (nw_tasks s a))\<rparr>)"
proof -
  obtain x where x: "\<And>a. side_ok l t0 (nw_panicked s) a (nw_manager s a) (nw_tasks s a) (x a)"
    and calls: "\<And>c. c \<in># nw_calls s \<Longrightarrow> call_typed t0 c"
    and agr: "agreement (\<lambda>a. waiting (x a)) (nw_calls s) (nw_lost s)" using inv by (rule network_invE) auto
  have t: "\<forall>d. c = AcceptCall d \<longrightarrow> a = Receiving" using calls [of "Answered a c t (Ok ())"] cs by simp
  note h = side_concluded [OF x t w]
  have "agreement ((\<lambda>a. waiting (x a))(a := False)) cs (nw_lost s)"
    using agreement_concluded agr unfolding cs by blast
  then show ?thesis
    using both_sides_updated [OF x conjunct1 [OF h]] calls waiting_updated [OF conjunct2 [OF h], of x] cs
    by (intro network_invI [where x = "x(a := caller_update c t (x a))"]) auto
qed

text \<open>Calls that end without a write.\<close>

lemma step_dropped:
  assumes inv: "network_inv l t0 s" and cs: "nw_calls s = add_mset c cs"
    and d: "\<And>w. agreement w (add_mset c cs) (nw_lost s) \<Longrightarrow> agreement w cs lost"
  shows "network_inv l t0 (s\<lparr>nw_calls := cs, nw_lost := lost\<rparr>)"
  using inv
proof (rule network_invE)
  fix x
  assume "\<And>a. side_ok l t0 (nw_panicked s) a (nw_manager s a) (nw_tasks s a) (x a)"
    "\<And>c. c \<in># nw_calls s \<Longrightarrow> call_typed t0 c" "agreement (\<lambda>a. waiting (x a)) (nw_calls s) (nw_lost s)"
  then show ?thesis using d cs by (intro network_invI [where x = x]) auto
qed

text \<open>A stream task, which only runs where nothing waits.\<close>

lemma step_task:
  assumes inv: "network_inv l t0 s" and run: "0 < nw_tasks s a"
    and f: "transfer_closure_ok f" "\<And>y. t_protocol_id (f y) = t_protocol_id y"
      "\<And>y. offer_data (f y) = offer_data y" "\<And>y. t_kind (f y) = t_kind y"
    and states: "\<And>y. t_state (f y) = t_state y \<and> n = nw_tasks s a \<or> ended_state (t_state (f y))"
  shows "network_inv l t0 ((task_update q f l a s)\<lparr>nw_tasks := (nw_tasks s)(a := n)\<rparr>)"
proof -
  obtain x where x: "\<And>a. side_ok l t0 (nw_panicked s) a (nw_manager s a) (nw_tasks s a) (x a)"
    and calls: "\<And>c. c \<in># nw_calls s \<Longrightarrow> call_typed t0 c"
    and agr: "agreement (\<lambda>a. waiting (x a)) (nw_calls s) (nw_lost s)" using inv by (rule network_invE) auto
  let ?m = "snd (update_transfer q (lk_peer l a) (lk_uuid l a) f (nw_manager s a))"
  have w: "\<not> waiting (x a)" using x [of a] run by (auto simp: side_ok_def)
  have 1: "on_side l a ?m (f (x a))"
    using x [of a] by (intro on_side_update f(1,2)) (simp add: side_ok_def)
  have 2: "\<not> waiting (f (x a))" using w states [of "x a"] by (auto simp: waiting_def ended_state_def)
  have "typed a (t0 a) (f (x a))"
    using x [of a] states [of "x a"] f(3,4) by (auto simp: side_ok_def typed_def ended_state_def)
  then have h: "side_ok l t0 (nw_panicked s) a ?m n (f (x a))"
    using 1 2 run x [of a] states [of "x a"] by (auto simp: side_ok_def ended_state_def)
  have "(\<lambda>b. waiting ((x(a := f (x a))) b)) = (\<lambda>b. waiting (x b))" using w 2 by (simp add: fun_eq_iff)
  then show ?thesis
    using both_sides_updated [OF x h] calls agr
    by (intro network_invI [where x = "x(a := f (x a))"]) (auto simp: task_update_def)
qed

lemma step_panicked:
  assumes inv: "network_inv l t0 s"
  shows "network_inv l t0 (s\<lparr>nw_tasks := (nw_tasks s)(Receiving := nw_tasks s Receiving - 1), nw_panicked := True\<rparr>)"
  using inv
proof (rule network_invE)
  fix x
  assume "\<And>a. side_ok l t0 (nw_panicked s) a (nw_manager s a) (nw_tasks s a) (x a)"
    "\<And>c. c \<in># nw_calls s \<Longrightarrow> call_typed t0 c" "agreement (\<lambda>a. waiting (x a)) (nw_calls s) (nw_lost s)"
  then show ?thesis by (intro network_invI [where x = x]) (auto simp: side_ok_def)
qed

lemma step_elsewhere:
  assumes inv: "network_inv l t0 s"
    and e: "op_ok e (nw_manager s a)" "elsewhere (lk_peer l a) (lk_uuid l a) e"
  shows "network_inv l t0 (s\<lparr>nw_manager := (nw_manager s)(a := mgr_step e (nw_manager s a))\<rparr>)"
  using inv
proof (rule network_invE)
  fix x
  assume x: "\<And>a. side_ok l t0 (nw_panicked s) a (nw_manager s a) (nw_tasks s a) (x a)"
    "\<And>c. c \<in># nw_calls s \<Longrightarrow> call_typed t0 c" "agreement (\<lambda>a. waiting (x a)) (nw_calls s) (nw_lost s)"
  then have "on_side l a (mgr_step e (nw_manager s a)) (x a)"
    using filed_elsewhere [OF _ e] by (simp add: side_ok_def on_side_def)
  then show ?thesis using x by (intro network_invI [where x = x]) (auto simp: side_ok_def)
qed

lemma network_step_inv: "network_step l s s' \<Longrightarrow> network_inv l t0 s \<Longrightarrow> network_inv l t0 s'"
proof (induction rule: network_step.induct)
  case (failed s a c t e cs)
  then show ?case using step_dropped [of l t0 s _ cs "nw_lost s"] agreement_dropped(1) by force
next
  case (request_lost s a c t cs)
  then show ?case using step_dropped [of l t0 s _ cs "nw_lost s"] agreement_dropped(2) by force
next
  case (handler_dropped s a c t u cs)
  then show ?case using step_dropped [of l t0 s _ cs "nw_lost s"] agreement_dropped(3) by force
next
  case (answer_lost s a c t cs)
  then show ?case using step_dropped [of l t0 s _ cs True] agreement_dropped(4) by blast
next
  case (chunk s a q n avg)
  have "network_inv l t0 ((task_update q (progress n avg) l a s)\<lparr>nw_tasks := (nw_tasks s)(a := nw_tasks s a)\<rparr>)"
    by (rule step_task [OF chunk(2,1)]) (simp_all add: task_update_facts)
  then show ?case by (simp add: task_update_def)
next
  case (sending_ended s q r c)
  show ?case by (rule step_task [OF sending_ended(2,1)]) (simp_all add: task_update_facts)
next
  case (reception_ended s r final q)
  show ?case
    by (rule step_task [OF reception_ended(3,1)])
      (use reception_ended(2) finish_ended(2) in \<open>simp_all add: task_update_facts\<close>)
qed (blast intro: step_began step_delivered step_handled step_concluded step_panicked step_elsewhere)+

interpretation networks: step_invariant "network_step l" "network_inv l t0" for l t0
  by unfold_locales (rule network_step_inv)

end
