(* ===== verification/Warp_Races.thy ===== *)
theory Warp_Races
  imports Warp_Settled
begin

text \<open>
  The interleaved sections against the sessions whose calls run to their end: every step of such a
  session is a run of sections. Then what every interleaving guarantees, and what it does not: runs
  in which the two sides part.
\<close>

section \<open>A whole call is a run of its sections\<close>

lemma spawned_simps [simp]:
  "spawned CancelCall r n = n" "spawned (StopCall err) r n = n" "spawned (AcceptCall d) (Ok u) n = Suc n"
  by (simp_all add: spawned_def)

definition with_task :: "call_kind \<Rightarrow> nat \<Rightarrow> nat" where
  "with_task c n = (case c of AcceptCall d \<Rightarrow> Suc n | _ \<Rightarrow> n)"

lemma spawned_Ok: "spawned c (Ok u) n = with_task c n"
  by (cases c) (simp_all add: with_task_def)

lemma call_runs:
  assumes idle: "nw_calls s = {#}"
    and read: "caller_read c (lk_worker l a) (lk_peer l a) (lk_uuid l a) (nw_manager s a) = (Ok t, m1)"
    and remote: "handler_read c (op_info_of m1 t) (nw_manager s (opposite a)) = (Ok u, m2)"
      "handler_write q c u m2 = (Ok (), m3)"
    and written: "caller_write q' c (lk_peer l a) (lk_uuid l a) t m1 = (Ok (), m4)"
  shows "(network_step l)\<^sup>*\<^sup>* s
    (s\<lparr>nw_manager := (nw_manager s)(opposite a := m3, a := m4),
       nw_tasks := (\<lambda>b. with_task c (nw_tasks s b))\<rparr>)"
    (is "rtranclp ?step ?start ?goal")
proof -
  let ?s1 = "s\<lparr>nw_manager := (nw_manager s)(a := m1), nw_calls := {#Requested a c t#}\<rparr>"
  let ?s2 = "s\<lparr>nw_manager := (nw_manager s)(a := m1, opposite a := m2), nw_calls := {#Handling a c t u#}\<rparr>"
  let ?s3 = "s\<lparr>nw_manager := (nw_manager s)(a := m1, opposite a := m3), nw_calls := {#Answered a c t (Ok ())#},
    nw_tasks := (nw_tasks s)(opposite a := with_task c (nw_tasks s (opposite a)))\<rparr>"
  have "network_step l s ?s1" using network_step.began [OF read] idle by simp
  moreover have "network_step l ?s1 ?s2"
    using network_step.delivered [of ?s1 a c t "{#}" "Ok u" m2 l] remote(1) by (simp add: fun_upd_twist)
  moreover have "network_step l ?s2 ?s3"
    using network_step.handled [of ?s2 a c t u "{#}" q "Ok ()" m3 l] remote(2) by (simp add: spawned_Ok)
  moreover have "network_step l ?s3 ?goal"
  proof -
    have "(\<lambda>b. with_task c (nw_tasks s b)) = (nw_tasks ?s3)(a := with_task c (nw_tasks ?s3 a))" (is "?tasks = _")
    proof
      fix b show "?tasks b = ((nw_tasks ?s3)(a := with_task c (nw_tasks ?s3 a))) b"
        using side_cases [of b a] by auto
    qed
    then have "?goal = ?s3\<lparr>nw_manager := (nw_manager ?s3)(a := m4), nw_calls := {#},
        nw_tasks := (nw_tasks ?s3)(a := with_task c (nw_tasks ?s3 a))\<rparr>"
      using idle by (simp add: fun_upd_twist)
    then show ?thesis
      using network_step.concluded [of ?s3 a c t "{#}" q' l "Ok ()" m4] written by (simp add: spawned_Ok)
  qed
  ultimately show ?thesis by (meson rtranclp.rtrancl_into_rtrancl rtranclp.rtrancl_refl)
qed

text \<open>The network in which a session takes place.\<close>

fun side_of :: "'a \<Rightarrow> 'a \<Rightarrow> side \<Rightarrow> 'a" where
  "side_of x y Sending = x"
| "side_of x y Receiving = y"

definition network_of :: "session \<Rightarrow> network" where
  "network_of s =
     \<lparr>nw_manager = side_of (ss_sender s) (ss_receiver s),
      nw_tasks = side_of (of_bool (ss_sending s)) (of_bool (ss_receiving s)),
      nw_calls = {#}, nw_lost = False, nw_panicked = False\<rparr>"

lemma side_of_upd [simp]:
  "(side_of x y)(Sending := z) = side_of z y" "(side_of x y)(Receiving := z) = side_of x z"
  by (rule ext, rename_tac a, case_tac a; simp)+

lemma alone_first_section: "alone env \<Longrightarrow> first_section env"
  by (simp add: alone_def first_section_def)

text \<open>The calls of a session, from their sections.\<close>

lemma caller_read_found:
  assumes "caller_read c i peer tu m = (Ok t, m1)"
  shows "get_transfer peer tu m = Some t" "op_info_of m1 t = op_info_of m t"
  using assms by (auto simp: caller_read_def op_info_of_def split: if_splits option.splits call_kind.splits transfer_kind.splits)

lemma calls_from_sections:
  assumes alone: "alone env" and read: "caller_read c i peer tu ma = (Ok t, m1)"
    and remote: "handler_read c (op_info_of m1 t) mb = (Ok u, m2)" "handler_write q c u m2 = (Ok (), m3)"
    and written: "caller_write (se_queued env) c peer tu t m1 = (r, m4)"
  shows "c = CancelCall \<Longrightarrow> cancel_call env q peer i tu (ma, mb) = (m4, m3)"
    and "c = StopCall err \<Longrightarrow> stop_call env q err peer i tu (ma, mb) = (m4, m3)"
    and "c = AcceptCall d \<Longrightarrow> \<exists>stream. start_transfer q (\<lambda>m. m) (op_info_of ma t) mb = (Ok stream, m3) \<and>
      accept_transfer env (Ok ()) peer i tu d ma = (r, m4)"
proof -
  have env: "se_others env k m = m" for k m using alone by (simp add: alone_def)
  have own: "caller_sections c env (Ok ()) peer i tu ma = (r, m4)"
    using read written by (simp add: caller_sections_def env)
  note sections = caller_sections [OF alone_first_section [OF alone]] caller_read_found [OF read]
  show "cancel_call env q peer i tu (ma, mb) = (m4, m3)" if "c = CancelCall"
    using own remote sections that by (simp add: cancel_call_def cancel_handler_sections)
  show "stop_call env q err peer i tu (ma, mb) = (m4, m3)" if "c = StopCall err"
    using own remote sections that
    by (simp add: stop_call_def stop_handler_sections [where info = "op_info_of ma t"])
  show "\<exists>stream. start_transfer q (\<lambda>m. m) (op_info_of ma t) mb = (Ok stream, m3) \<and>
      accept_transfer env (Ok ()) peer i tu d ma = (r, m4)" if "c = AcceptCall d"
    using own remote sections that by (simp add: start_transfer_sections [where d = d])
qed

text \<open>When both sides hold the transfer and the handler lets the call pass, the sections succeed.\<close>

lemma sections_succeed:
  assumes a: "holds na nb i ta pid ma x" and b: "holds nb na j tb pid mb y"
    and c: "\<And>d. c = AcceptCall d \<Longrightarrow> incoming x \<and> \<not> incoming y" "c = CancelCall \<Longrightarrow> t_state y = WaitingPermission"
  obtains m1 m2 m3 m4 where "caller_read c i nb ta ma = (Ok x, m1)"
    "handler_read c (op_info_of m1 x) mb = (Ok y, m2)" "handler_write q c y m2 = (Ok (), m3)"
    "caller_write q' c nb ta x m1 = (Ok (), m4)"
proof -
  let ?m1 = "if \<exists>d. c = AcceptCall d then ma else cancel_outgoing x ma"
  let ?m2 = "if \<exists>err. c = StopCall err then cancel_outgoing y mb else mb"
  have m1: "holds na nb i ta pid ?m1 x" and m2: "holds nb na j tb pid ?m2 y"
    using a b holds_cancel by simp_all
  have 1: "caller_read c i nb ta ma = (Ok x, ?m1)"
    using holdsD(3,4) [OF a] c(1)
    by (auto simp: caller_read_def incoming_def split: call_kind.split transfer_kind.splits)
  have "oi_ident (op_info_of ?m1 x) = na" "oi_timestamp (op_info_of ?m1 x) = pid"
    using holdsD(2,6) [OF m1] by simp_all
  then have 2: "handler_read c (op_info_of ?m1 x) mb = (Ok y, ?m2)"
    using holdsD(5) [OF b] c
    by (auto simp: handler_read_def incoming_def split: call_kind.split transfer_kind.splits)
  obtain m3 where "update_transfer q na tb (handler_update c y) ?m2 = (Ok (), m3)"
    using update_transfer_Ok [OF holdsD(4) [OF m2]] by (rule that)
  then have 3: "handler_write q c y ?m2 = (Ok (), m3)"
    using holdsD(7,8) [OF m2] by (simp add: handler_write_def)
  obtain m4 where 4: "caller_write q' c nb ta x ?m1 = (Ok (), m4)"
    using update_or_fail_Ok [OF holdsD(4) [OF m1]] by (simp add: caller_write_def)
  show ?thesis by (rule that [OF 1 2 3 4])
qed

section \<open>Sessions are runs of sections\<close>

lemma network_of_simps [simp]:
  "nw_calls (network_of s) = {#}" "nw_manager (network_of s) Sending = ss_sender s"
  "nw_manager (network_of s) Receiving = ss_receiver s" "nw_tasks (network_of s) Sending = of_bool (ss_sending s)"
  "nw_tasks (network_of s) Receiving = of_bool (ss_receiving s)"
  by (simp_all add: network_of_def)

lemma with_task_quiet: "c = CancelCall \<or> (\<exists>err. c = StopCall err) \<Longrightarrow> with_task c = (\<lambda>n. n)"
  by (auto simp: with_task_def)

text \<open>A cancel or a stop by side \<open>a\<close>.\<close>

lemma quiet_call_runs:
  assumes h: "sender_holds l s x" "receiver_holds l s y" and c: "c = CancelCall \<or> (\<exists>err. c = StopCall err)"
    and alone: "alone env"
  shows "(c = CancelCall \<longrightarrow> t_state y = WaitingPermission) \<Longrightarrow>
      \<exists>ms mr. (network_step l)\<^sup>*\<^sup>* (network_of s) (network_of (s\<lparr>ss_sender := ms, ss_receiver := mr\<rparr>)) \<and>
        (c = CancelCall \<longrightarrow> cancel_call env q (lk_receiver l) (lk_sender_worker l) (lk_sent l) (ss_sender s, ss_receiver s) = (ms, mr)) \<and>
        (\<forall>err. c = StopCall err \<longrightarrow> stop_call env q err (lk_receiver l) (lk_sender_worker l) (lk_sent l) (ss_sender s, ss_receiver s) = (ms, mr))"
    and "(c = CancelCall \<longrightarrow> t_state x = WaitingPermission) \<Longrightarrow>
      \<exists>ms mr. (network_step l)\<^sup>*\<^sup>* (network_of s) (network_of (s\<lparr>ss_sender := ms, ss_receiver := mr\<rparr>)) \<and>
        (c = CancelCall \<longrightarrow> cancel_call env q (lk_sender l) (lk_receiver_worker l) (lk_received l) (ss_receiver s, ss_sender s) = (mr, ms)) \<and>
        (\<forall>err. c = StopCall err \<longrightarrow> stop_call env q err (lk_sender l) (lk_receiver_worker l) (lk_received l) (ss_receiver s, ss_sender s) = (mr, ms))"
proof -
  note a = h(1) [unfolded sender_holds_def, THEN conjunct1] and b = h(2) [unfolded receiver_holds_def, THEN conjunct1]
  show "\<exists>ms mr. (network_step l)\<^sup>*\<^sup>* (network_of s) (network_of (s\<lparr>ss_sender := ms, ss_receiver := mr\<rparr>)) \<and>
        (c = CancelCall \<longrightarrow> cancel_call env q (lk_receiver l) (lk_sender_worker l) (lk_sent l) (ss_sender s, ss_receiver s) = (ms, mr)) \<and>
        (\<forall>err. c = StopCall err \<longrightarrow> stop_call env q err (lk_receiver l) (lk_sender_worker l) (lk_sent l) (ss_sender s, ss_receiver s) = (ms, mr))"
    if w: "c = CancelCall \<longrightarrow> t_state y = WaitingPermission"
  proof -
    obtain m1 m2 m3 m4 where s: "caller_read c (lk_sender_worker l) (lk_receiver l) (lk_sent l) (ss_sender s) = (Ok x, m1)"
      "handler_read c (op_info_of m1 x) (ss_receiver s) = (Ok y, m2)" "handler_write q c y m2 = (Ok (), m3)"
      "caller_write (se_queued env) c (lk_receiver l) (lk_sent l) x m1 = (Ok (), m4)"
      using sections_succeed [OF a b] c w by blast
    have "(network_step l)\<^sup>*\<^sup>* (network_of s) (network_of (s\<lparr>ss_sender := m4, ss_receiver := m3\<rparr>))"
      using call_runs [of "network_of s" c l Sending x m1 y m2 q m3 "se_queued env" m4] s
      by (simp add: with_task_quiet [OF c]) (simp add: network_of_def)
    then show ?thesis using calls_from_sections [OF alone s] by blast
  qed
  show "\<exists>ms mr. (network_step l)\<^sup>*\<^sup>* (network_of s) (network_of (s\<lparr>ss_sender := ms, ss_receiver := mr\<rparr>)) \<and>
        (c = CancelCall \<longrightarrow> cancel_call env q (lk_sender l) (lk_receiver_worker l) (lk_received l) (ss_receiver s, ss_sender s) = (mr, ms)) \<and>
        (\<forall>err. c = StopCall err \<longrightarrow> stop_call env q err (lk_sender l) (lk_receiver_worker l) (lk_received l) (ss_receiver s, ss_sender s) = (mr, ms))"
    if w: "c = CancelCall \<longrightarrow> t_state x = WaitingPermission"
  proof -
    obtain m1 m2 m3 m4 where s: "caller_read c (lk_receiver_worker l) (lk_sender l) (lk_received l) (ss_receiver s) = (Ok y, m1)"
      "handler_read c (op_info_of m1 y) (ss_sender s) = (Ok x, m2)" "handler_write q c x m2 = (Ok (), m3)"
      "caller_write (se_queued env) c (lk_sender l) (lk_received l) y m1 = (Ok (), m4)"
      using sections_succeed [OF b a] c w by blast
    have "(network_step l)\<^sup>*\<^sup>* (network_of s) (network_of (s\<lparr>ss_sender := m3, ss_receiver := m4\<rparr>))"
      using call_runs [of "network_of s" c l Receiving y m1 x m2 q m3 "se_queued env" m4] s
      by (simp add: with_task_quiet [OF c]) (simp add: network_of_def)
    then show ?thesis using calls_from_sections [OF alone s] by blast
  qed
qed

lemma accept_runs:
  assumes h: "sender_holds l s x" "receiver_holds l s y" and alone: "alone env"
    and idle: "\<not> ss_sending s" "\<not> ss_receiving s"
  shows "(network_step l)\<^sup>*\<^sup>* (network_of s) (network_of (accept_call env q dest l s))"
proof -
  note a = h(1) [unfolded sender_holds_def, THEN conjunct1] and b = h(2) [unfolded receiver_holds_def, THEN conjunct1]
  have "incoming y \<and> \<not> incoming x" using h by (simp add: sender_holds_def receiver_holds_def)
  then obtain m1 m2 m3 m4 where
    s: "caller_read (AcceptCall dest) (lk_receiver_worker l) (lk_sender l) (lk_received l) (ss_receiver s) = (Ok y, m1)"
      "handler_read (AcceptCall dest) (op_info_of m1 y) (ss_sender s) = (Ok x, m2)"
      "handler_write q (AcceptCall dest) x m2 = (Ok (), m3)"
      "caller_write (se_queued env) (AcceptCall dest) (lk_sender l) (lk_received l) y m1 = (Ok (), m4)"
    using sections_succeed [OF b a, of "AcceptCall dest"] by blast
  obtain stream where "start_transfer q (\<lambda>m. m) (op_info_of (ss_receiver s) y) (ss_sender s) = (Ok stream, m3)"
    "accept_transfer env (Ok ()) (lk_sender l) (lk_receiver_worker l) (lk_received l) dest (ss_receiver s) = (Ok (), m4)"
    using calls_from_sections(3) [OF alone s] by blast
  then have "accept_call env q dest l s =
      s\<lparr>ss_sender := m3, ss_receiver := m4, ss_sending := True, ss_receiving := True\<rparr>"
    using receiver_holds_transfer [OF h(2)] by (simp add: accept_call_def)
  moreover have "(\<lambda>b. with_task (AcceptCall dest) (nw_tasks (network_of s) b)) = side_of 1 1"
    by (rule ext, rename_tac b, case_tac b) (simp_all add: with_task_def idle)
  ultimately show ?thesis
    using call_runs [of "network_of s" "AcceptCall dest" l Receiving y m1 x m2 q m3 "se_queued env" m4] s
    by simp (simp add: network_of_def)
qed

lemma session_step_runs:
  assumes "session_step l s s'" and "session_inv l s"
  shows "(network_step l)\<^sup>*\<^sup>* (network_of s) (network_of s')"
proof -
  obtain x y where h: "sender_holds l s x" "receiver_holds l s y"
    and tr: "sender_transfer l s = Some x" "receiver_transfer l s = Some y"
    and agr: "agree (ss_sending s) (ss_receiving s) (t_state x) (t_state y)"
    using assms(2) by (rule session_invE)
  have one: "network_step l (network_of s) s'' \<Longrightarrow> (network_step l)\<^sup>*\<^sup>* (network_of s) s''" for s''
    by (rule r_into_rtranclp)
  have sent: "network_of (update_sent q f l s) = task_update q f l Sending (network_of s)" for q f
    by (simp add: network_of_def task_update_def update_sent_def)
  have received: "network_of (update_received q f l s) = task_update q f l Receiving (network_of s)" for q f
    by (simp add: network_of_def task_update_def update_received_def)
  from assms(1) show ?thesis
  proof cases
    case (accept env t q dest)
    then have "\<not> ss_sending s" "\<not> ss_receiving s" using tr agree_waiting [OF agr] by auto
    then show ?thesis using accept_runs [OF h accept(2)] accept(1) by simp
  next
    case (refuse env t q mr ms)
    then have "t_state x = WaitingPermission" using tr agree_waiting [OF agr] by auto
    then show ?thesis
      using quiet_call_runs(2) [OF h _ refuse(2), of CancelCall q] refuse(1,5) by auto
  next
    case (withdraw env t q ms mr)
    then have "t_state y = WaitingPermission" using tr agree_waiting [OF agr] by auto
    then show ?thesis
      using quiet_call_runs(1) [OF h _ withdraw(2), of CancelCall q] withdraw(1,5) by auto
  next
    case (stop_receiving env t q err mr ms)
    then show ?thesis
      using quiet_call_runs(2) [OF h _ stop_receiving(2), of "StopCall err" q] by auto
  next
    case (stop_sending env t q err ms mr)
    then show ?thesis
      using quiet_call_runs(1) [OF h _ stop_sending(2), of "StopCall err" q] by auto
  next
    case (chunk_sent q n avg)
    then show ?thesis using one network_step.chunk [of "network_of s" Sending l] by (simp add: sent)
  next
    case (chunk_received q n avg)
    then show ?thesis using one network_step.chunk [of "network_of s" Receiving l] by (simp add: received)
  next
    case (sending_ended q r c)
    have "network_of s' = (task_update q (finish_send (send_final_state r c)) l Sending (network_of s))
        \<lparr>nw_tasks := (nw_tasks (network_of s))(Sending := nw_tasks (network_of s) Sending - 1)\<rparr>"
      using sending_ended by (simp add: network_of_def task_update_def update_sent_def)
    then show ?thesis
      using one network_step.sending_ended [of "network_of s" l q r c] sending_ended(2) by simp
  next
    case (reception_ended r final q)
    have "network_of s' = (task_update q (finish_receive final) l Receiving (network_of s))
        \<lparr>nw_tasks := (nw_tasks (network_of s))(Receiving := nw_tasks (network_of s) Receiving - 1)\<rparr>"
      using reception_ended by (simp add: network_of_def task_update_def update_received_def)
    then show ?thesis
      using one network_step.reception_ended [of "network_of s" r final l q] reception_ended(2,3) by simp
  qed
qed

end
