(* ===== verification/Warp_Agreement.thy ===== *)
theory Warp_Agreement
  imports Warp_Races
begin

text \<open>
  What every interleaving guarantees from an answered offer on, that every state can settle, and two
  runs in which the sides part: a lost answer, and two cancellations that cross.
\<close>

section \<open>An answered offer\<close>

lemma filed_added:
  assumes "mgr_inv m" and add: "add_transfer ru t m = (Ok (), m')"
    and "t_remote_uuid t = ru" and "get_transfer ru (t_uuid t) m = None"
    and "transfer_by_protocol_id ru (t_protocol_id t) m = None"
  shows "filed (mg_fullname m) ru (t_uuid t) (t_protocol_id t) m' t \<and> worker_client i m' = worker_client i m"
proof -
  have m': "m' = snd (add_transfer ru t m)" using add by simp
  obtain r where r: "mg_remotes m ru = Some r" using add by (auto simp: add_transfer_def split: option.splits)
  have "mgr_inv m'" unfolding m' by (rule mgr_inv_add_transfer) (use assms in simp_all)
  then show ?thesis
    using assms(4,5) r
    by (simp add: m' add_transfer_def filed_def get_transfer_def transfer_by_protocol_id_def find_append has_uuid_def
        worker_client_def)
qed

lemma set_source_info_pid: "t_protocol_id (set_source_info x n k t) = t_protocol_id t"
  by (cases x) (simp add: set_source_info_def)

text \<open>
  An offer that is sent and answered opens a session: both sides hold the transfer, waiting, under
  the protocol identifier of the offer, which must be new to both.
\<close>

lemma answered_offer_pending:
  assumes env: "alone (request_shared env)" "re_process env paths (offered env peer paths) = (Ok (), p)"
      "re_process env = process_paths_real meta walk mime" "re_answer env = Ok ()"
    and a: "mgr_inv ma" "worker_client i ma = Some c" "mg_remotes ma peer = Some ra"
      "get_transfer peer (u_text (re_uuid env)) ma = None"
      "transfer_by_protocol_id peer (u_hi (re_uuid env) + u_lo (re_uuid env)) ma = None"
    and b: "mgr_inv mb" "worker_client j mb = Some c'" "mg_fullname mb = peer" "mg_remotes mb (mg_fullname ma) = Some rb"
      "get_transfer (mg_fullname ma) fresh mb = None"
      "transfer_by_protocol_id (mg_fullname ma) (u_hi (re_uuid env) + u_lo (re_uuid env)) mb = None"
    and sent: "send_transfer_request env peer i paths ma = (Ok (Some req), ma')"
    and got: "process_transfer_op_request fresh now req mb = (Return (Ok ()), mb')"
  shows "offer_pending
    \<lparr>lk_sender = mg_fullname ma, lk_receiver = peer, lk_sender_worker = i, lk_receiver_worker = j,
     lk_sent = u_text (re_uuid env), lk_received = fresh, lk_pid = u_hi (re_uuid env) + u_lo (re_uuid env)\<rparr>
    \<lparr>ss_sender = ma', ss_receiver = mb', ss_sending = False, ss_receiving = False\<rparr>"
proof -
  let ?t = "offered env peer paths" and ?pid = "u_hi (re_uuid env) + u_lo (re_uuid env)"
  obtain ma1 where ma1: "add_transfer peer ?t ma = (Ok (), ma1)"
    "send_transfer_request env peer i paths ma =
      (Ok (Some (transfer_as_proto p (mg_fullname ma))),
       snd (update_transfer (se_queued env) peer (u_text (re_uuid env)) (copy_processed p) ma1))"
    using request_starts [OF env(1) a(2-4), of paths] env(2,4) by auto
  then have req: "req = transfer_as_proto p (mg_fullname ma)"
    and ma': "ma' = snd (update_transfer (se_queued env) peer (u_text (re_uuid env)) (copy_processed p) ma1)"
    using sent by simp_all
  have closure: "transfer_closure_ok (copy_processed p)" "t_protocol_id (copy_processed p x) = t_protocol_id x" for x
    by (simp_all add: transfer_closure_ok_def copy_processed_def)
  have "t_remote_uuid ?t = peer" by (simp add: offered_def transfer_new_outgoing_def)
  then have "filed (mg_fullname ma) peer (u_text (re_uuid env)) ?pid ma1 ?t \<and> worker_client i ma1 = Some c"
    using filed_added [OF a(1) ma1(1)] a(2,4,5) by simp
  then have x: "holds (mg_fullname ma) peer i (u_text (re_uuid env)) ?pid ma' (copy_processed p ?t)"
    unfolding ma' holds_def using filed_update [OF _ closure] by simp
  have out: "\<not> incoming (copy_processed p ?t)" "t_state (copy_processed p ?t) = WaitingPermission"
    by (simp_all add: incoming_def copy_processed_def offered_def transfer_new_outgoing_def)
  obtain t where t: "transfer_from_request fresh now req = Return t" "t_uuid t = fresh"
    "t_remote_uuid t = mg_fullname ma" "t_protocol_id t = t_protocol_id p" "t_state t = WaitingPermission" "incoming t"
    by (simp add: req transfer_as_proto_def transfer_from_request_def incoming_def)
  have "p = set_source_info (t_total_bytes p, t_file_count p, t_entry_names p)
      (t_single_name p) (t_single_mime_type p) ?t"
    using env(2) unfolding env(3) by (rule process_paths_real_shape)
  then have "t_protocol_id p = t_protocol_id ?t"
    by (metis set_source_info_pid)
  then have pid: "t_protocol_id p = ?pid" by simp
  have "add_transfer (mg_fullname ma) t mb = (Ok (), mb')"
    using got t(1) b(4) by (auto simp: process_transfer_op_request_def req transfer_as_proto_def add_transfer_def)
  then have "filed peer (mg_fullname ma) fresh ?pid mb' t \<and> worker_client j mb' = Some c'"
    using filed_added [of mb "mg_fullname ma" t mb' j] b t(2-4) pid by simp
  then show ?thesis
    using x out t(5,6) unfolding offer_pending_def sender_holds_def receiver_holds_def holds_def by auto
qed

section \<open>From an answered offer\<close>

definition offer_open :: "link \<Rightarrow> (side \<Rightarrow> transfer) \<Rightarrow> network \<Rightarrow> bool" where
  "offer_open l t0 s \<longleftrightarrow>
     (\<forall>a. on_side l a (nw_manager s a) (t0 a) \<and> waiting (t0 a) \<and> nw_tasks s a = 0) \<and>
     \<not> incoming (t0 Sending) \<and> incoming (t0 Receiving) \<and>
     nw_calls s = {#} \<and> \<not> nw_lost s \<and> \<not> nw_panicked s"

lemma kind_of_side: "\<not> incoming t \<Longrightarrow> kind_on Sending (t_kind t) (t_kind t)" "incoming t \<Longrightarrow> kind_on Receiving k (t_kind t)"
  by (simp_all add: incoming_def split: transfer_kind.splits)

lemma offer_open_inv:
  assumes "offer_open l t0 s"
  shows "network_inv l t0 s"
proof (rule network_invI)
  fix a
  have "kind_on a (t_kind (t0 a)) (t_kind (t0 a))"
    using assms kind_of_side by (cases a) (auto simp: offer_open_def)
  then show "side_ok l t0 (nw_panicked s) a (nw_manager s a) (nw_tasks s a) (t0 a)"
    using assms by (simp add: offer_open_def side_ok_def typed_def waiting_def)
next
  show "agreement (\<lambda>a. waiting (t0 a)) (nw_calls s) (nw_lost s)"
    using assms by (simp add: offer_open_def agreement_def)
qed (use assms in \<open>simp add: offer_open_def\<close>)

lemma run_sides:
  assumes "offer_open l t0 s0" and "(network_step l)\<^sup>*\<^sup>* s0 s"
  obtains x where "\<And>a. side_ok l t0 (nw_panicked s) a (nw_manager s a) (nw_tasks s a) (x a)"
    "\<And>a. nw_transfer l s a = Some (x a)"
    "agreement (\<lambda>a. waiting (x a)) (nw_calls s) (nw_lost s)"
proof -
  obtain x where x: "\<And>a. side_ok l t0 (nw_panicked s) a (nw_manager s a) (nw_tasks s a) (x a)"
    "agreement (\<lambda>a. waiting (x a)) (nw_calls s) (nw_lost s)"
    using networks.run_kept [OF assms(2) offer_open_inv [OF assms(1)]] by (rule network_invE) auto
  have "nw_transfer l s a = Some (x a)" for a
    using x(1) [of a] on_side_found by (auto simp: nw_transfer_def side_ok_def)
  then show ?thesis using that x by blast
qed

lemma pending_is_open:
  assumes "offer_pending l s"
  obtains x y where "offer_open l (side_of x y) (network_of s)" "sender_holds l s x" "receiver_holds l s y"
proof -
  obtain x y where xy: "sender_holds l s x" "receiver_holds l s y"
    "t_state x = WaitingPermission" "t_state y = WaitingPermission" "\<not> ss_sending s" "\<not> ss_receiving s"
    using assms by (auto simp: offer_pending_def)
  have "on_side l a (nw_manager (network_of s) a) (side_of x y a)" for a
    using xy(1,2) by (cases a) (simp_all add: on_side_def sender_holds_def receiver_holds_def holds_def)
  moreover have "waiting (side_of x y a) \<and> nw_tasks (network_of s) a = 0" for a
    using xy by (cases a) (simp_all add: waiting_def)
  ultimately have "offer_open l (side_of x y) (network_of s)"
    using xy(1,2) by (simp add: offer_open_def sender_holds_def receiver_holds_def network_of_def)
  then show ?thesis using that xy by blast
qed

section \<open>Every state can settle\<close>

definition settled :: "network \<Rightarrow> bool" where
  "settled s \<longleftrightarrow> nw_calls s = {#} \<and> (\<forall>a. nw_tasks s a = 0)"

lemma call_can_end:
  assumes "nw_calls s = add_mset c cs"
  shows "\<exists>s'. network_step l s s' \<and> nw_calls s' = cs \<and> nw_lost s' = nw_lost s"
proof (cases c)
  case (Requested a k t)
  then show ?thesis using network_step.request_lost [of s a k t cs l] assms by auto
next
  case (Handling a k t u)
  then show ?thesis using network_step.handler_dropped [of s a k t u cs l] assms by auto
next
  case (Answered a k t r)
  show ?thesis
  proof (cases r)
    case (Ok u)
    obtain q m where w: "caller_write 0 k (lk_peer l a) (lk_uuid l a) t (nw_manager s a) = (q, m)" by force
    show ?thesis
      using network_step.concluded [of s a k t cs 0 l q m] w assms Answered Ok
      by (intro exI [of _ "s\<lparr>nw_manager := (nw_manager s)(a := m), nw_calls := cs,
            nw_tasks := (nw_tasks s)(a := spawned k q (nw_tasks s a))\<rparr>"]) simp
  next
    case (Err e)
    then show ?thesis using network_step.failed [of s a k t e cs l] assms Answered by auto
  qed
qed

lemma calls_can_end: "\<exists>s'. (network_step l)\<^sup>*\<^sup>* s s' \<and> nw_calls s' = {#} \<and> nw_lost s' = nw_lost s"
proof (induction "nw_calls s" arbitrary: s)
  case empty
  then show ?case by auto
next
  case (add c cs)
  obtain s1 where s1: "network_step l s s1" "nw_calls s1 = cs" "nw_lost s1 = nw_lost s"
    using call_can_end [of s c cs l] add.hyps(2) by auto
  with add.hyps(1) [of s1] show ?case by (metis converse_rtranclp_into_rtranclp)
qed

lemma task_can_end:
  assumes "0 < nw_tasks s a"
  shows "\<exists>s'. network_step l s s' \<and> nw_calls s' = nw_calls s \<and> nw_lost s' = nw_lost s \<and>
    nw_tasks s' = (nw_tasks s)(a := nw_tasks s a - 1)"
proof (cases a)
  case Sending
  then show ?thesis
    using network_step.sending_ended [of s l 0 "Ok True" False] assms
    by (intro exI [of _ "(task_update 0 (finish_send (send_final_state (Ok True) False)) l Sending s)
          \<lparr>nw_tasks := (nw_tasks s)(Sending := nw_tasks s Sending - 1)\<rparr>"]) (simp add: task_update_def)
next
  case Receiving
  then show ?thesis
    using network_step.reception_ended [of s "RxOk True" Completed l 0] assms
    by (intro exI [of _ "(task_update 0 (finish_receive Completed) l Receiving s)
          \<lparr>nw_tasks := (nw_tasks s)(Receiving := nw_tasks s Receiving - 1)\<rparr>"]) (simp add: task_update_def)
qed

lemma tasks_can_end:
  "nw_calls s = {#} \<Longrightarrow> \<exists>s'. (network_step l)\<^sup>*\<^sup>* s s' \<and> settled s' \<and> nw_lost s' = nw_lost s"
proof (induction "nw_tasks s Sending + nw_tasks s Receiving" arbitrary: s rule: less_induct)
  case less
  show ?case
  proof (cases "\<exists>a. 0 < nw_tasks s a")
    case False
    then show ?thesis using less.prems by (auto simp: settled_def)
  next
    case True
    then obtain a where a: "0 < nw_tasks s a" ..
    obtain s1 where s1: "network_step l s s1" "nw_calls s1 = {#}" "nw_lost s1 = nw_lost s"
      "nw_tasks s1 = (nw_tasks s)(a := nw_tasks s a - 1)" using task_can_end [OF a] less.prems by metis
    then have "nw_tasks s1 Sending + nw_tasks s1 Receiving < nw_tasks s Sending + nw_tasks s Receiving"
      using a by (cases a) auto
    then show ?thesis using less.hyps [of s1] s1(1-3) by (metis converse_rtranclp_into_rtranclp)
  qed
qed

lemma network_can_settle: "\<exists>s'. (network_step l)\<^sup>*\<^sup>* s s' \<and> settled s' \<and> nw_lost s' = nw_lost s"
  using calls_can_end [of l s] tasks_can_end [of _ l] by (metis rtranclp_trans)

section \<open>Runs in which the sides part\<close>

text \<open>The sections on a filed transfer.\<close>

lemma cancel_reads:
  assumes "on_side l a m x" and "worker_client (lk_worker l a) m \<noteq> None"
  shows "caller_read CancelCall (lk_worker l a) (lk_peer l a) (lk_uuid l a) m = (Ok x, cancel_outgoing x m)"
    "on_side l a (cancel_outgoing x m) x"
  using assms filed_cancel on_side_found [OF assms(1)] by (simp_all add: caller_read_def on_side_def)

lemma handler_reads:
  assumes "on_side l a m y" and "on_side l (opposite a) m' x" and "waiting y"
  shows "handler_read CancelCall (op_info_of m' x) m = (Ok y, m)"
  using assms by (simp add: handler_read_def on_side_def filed_def waiting_def)

lemma handler_writes:
  assumes "on_side l a m z" and "on_side l a m' u"
  shows "\<exists>m1. handler_write q c u m = (Ok (), m1) \<and> on_side l a m1 (handler_update c u z)"
proof -
  have u: "t_remote_uuid u = lk_peer l a" "t_uuid u = lk_uuid l a"
    using assms(2) filedD(6,7) unfolding on_side_def by auto
  have ok: "update_transfer q (lk_peer l a) (lk_uuid l a) (handler_update c u) m =
      (Ok (), snd (update_transfer q (lk_peer l a) (lk_uuid l a) (handler_update c u) m))"
    by (rule update_transfer_Ok [OF on_side_found [OF assms(1)]])
  show ?thesis
    unfolding handler_write_def u by (subst ok) (use on_side_update [OF assms(1) handler_update_facts(1,2)] in simp)
qed

lemma caller_writes:
  assumes "on_side l a m z"
  shows "\<exists>m1. caller_write q c (lk_peer l a) (lk_uuid l a) u m = (Ok (), m1) \<and> on_side l a m1 (caller_update c u z)"
  unfolding caller_write_def
  using update_or_fail_Ok [OF on_side_found [OF assms]] on_side_update [OF assms caller_update_facts(1,2)] by simp

text \<open>The sections of a cancellation among other calls.\<close>

definition at_calls :: "network \<Rightarrow> (side \<Rightarrow> manager) \<Rightarrow> call multiset \<Rightarrow> network" where
  "at_calls s m cs = s\<lparr>nw_manager := m, nw_calls := cs\<rparr>"

lemma at_calls_steps:
  "caller_read CancelCall (lk_worker l a) (lk_peer l a) (lk_uuid l a) (m a) = (Ok t, m1) \<Longrightarrow>
    network_step l (at_calls s m cs) (at_calls s (m(a := m1)) (add_mset (Requested a CancelCall t) cs))"
  "handler_read CancelCall (op_info_of (m a) t) (m (opposite a)) = (Ok u, m (opposite a)) \<Longrightarrow>
    network_step l (at_calls s m (add_mset (Requested a CancelCall t) cs))
      (at_calls s m (add_mset (Handling a CancelCall t u) cs))"
  "handler_write q CancelCall u (m (opposite a)) = (Ok (), m1) \<Longrightarrow>
    network_step l (at_calls s m (add_mset (Handling a CancelCall t u) cs))
      (at_calls s (m(opposite a := m1)) (add_mset (Answered a CancelCall t (Ok ())) cs))"
  "caller_write q CancelCall (lk_peer l a) (lk_uuid l a) t (m a) = (Ok (), m1) \<Longrightarrow>
    network_step l (at_calls s m (add_mset (Answered a CancelCall t (Ok ())) cs)) (at_calls s (m(a := m1)) cs)"
  using network_step.began [of CancelCall l a "at_calls s m cs" t m1]
    network_step.delivered [of "at_calls s m (add_mset (Requested a CancelCall t) cs)" a CancelCall t cs "Ok u" "m (opposite a)" l]
    network_step.handled [of "at_calls s m (add_mset (Handling a CancelCall t u) cs)" a CancelCall t u cs q "Ok ()" m1 l]
    network_step.concluded [of "at_calls s m (add_mset (Answered a CancelCall t (Ok ())) cs)" a CancelCall t cs q l "Ok ()" m1]
  by (simp_all add: at_calls_def)

lemma side_of_eta: "f = side_of (f Sending) (f Receiving)"
  by (rule ext, rename_tac a, case_tac a) simp_all

text \<open>
  Two cancellations that cross: both requests are read before either is handled, both are handled
  before either answer arrives.
\<close>

lemma crossing_run:
  assumes idle: "nw_calls s = {#}"
    and n: "\<And>a. caller_read CancelCall (lk_worker l a) (lk_peer l a) (lk_uuid l a) (nw_manager s a) = (Ok (t a), n a)"
    and read: "\<And>a. handler_read CancelCall (op_info_of (n a) (t a)) (n (opposite a)) = (Ok (t (opposite a)), n (opposite a))"
    and k: "\<And>a. handler_write 0 CancelCall (t a) (n a) = (Ok (), k a)"
    and j: "\<And>a. caller_write 0 CancelCall (lk_peer l a) (lk_uuid l a) (t a) (k a) = (Ok (), j a)"
  shows "(network_step l)\<^sup>*\<^sup>* s (at_calls s j {#})"
proof -
  let ?R = "\<lambda>a. Requested a CancelCall (t a)" and ?H = "\<lambda>a. Handling a CancelCall (t a) (t (opposite a))"
    and ?A = "\<lambda>a. Answered a CancelCall (t a) (Ok ())"
  let ?at = "\<lambda>mx my cs. at_calls s (side_of mx my) cs"
  have "nw_manager s = side_of (nw_manager s Sending) (nw_manager s Receiving)" by (rule side_of_eta)
  then have 0: "s = ?at (nw_manager s Sending) (nw_manager s Receiving) {#}" using idle by (simp add: at_calls_def)
  have "network_step l (?at (nw_manager s Sending) (nw_manager s Receiving) {#}) (?at (n Sending) (nw_manager s Receiving) {#?R Sending#})"
    using at_calls_steps(1) [where l = l and a = Sending and t = "t Sending" and s = s and m = "side_of (nw_manager s Sending) (nw_manager s Receiving)"] n [of Sending] by simp
  moreover have "network_step l (?at (n Sending) (nw_manager s Receiving) {#?R Sending#})
      (?at (n Sending) (n Receiving) {#?R Receiving, ?R Sending#})"
    using at_calls_steps(1) [where l = l and a = Receiving and t = "t Receiving" and s = s and m = "side_of (n Sending) (nw_manager s Receiving)"] n [of Receiving] by simp
  moreover have "network_step l (?at (n Sending) (n Receiving) {#?R Receiving, ?R Sending#})
      (?at (n Sending) (n Receiving) {#?H Sending, ?R Receiving#})"
    using at_calls_steps(2) [where l = l and a = Sending and t = "t Sending" and s = s and u = "t Receiving" and m = "side_of (n Sending) (n Receiving)" and cs = "{#?R Receiving#}"]
      read [of Sending] by (simp add: add_mset_commute)
  moreover have "network_step l (?at (n Sending) (n Receiving) {#?H Sending, ?R Receiving#})
      (?at (n Sending) (n Receiving) {#?H Receiving, ?H Sending#})"
    using at_calls_steps(2) [where l = l and a = Receiving and t = "t Receiving" and s = s and u = "t Sending" and m = "side_of (n Sending) (n Receiving)" and cs = "{#?H Sending#}"]
      read [of Receiving] by (simp add: add_mset_commute)
  moreover have "network_step l (?at (n Sending) (n Receiving) {#?H Receiving, ?H Sending#})
      (?at (n Sending) (k Receiving) {#?A Sending, ?H Receiving#})"
    using at_calls_steps(3) [where l = l and a = Sending and t = "t Sending" and s = s and u = "t Receiving" and m = "side_of (n Sending) (n Receiving)" and cs = "{#?H Receiving#}"]
      k [of Receiving] by (simp add: add_mset_commute)
  moreover have "network_step l (?at (n Sending) (k Receiving) {#?A Sending, ?H Receiving#})
      (?at (k Sending) (k Receiving) {#?A Receiving, ?A Sending#})"
    using at_calls_steps(3) [where l = l and a = Receiving and t = "t Receiving" and s = s and u = "t Sending" and m = "side_of (n Sending) (k Receiving)" and cs = "{#?A Sending#}"]
      k [of Sending] by (simp add: add_mset_commute)
  moreover have "network_step l (?at (k Sending) (k Receiving) {#?A Receiving, ?A Sending#})
      (?at (j Sending) (k Receiving) {#?A Receiving#})"
    using at_calls_steps(4) [where l = l and a = Sending and t = "t Sending" and s = s and m = "side_of (k Sending) (k Receiving)" and cs = "{#?A Receiving#}"]
      j [of Sending] by (simp add: add_mset_commute)
  moreover have "network_step l (?at (j Sending) (k Receiving) {#?A Receiving#}) (?at (j Sending) (j Receiving) {#})"
    using at_calls_steps(4) [where l = l and a = Receiving and t = "t Receiving" and s = s and m = "side_of (j Sending) (k Receiving)" and cs = "{#}"]
      j [of Receiving] by simp
  ultimately have "(network_step l)\<^sup>*\<^sup>* s (?at (j Sending) (j Receiving) {#})"
    unfolding 0 [symmetric] by (meson converse_rtranclp_into_rtranclp rtranclp.rtrancl_refl)
  then show ?thesis using side_of_eta [of j] by simp
qed

text \<open>
  Then both handlers read a waiting transfer, so both calls succeed, and each side ends in the state its own call writes last. The sender records a cancellation, the
  receiver a refusal, and nothing was lost.
\<close>

lemma crossed_cancels_differ:
  assumes start: "offer_open l t0 s"
    and clients: "\<And>a. worker_client (lk_worker l a) (nw_manager s a) \<noteq> None"
  shows "\<exists>s' x y. (network_step l)\<^sup>*\<^sup>* s s' \<and> settled s' \<and> \<not> nw_lost s' \<and>
    nw_transfer l s' Sending = Some x \<and> t_state x = Canceled \<and>
    nw_transfer l s' Receiving = Some y \<and> t_state y = Denied"
proof -
  let ?x = "t0 Sending" and ?y = "t0 Receiving" and ?m = "nw_manager s" and ?c = CancelCall
  have side: "on_side l a (?m a) (t0 a)" "waiting (t0 a)" "nw_tasks s a = 0" for a
    using start by (simp_all add: offer_open_def)
  have inc: "\<not> incoming ?x" "incoming ?y" using start by (simp_all add: offer_open_def)
  let ?n = "\<lambda>a. cancel_outgoing (t0 a) (?m a)"
  have n: "caller_read ?c (lk_worker l a) (lk_peer l a) (lk_uuid l a) (?m a) = (Ok (t0 a), ?n a)"
    "on_side l a (?n a) (t0 a)" for a using cancel_reads [OF side(1) clients] by auto
  have read: "handler_read ?c (op_info_of (?n a) (t0 a)) (?n (opposite a)) = (Ok (t0 (opposite a)), ?n (opposite a))" for a
    using handler_reads [OF n(2) _ side(2), of "opposite a" "?n a" "t0 a"] n(2) [of a] by simp
  have "\<forall>a. \<exists>k. handler_write 0 ?c (t0 a) (?n a) = (Ok (), k) \<and> on_side l a k (handler_update ?c (t0 a) (t0 a))"
    using handler_writes [OF n(2) n(2)] by blast
  then obtain k where k: "\<And>a. handler_write 0 ?c (t0 a) (?n a) = (Ok (), k a)"
    "\<And>a. on_side l a (k a) (handler_update ?c (t0 a) (t0 a))" by metis
  have "\<forall>a. \<exists>j. caller_write 0 ?c (lk_peer l a) (lk_uuid l a) (t0 a) (k a) = (Ok (), j) \<and>
      on_side l a j (caller_update ?c (t0 a) (handler_update ?c (t0 a) (t0 a)))"
    using caller_writes [OF k(2)] by blast
  then obtain j where j: "\<And>a. caller_write 0 ?c (lk_peer l a) (lk_uuid l a) (t0 a) (k a) = (Ok (), j a)"
    "\<And>a. on_side l a (j a) (caller_update ?c (t0 a) (handler_update ?c (t0 a) (t0 a)))" by metis
  from crossing_run [OF _ n(1) read k(1) j(1)] have "(network_step l)\<^sup>*\<^sup>* s (at_calls s j {#})"
    using start by (simp add: offer_open_def)
  moreover have "nw_transfer l (at_calls s j {#}) a =
      Some (caller_update ?c (t0 a) (handler_update ?c (t0 a) (t0 a)))" for a
    using on_side_found [OF j(2) [of a]] by (simp add: nw_transfer_def at_calls_def)
  moreover have "settled (at_calls s j {#})" "\<not> nw_lost (at_calls s j {#})"
    using start by (simp_all add: settled_def at_calls_def offer_open_def)
  moreover have "t_state (caller_update ?c (t0 a) (handler_update ?c (t0 a) (t0 a))) = cancel_state (t0 a)" for a
    by (simp add: caller_update_def)
  ultimately show ?thesis using end_states(1,2) inc by (intro exI conjI) (assumption | simp)+
qed

text \<open>
  An answer that is lost after the handler wrote: the sender records the refusal, the receiver's
  transfer waits for good, since a second refusal is turned down.
\<close>

lemma lost_answer_leaves_waiting:
  assumes start: "offer_open l t0 s" and client: "worker_client (lk_worker l Receiving) (nw_manager s Receiving) \<noteq> None"
  shows "\<exists>s' x y. (network_step l)\<^sup>*\<^sup>* s s' \<and> settled s' \<and> nw_lost s' \<and>
    nw_transfer l s' Sending = Some x \<and> t_state x = Denied \<and>
    nw_transfer l s' Receiving = Some y \<and> t_state y = WaitingPermission \<and>
    (\<forall>m. handler_read CancelCall (op_info_of m y) (nw_manager s' Sending) =
       (Err (Status FailedPrecondition ''Can only cancel transfers that are waiting for permission''), nw_manager s' Sending)
       \<or> mg_fullname m \<noteq> lk_receiver l)"
proof -
  let ?x = "t0 Sending" and ?y = "t0 Receiving" and ?m = "nw_manager s" and ?c = CancelCall
  have side: "on_side l a (?m a) (t0 a)" "waiting (t0 a)" "nw_tasks s a = 0" for a
    using start by (simp_all add: offer_open_def)
  have inc: "\<not> incoming ?x" "incoming ?y" using start by (simp_all add: offer_open_def)
  let ?n = "cancel_outgoing ?y (?m Receiving)"
  have n: "caller_read ?c (lk_worker l Receiving) (lk_peer l Receiving) (lk_uuid l Receiving) (?m Receiving) = (Ok ?y, ?n)"
    "on_side l Receiving ?n ?y" using cancel_reads [OF side(1) client] by auto
  have read: "handler_read ?c (op_info_of ?n ?y) (?m Sending) = (Ok ?x, ?m Sending)"
    using handler_reads [OF side(1) _ side(2), of Sending ?n ?y] n(2) by simp
  obtain k where k: "handler_write 0 ?c ?x (?m Sending) = (Ok (), k)" "on_side l Sending k (handler_update ?c ?x ?x)"
    using handler_writes [OF side(1) side(1)] by blast
  let ?at = "\<lambda>mx my cs. at_calls s (side_of mx my) cs"
  let ?goal = "s\<lparr>nw_manager := side_of k ?n, nw_calls := {#}, nw_lost := True\<rparr>"
  have "?m = side_of (?m Sending) (?m Receiving)" by (rule side_of_eta)
  then have 0: "s = ?at (?m Sending) (?m Receiving) {#}" using start by (simp add: offer_open_def at_calls_def)
  have "network_step l (?at (?m Sending) (?m Receiving) {#}) (?at (?m Sending) ?n {#Requested Receiving ?c ?y#})"
    using at_calls_steps(1) [where l = l and a = Receiving and m = "side_of (?m Sending) (?m Receiving)"] n(1) by simp
  moreover have "network_step l (?at (?m Sending) ?n {#Requested Receiving ?c ?y#}) (?at (?m Sending) ?n {#Handling Receiving ?c ?y ?x#})"
    using at_calls_steps(2) [where l = l and a = Receiving and m = "side_of (?m Sending) ?n"] read by simp
  moreover have "network_step l (?at (?m Sending) ?n {#Handling Receiving ?c ?y ?x#}) (?at k ?n {#Answered Receiving ?c ?y (Ok ())#})"
    using at_calls_steps(3) [where l = l and a = Receiving and m = "side_of (?m Sending) ?n"] k(1) by simp
  moreover have "network_step l (?at k ?n {#Answered Receiving ?c ?y (Ok ())#}) ?goal"
    using network_step.answer_lost [of "?at k ?n {#Answered Receiving ?c ?y (Ok ())#}" Receiving ?c ?y "{#}" l] start
    by (simp add: at_calls_def offer_open_def)
  ultimately have "(network_step l)\<^sup>*\<^sup>* s ?goal"
    unfolding 0 [symmetric] by (meson converse_rtranclp_into_rtranclp rtranclp.rtrancl_refl)
  moreover have x: "nw_transfer l ?goal Sending = Some (handler_update ?c ?x ?x)" "nw_transfer l ?goal Receiving = Some ?y"
    using on_side_found [OF k(2)] on_side_found [OF n(2)] by (simp_all add: nw_transfer_def)
  moreover have "settled ?goal" using start by (simp add: settled_def offer_open_def)
  moreover have "t_state (handler_update ?c ?x ?x) = Denied" using end_states(4) inc by (simp add: handler_update_def)
  moreover have "t_state ?y = WaitingPermission" using side(2) by (simp add: waiting_def)
  moreover have "handler_read ?c (op_info_of m ?y) k =
      (Err (Status FailedPrecondition ''Can only cancel transfers that are waiting for permission''), k)"
    if "mg_fullname m = lk_receiver l" for m
    using that k(2) n(2) calculation(5) by (simp add: handler_read_def on_side_def filed_def)
  ultimately show ?thesis by (intro exI conjI) (assumption | simp | blast)+
qed

section \<open>Properties\<close>

interpretation sectioned: simulation "session_step l" "session_inv l" "network_step l" network_of for l
  by unfold_locales (rule session_step_runs)


text \<open>
  C8. Types survive every interleaving. Whatever calls of both users, chunks, ends of streams,
  losses and other operations of the managers happen in whatever order from an answered offer on,
  the transfer stays filed on both sides under its identifiers with the sizes and names of the
  offer; the sender's keeps its sources and token, the receiver's stays incoming; no transfer becomes
  initializing or paused; no stream task runs for one that waits, and one in progress has a task
  that will end it unless its reception panicked.
\<close>

theorem interleavings_keep_types:
  assumes "offer_open l t0 s0" and "(network_step l)\<^sup>*\<^sup>* s0 s"
  shows "\<exists>x. nw_transfer l s a = Some x \<and> offer_data x = offer_data (t0 a) \<and>
    kind_on a (t_kind (t0 a)) (t_kind x) \<and> t_state x \<notin> {Initializing, Paused} \<and>
    (t_state x = WaitingPermission \<longrightarrow> nw_tasks s a = 0) \<and>
    (t_state x = InProgress \<longrightarrow> 0 < nw_tasks s a \<or> a = Receiving \<and> nw_panicked s)"
proof -
  obtain x where "side_ok l t0 (nw_panicked s) a (nw_manager s a) (nw_tasks s a) (x a)" "nw_transfer l s a = Some (x a)"
    using run_sides [OF assms] by metis
  then show ?thesis by (auto simp: side_ok_def typed_def waiting_def)
qed

text \<open>
  C7. Once every call has ended and no answer was lost, the sides agree whatever the interleaving was:
  either both transfers still wait for permission or neither does; and when no stream task runs any
  more and no reception panicked, transfers that do not wait have ended on both sides.
\<close>

theorem settled_sides_agree:
  assumes "offer_open l t0 s0" and "(network_step l)\<^sup>*\<^sup>* s0 s" and "nw_calls s = {#}" and "\<not> nw_lost s"
  shows "\<exists>x y. nw_transfer l s Sending = Some x \<and> nw_transfer l s Receiving = Some y \<and>
    (t_state x = WaitingPermission \<longleftrightarrow> t_state y = WaitingPermission) \<and>
    (settled s \<and> \<not> nw_panicked s \<and> t_state x \<noteq> WaitingPermission \<longrightarrow>
       ended_state (t_state x) \<and> ended_state (t_state y))"
proof -
  obtain x where x: "\<And>a. side_ok l t0 (nw_panicked s) a (nw_manager s a) (nw_tasks s a) (x a)"
    "\<And>a. nw_transfer l s a = Some (x a)" "agreement (\<lambda>a. waiting (x a)) (nw_calls s) (nw_lost s)"
    by (rule run_sides [OF assms(1,2)]) (rule that)
  have w: "waiting (x Sending) = waiting (x Receiving)" using agreement_settled x(3) assms(3,4) by simp
  have "ended_state (t_state (x a))" if "settled s" "\<not> nw_panicked s" "\<not> waiting (x a)" for a
    using x(1) [of a] that by (auto simp: side_ok_def typed_def settled_def waiting_def ended_state_def)
  then show ?thesis using x(2) w by (auto simp: waiting_def)
qed

text \<open>The sample pair: the receiver accepts, in sections.\<close>

definition sample_open :: "side \<Rightarrow> transfer" where
  "sample_open = side_of sample_outgoing sample_incoming"

definition sample_accepted :: session where
  "sample_accepted = accept_call calm 0 [RootDir] sample_link sample_session"

lemma sample_network_open: "offer_open sample_link sample_open (network_of sample_session)"
proof -
  obtain x y where xy: "offer_open sample_link (side_of x y) (network_of sample_session)"
    "sender_holds sample_link sample_session x" "receiver_holds sample_link sample_session y"
    using sample_session_facts(1) by (rule pending_is_open)
  have "x = sample_outgoing" "y = sample_incoming"
    using sample_session_facts(2,3) sender_holds_transfer [OF xy(2)] receiver_holds_transfer [OF xy(3)] by simp_all
  then show ?thesis using xy(1) by (simp add: sample_open_def)
qed

lemma sample_accept_step: "(session_step sample_link)\<^sup>*\<^sup>* sample_session sample_accepted"
proof -
  have "t_state sample_incoming = WaitingPermission" by (simp add: sample_incoming_def)
  then have "session_step sample_link sample_session sample_accepted"
    unfolding sample_accepted_def using calm_alone sample_session_facts(2) by (intro session_step.accept)
  then show ?thesis by (rule r_into_rtranclp)
qed

lemma sample_network_run: "(network_step sample_link)\<^sup>*\<^sup>* (network_of sample_session) (network_of sample_accepted)"
  by (rule sectioned.run_simulated [OF sample_accept_step offer_pending_inv [OF sample_session_facts(1)]])


lemma interleavings_keep_types_witness:
  "\<exists>x. nw_transfer sample_link (network_of sample_accepted) Receiving = Some x \<and>
    t_uuid x = ''t1'' \<and> t_protocol_id x = 7 \<and> (\<exists>d. t_kind x = Incoming d)"
  using interleavings_keep_types [OF sample_network_open sample_network_run, of Receiving]
  by (auto simp: sample_open_def offer_data_def sample_incoming_def transfer_new_outgoing_def)

lemma settled_sides_agree_witness:
  "\<exists>x y. nw_transfer sample_link (network_of sample_accepted) Sending = Some x \<and>
    nw_transfer sample_link (network_of sample_accepted) Receiving = Some y \<and>
    (t_state x = WaitingPermission \<longleftrightarrow> t_state y = WaitingPermission)"
  using settled_sides_agree [OF sample_network_open sample_network_run] by (auto simp: network_of_def)

end
