(* ===== verification/Warp_Tui.thy ===== *)
theory Warp_Tui
  imports Warp_Manager_Inv Warp_Paths
begin

text \<open>
  \<open>examples/tui/app.rs\<close> and the key handling of \<open>examples/warpinator_tui.rs\<close>: a client of the
  library. It copies the manager's state from its events, and turns keys into calls of the library,
  which are spawned and hence part of the result. Keys and terminal events are values of the
  \<open>crossterm\<close> crate: the datatype has those the code tells apart. A Rust \<open>char\<close> is the string of its
  UTF-8 bytes.
\<close>

section \<open>State\<close>

datatype app_event =
    AE_Terminal
  | AE_RemoteAdded remote
  | AE_RemoteUpdated remote
  | AE_TransferAdded string transfer
  | AE_TransferUpdated string transfer
  | AE_TransferRemoved string string
  | AE_Log string
  | AE_MessageAdded string message
  | AE_MessageRemoved string string

definition hydrate :: "warp_event \<Rightarrow> manager \<Rightarrow> app_event option" where
  "hydrate ev m =
     (case ev of
        RemoteAdded u \<Rightarrow> map_option AE_RemoteAdded (get_remote u m)
      | RemoteUpdated u \<Rightarrow> map_option AE_RemoteUpdated (get_remote u m)
      | TransferAdded ru tu \<Rightarrow> map_option (AE_TransferAdded ru) (get_transfer ru tu m)
      | TransferUpdated ru tu \<Rightarrow> map_option (AE_TransferUpdated ru) (get_transfer ru tu m)
      | TransferRemoved ru tu \<Rightarrow> Some (AE_TransferRemoved ru tu)
      | MessageAdded ru mu \<Rightarrow>
          (case get_remote ru m of
             None \<Rightarrow> None
           | Some r \<Rightarrow> map_option (AE_MessageAdded ru) (find (\<lambda>x. m_uuid x = mu) (r_messages r)))
      | MessageRemoved ru mu \<Rightarrow> Some (AE_MessageRemoved ru mu))"

datatype focus = F_Remotes | F_Transfers | F_Messages

datatype input_mode = IM_FilePath | IM_AcceptDestination | IM_Message

record transfer_display =
  td_last_update_ms :: nat
  td_bytes_transferred :: u64
  td_bytes_per_second :: u64

record app =
  ap_remotes :: "remote list"
  ap_selected_remote :: nat
  ap_transfers :: "string \<rightharpoonup> transfer list"
  ap_selected_transfer :: nat
  ap_selected_message :: nat
  ap_focus :: focus
  ap_input_mode :: "input_mode option"
  ap_input_buf :: string
  ap_log :: "string list"
  ap_display :: "string \<rightharpoonup> transfer_display"
  ap_pending_accept :: "(string \<times> string) option"

definition app_new :: app where
  "app_new =
     \<lparr>ap_remotes = [], ap_selected_remote = 0, ap_transfers = Map.empty, ap_selected_transfer = 0,
      ap_selected_message = 0, ap_focus = F_Remotes, ap_input_mode = None, ap_input_buf = [],
      ap_log = [], ap_display = Map.empty, ap_pending_accept = None\<rparr>"

definition app_log :: "string \<Rightarrow> app \<Rightarrow> app" where
  "app_log msg a =
     (let kept = (if length (ap_log a) = 200 then tl (ap_log a) else ap_log a)
      in a\<lparr>ap_log := kept @ [msg]\<rparr>)"

text \<open>\<open>xs.get(i)\<close>\<close>

definition nth_opt :: "'a list \<Rightarrow> nat \<Rightarrow> 'a option" where
  "nth_opt xs i = (if i < length xs then Some (xs ! i) else None)"

definition current_remote :: "app \<Rightarrow> remote option" where
  "current_remote a = nth_opt (ap_remotes a) (ap_selected_remote a)"

definition current_transfers :: "app \<Rightarrow> transfer list" where
  "current_transfers a =
     (case current_remote a of
        None \<Rightarrow> []
      | Some r \<Rightarrow> (case ap_transfers a (r_uuid r) of None \<Rightarrow> [] | Some ts \<Rightarrow> ts))"

definition current_messages :: "app \<Rightarrow> message list" where
  "current_messages a = (case current_remote a of None \<Rightarrow> [] | Some r \<Rightarrow> r_messages r)"

definition current_transfer :: "app \<Rightarrow> transfer option" where
  "current_transfer a = nth_opt (current_transfers a) (ap_selected_transfer a)"

definition current_message :: "app \<Rightarrow> message option" where
  "current_message a = nth_opt (current_messages a) (ap_selected_message a)"

section \<open>Events\<close>

definition display_of :: "nat \<Rightarrow> transfer \<Rightarrow> transfer_display" where
  "display_of ms t =
     \<lparr>td_last_update_ms = ms, td_bytes_transferred = t_bytes_transferred t,
      td_bytes_per_second = t_bytes_per_second t\<rparr>"

text \<open>The displayed numbers change at most every 750 ms.\<close>

definition throttle :: "nat \<Rightarrow> transfer \<Rightarrow> transfer_display option \<Rightarrow> transfer_display" where
  "throttle now t shown =
     (let entry = (case shown of Some d \<Rightarrow> d | None \<Rightarrow> display_of 0 t)
      in if 750 \<le> now - td_last_update_ms entry then display_of now t else entry)"

definition clamp_selection :: "nat \<Rightarrow> nat \<Rightarrow> nat" where
  "clamp_selection selected len = (if len \<le> selected then len - 1 else selected)"

definition is_remote :: "string \<Rightarrow> remote \<Rightarrow> bool" where
  "is_remote u r = (r_uuid r = u)"

text \<open>\<open>now\<close> is the clock in milliseconds, 0 before the epoch.\<close>

definition handle_event :: "nat \<Rightarrow> app_event \<Rightarrow> app \<Rightarrow> app" where
  "handle_event now ev a =
     (case ev of
        AE_RemoteAdded r \<Rightarrow>
          a\<lparr>ap_transfers := (ap_transfers a)
               (r_uuid r \<mapsto> case ap_transfers a (r_uuid r) of None \<Rightarrow> [] | Some ts \<Rightarrow> ts),
            ap_remotes := ap_remotes a @ [r]\<rparr>
      | AE_RemoteUpdated r \<Rightarrow>
          a\<lparr>ap_remotes := upd_first (is_remote (r_uuid r)) (\<lambda>_. r) (ap_remotes a)\<rparr>
      | AE_TransferAdded ru t \<Rightarrow>
          a\<lparr>ap_transfers := (ap_transfers a)
               (ru \<mapsto> (case ap_transfers a ru of None \<Rightarrow> [] | Some ts \<Rightarrow> ts) @ [t]),
            ap_display := (ap_display a)(t_uuid t \<mapsto> display_of now t)\<rparr>
      | AE_TransferUpdated ru t \<Rightarrow>
         (case ap_transfers a ru of
            None \<Rightarrow> a
          | Some ts \<Rightarrow>
              if find (has_uuid (t_uuid t)) ts = None then a
              else a\<lparr>ap_transfers := (ap_transfers a)
                        (ru \<mapsto> upd_first (has_uuid (t_uuid t)) (\<lambda>_. t) ts),
                     ap_display := (ap_display a)
                        (t_uuid t \<mapsto> throttle now t (ap_display a (t_uuid t)))\<rparr>)
      | AE_TransferRemoved ru tu \<Rightarrow>
         (case ap_transfers a ru of
            None \<Rightarrow> a
          | Some ts \<Rightarrow>
             (let left = filter (\<lambda>t. t_uuid t \<noteq> tu) ts
              in a\<lparr>ap_transfers := (ap_transfers a)(ru \<mapsto> left),
                   ap_selected_transfer := clamp_selection (ap_selected_transfer a) (length left)\<rparr>))
      | AE_MessageAdded ru x \<Rightarrow>
          a\<lparr>ap_remotes := upd_first (is_remote ru) (\<lambda>r. r\<lparr>r_messages := r_messages r @ [x]\<rparr>) (ap_remotes a)\<rparr>
      | AE_MessageRemoved ru mu \<Rightarrow>
         (case find (is_remote ru) (ap_remotes a) of
            None \<Rightarrow> a
          | Some r \<Rightarrow>
             (let left = filter (\<lambda>x. m_uuid x \<noteq> mu) (r_messages r)
              in a\<lparr>ap_remotes := upd_first (is_remote ru) (\<lambda>r. r\<lparr>r_messages := left\<rparr>) (ap_remotes a),
                   ap_selected_message := clamp_selection (ap_selected_message a) (length left)\<rparr>))
      | AE_Log line \<Rightarrow> app_log line a
      | AE_Terminal \<Rightarrow> a)"

section \<open>Keys\<close>

datatype key_code =
    K_Char string | K_Tab | K_Down | K_Up | K_Enter | K_Esc | K_Backspace | K_Delete | K_Other

text \<open>\<open>String::pop\<close>: the last character goes, with its continuation bytes.\<close>

definition is_continuation :: "char \<Rightarrow> bool" where
  "is_continuation c \<longleftrightarrow> (128 :: nat) \<le> of_char c \<and> of_char c < (192 :: nat)"

definition pop_char :: "string \<Rightarrow> string" where
  "pop_char s = rev (tl (dropWhile is_continuation (rev s)))"

definition next_index :: "nat \<Rightarrow> nat \<Rightarrow> nat" where
  "next_index i len = (i + 1) mod len"

definition prev_index :: "nat \<Rightarrow> nat \<Rightarrow> nat" where
  "prev_index i len = (if i = 0 then len - 1 else i - 1)"

definition move_selection :: "(nat \<Rightarrow> nat \<Rightarrow> nat) \<Rightarrow> app \<Rightarrow> app" where
  "move_selection move a =
     (case ap_focus a of
        F_Remotes \<Rightarrow>
          if ap_remotes a = [] then a
          else a\<lparr>ap_selected_remote := move (ap_selected_remote a) (length (ap_remotes a)),
                 ap_selected_transfer := 0, ap_selected_message := 0\<rparr>
      | F_Transfers \<Rightarrow>
         (let len = length (current_transfers a)
          in if 0 < len then a\<lparr>ap_selected_transfer := move (ap_selected_transfer a) len\<rparr> else a)
      | F_Messages \<Rightarrow>
         (let len = length (current_messages a)
          in if 0 < len then a\<lparr>ap_selected_message := move (ap_selected_message a) len\<rparr> else a))"

definition move_down :: "app \<Rightarrow> app" where "move_down = move_selection next_index"

definition move_up :: "app \<Rightarrow> app" where "move_up = move_selection prev_index"

definition open_input :: "input_mode \<Rightarrow> app \<Rightarrow> app" where
  "open_input mode a =
     (if current_remote a = None then a else a\<lparr>ap_input_mode := Some mode, ap_input_buf := []\<rparr>)"

definition is_failed :: "transfer_state \<Rightarrow> bool" where
  "is_failed st = (case st of Failed e \<Rightarrow> True | _ \<Rightarrow> False)"

definition handle_action_keys :: "key_code \<Rightarrow> app \<Rightarrow> app" where
  "handle_action_keys code a =
     (case ap_focus a of
        F_Transfers \<Rightarrow>
         (case current_transfer a of
            None \<Rightarrow> a
          | Some t \<Rightarrow>
              if code = K_Char ''a'' \<and> t_state t = WaitingPermission then app_log ''Accepting transfer...'' a
              else if code = K_Char ''r'' \<and> t_state t = WaitingPermission then app_log ''Rejecting transfer...'' a
              else if code = K_Char ''x'' \<and> t_state t = InProgress then app_log ''Stopping transfer...'' a
              else if code = K_Delete \<and> (is_failed (t_state t) \<or> t_state t = Completed)
              then app_log ''Deleting transfer...'' a
              else a)
      | F_Messages \<Rightarrow>
          if current_message a \<noteq> None \<and> code = K_Delete then app_log ''Deleting message...'' a else a
      | F_Remotes \<Rightarrow> a)"

definition consume_input :: "app \<Rightarrow> (input_mode \<times> string) option \<times> app" where
  "consume_input a =
     (case ap_input_mode a of
        None \<Rightarrow> (None, a)
      | Some mode \<Rightarrow> (Some (mode, ap_input_buf a), a\<lparr>ap_input_mode := None, ap_input_buf := []\<rparr>))"

definition handle_input_key :: "key_code \<Rightarrow> app \<Rightarrow> app" where
  "handle_input_key code a =
     (case code of
        K_Esc \<Rightarrow> a\<lparr>ap_input_mode := None, ap_input_buf := [], ap_pending_accept := None\<rparr>
      | K_Enter \<Rightarrow>
         (let text = ap_input_buf a; a1 = a\<lparr>ap_input_buf := [], ap_input_mode := None\<rparr>
          in case ap_input_mode a of
               Some IM_FilePath \<Rightarrow>
                 (case current_remote a1 of
                    None \<Rightarrow> a1
                  | Some r \<Rightarrow> app_log (''send '' @ [CHR 0x27] @ text @ [CHR 0x27] @ '' -> '' @ r_uuid r) a1)
             | Some IM_AcceptDestination \<Rightarrow>
                 app_log (''accept dest '' @ [CHR 0x27] @ text @ [CHR 0x27]) (a1\<lparr>ap_pending_accept := None\<rparr>)
             | Some IM_Message \<Rightarrow>
                 (case current_remote a1 of
                    None \<Rightarrow> a1
                  | Some r \<Rightarrow> app_log (''msg '' @ [CHR 0x27] @ text @ [CHR 0x27] @ '' -> '' @ r_uuid r) a1)
             | None \<Rightarrow> a1)
      | K_Backspace \<Rightarrow> a\<lparr>ap_input_buf := pop_char (ap_input_buf a)\<rparr>
      | K_Char c \<Rightarrow> a\<lparr>ap_input_buf := ap_input_buf a @ c\<rparr>
      | _ \<Rightarrow> a)"

text \<open>The first component is \<open>Action::Quit\<close>.\<close>

definition handle_key :: "key_code \<Rightarrow> app \<Rightarrow> bool \<times> app" where
  "handle_key code a =
     (if ap_input_mode a \<noteq> None then (False, handle_input_key code a)
      else if code = K_Char ''q'' then (True, a)
      else (False,
        if code = K_Tab
        then a\<lparr>ap_focus := case ap_focus a of F_Remotes \<Rightarrow> F_Transfers | F_Transfers \<Rightarrow> F_Messages
                                         | F_Messages \<Rightarrow> F_Remotes\<rparr>
        else if code = K_Char ''j'' \<or> code = K_Down then move_down a
        else if code = K_Char ''k'' \<or> code = K_Up then move_up a
        else if code = K_Char ''s'' then open_input IM_FilePath a
        else if code = K_Char ''m'' then open_input IM_Message a
        else if code = K_Char ''c''
        then (case (ap_focus a, current_remote a) of
                (F_Remotes, Some r) \<Rightarrow>
                  if r_state r \<noteq> Connected
                  then app_log (''Connecting to '' @ r_display_name r @ ''...'') a else a
              | _ \<Rightarrow> a)
        else if code \<in> {K_Char ''a'', K_Char ''r'', K_Char ''x'', K_Delete} then handle_action_keys code a
        else a))"

section \<open>The key handling of the main loop\<close>

text \<open>What is spawned on the library.\<close>

datatype tui_command =
    SendMessageTo string string
  | SendFilesTo string "path list"
  | AcceptTransfer string string path
  | CancelTransfer string string
  | ConnectRemote string
  | StopTransfer string string
  | RemoveTransferOf string string
  | RemoveMessageOf string string

text \<open>\<open>str::trim\<close>: Unicode white space in UTF-8.\<close>

definition white_space :: "string list" where
  "white_space =
     map (\<lambda>b. [char_of b]) [9, 10, 11, 12, 13, 32 :: nat] @
     map (map char_of) ([[194, 133], [194, 160], [225, 154, 128]] @
       map (\<lambda>b. [226, 128, b]) ([128..<139] @ [168, 169, 175]) @ [[226, 129, 159], [227, 128, 128 :: nat]])"

function trim_start :: "string \<Rightarrow> string" where
  "trim_start s =
     (case find (\<lambda>w. w \<noteq> [] \<and> prefix w s) white_space of
        None \<Rightarrow> s | Some w \<Rightarrow> trim_start (drop (length w) s))"
  by pat_completeness auto
termination
proof (relation "measure length")
  fix s w :: string
  assume "find (\<lambda>w. w \<noteq> [] \<and> prefix w s) white_space = Some w"
  then have "w \<noteq> []" "prefix w s" using find_Some_prop by fastforce+
  then have "0 < length w" "length w \<le> length s" by (auto dest: prefix_length_le)
  then have "length s - length w < length s" by linarith
  then show "(drop (length w) s, s) \<in> measure length" by (simp only: in_measure length_drop)
qed simp

declare trim_start.simps [simp del]

function trim_end :: "string \<Rightarrow> string" where
  "trim_end s =
     (case find (\<lambda>w. w \<noteq> [] \<and> suffix w s) white_space of
        None \<Rightarrow> s | Some w \<Rightarrow> trim_end (take (length s - length w) s))"
  by pat_completeness auto
termination
proof (relation "measure length")
  fix s w :: string
  assume "find (\<lambda>w. w \<noteq> [] \<and> suffix w s) white_space = Some w"
  then have "w \<noteq> []" "suffix w s" using find_Some_prop by fastforce+
  then have "0 < length w" and "length w \<le> length s" by (auto intro: suffix_length_le)
  then have "min (length s) (length s - length w) < length s" by linarith
  then show "(take (length s - length w) s, s) \<in> measure length"
    by (simp only: in_measure length_take)
qed simp

declare trim_end.simps [simp del]

definition entered_paths :: "string \<Rightarrow> path list" where
  "entered_paths text =
     map path_of (filter (\<lambda>s. s \<noteq> []) (map (\<lambda>s. trim_end (trim_start s)) (split_on CHR '';'' text)))"

text \<open>The key of the confirmed input: what the input mode stands for.\<close>

definition confirm_input :: "input_mode \<Rightarrow> string \<Rightarrow> app \<Rightarrow> app \<times> tui_command list" where
  "confirm_input mode text a =
     (case mode of
        IM_Message \<Rightarrow>
          (a, case current_remote a of None \<Rightarrow> [] | Some r \<Rightarrow> [SendMessageTo (r_uuid r) text])
      | IM_FilePath \<Rightarrow>
          (a, case current_remote a of
                None \<Rightarrow> []
              | Some r \<Rightarrow> if entered_paths text = [] then [] else [SendFilesTo (r_uuid r) (entered_paths text)])
      | IM_AcceptDestination \<Rightarrow>
          (a\<lparr>ap_pending_accept := None\<rparr>,
           case ap_pending_accept a of
             None \<Rightarrow> [] | Some (ru, tu) \<Rightarrow> [AcceptTransfer ru tu (path_of text)]))"

definition is_incoming :: "transfer \<Rightarrow> bool" where
  "is_incoming t = (case t_kind t of Incoming d \<Rightarrow> True | Outgoing ps tok \<Rightarrow> False)"

definition may_connect :: "remote_state \<Rightarrow> bool" where
  "may_connect st = (case st of Disconnected \<Rightarrow> True | RS_Error e \<Rightarrow> True | _ \<Rightarrow> False)"

definition is_over :: "transfer_state \<Rightarrow> bool" where
  "is_over st \<longleftrightarrow> is_failed st \<or> st \<in> {Completed, Stopped, Denied, Canceled}"

text \<open>
  What a key does itself: \<open>None\<close> when it is not handled, or the new state and the commands;
  \<open>Panic\<close> where \<open>current_remote().unwrap()\<close> fails. \<open>dest\<close> is the default destination.
\<close>

definition transfer_key ::
  "(transfer \<Rightarrow> bool) \<Rightarrow> (string \<Rightarrow> string \<Rightarrow> tui_command) \<Rightarrow> app
    \<Rightarrow> (app \<times> tui_command list) option outcome" where
  "transfer_key applies command a =
     (case current_transfer a of
        None \<Rightarrow> Return None
      | Some t \<Rightarrow>
          if \<not> applies t then Return None
          else case current_remote a of
                 None \<Rightarrow> Panic
               | Some r \<Rightarrow> Return (Some (a, [command (r_uuid r) (t_uuid t)])))"

definition own_key ::
  "string \<Rightarrow> key_code \<Rightarrow> app \<Rightarrow> (app \<times> tui_command list) option outcome" where
  "own_key dest code a =
     (if ap_input_mode a \<noteq> None then Return None
      else if code = K_Char ''a'' \<and> ap_focus a = F_Transfers
      then Return
        (case (current_remote a, current_transfer a) of
           (Some r, Some t) \<Rightarrow>
             if t_state t = WaitingPermission \<and> is_incoming t
             then Some (a\<lparr>ap_input_mode := Some IM_AcceptDestination, ap_input_buf := dest,
                          ap_pending_accept := Some (r_uuid r, t_uuid t)\<rparr>, [])
             else None
         | _ \<Rightarrow> None)
      else if code = K_Char ''r'' \<and> ap_focus a = F_Transfers
      then transfer_key (\<lambda>t. t_state t = WaitingPermission) CancelTransfer a
      else if code = K_Char ''c'' \<and> ap_focus a = F_Remotes
      then Return
        (case current_remote a of
           Some r \<Rightarrow> if may_connect (r_state r) then Some (a, [ConnectRemote (r_uuid r)]) else None
         | None \<Rightarrow> None)
      else if code = K_Char ''x'' \<and> ap_focus a = F_Transfers
      then transfer_key (\<lambda>t. t_state t = InProgress) StopTransfer a
      else if code = K_Delete \<and> ap_focus a = F_Transfers
      then transfer_key (\<lambda>t. is_over (t_state t)) RemoveTransferOf a
      else if code = K_Delete \<and> ap_focus a = F_Messages
      then (case current_message a of
              None \<Rightarrow> Return None
            | Some x \<Rightarrow>
               (case current_remote a of
                  None \<Rightarrow> Panic
                | Some r \<Rightarrow> Return (Some (a, [RemoveMessageOf (r_uuid r) (m_uuid x)]))))
      else Return None)"

text \<open>One key press: whether the loop ends, the new state, and what is spawned.\<close>

definition run_key :: "string \<Rightarrow> key_code \<Rightarrow> app \<Rightarrow> (bool \<times> app \<times> tui_command list) outcome" where
  "run_key dest code a =
     (case (if code = K_Enter then consume_input a else (None, a)) of
        (Some (mode, text), a1) \<Rightarrow>
         (case handle_key code a1 of
            (True, a2) \<Rightarrow> Return (True, a2, [])
          | (False, a2) \<Rightarrow> (case confirm_input mode text a2 of (a3, cmds) \<Rightarrow> Return (False, a3, cmds)))
      | (None, a1) \<Rightarrow>
         (case own_key dest code a1 of
            Panic \<Rightarrow> Panic
          | Return (Some (a2, cmds)) \<Rightarrow> Return (False, a2, cmds)
          | Return None \<Rightarrow> (case handle_key code a1 of (quit, a2) \<Rightarrow> Return (quit, a2, []))))"

text \<open>
  The loop over ticks and events, until a key quits, the channel is closed or drawing fails. The
  result has all commands, in order.
\<close>

datatype tui_input = TuiDraw | TuiDrawFailed string | TuiKey string key_code | TuiEvent nat app_event | TuiClosed

fun tui_run :: "tui_input list \<Rightarrow> app \<Rightarrow> (app \<times> tui_command list) outcome" where
  "tui_run [] a = Return (a, [])"
| "tui_run (TuiDraw # xs) a = tui_run xs a"
| "tui_run (TuiDrawFailed e # xs) a = Return (a, [])"
| "tui_run (TuiClosed # xs) a = Return (a, [])"
| "tui_run (TuiEvent now ev # xs) a = tui_run xs (handle_event now ev a)"
| "tui_run (TuiKey dest code # xs) a =
     (case run_key dest code a of
        Panic \<Rightarrow> Panic
      | Return (True, a1, cmds) \<Rightarrow> Return (a1, cmds)
      | Return (False, a1, cmds) \<Rightarrow>
         (case tui_run xs a1 of Panic \<Rightarrow> Panic | Return (a2, later) \<Rightarrow> Return (a2, cmds @ later)))"

text \<open>What \<open>run\<close> returns: an error only when drawing fails before the loop ends otherwise.\<close>

fun tui_result :: "tui_input list \<Rightarrow> app \<Rightarrow> (unit, string) result outcome" where
  "tui_result [] a = Return (Ok ())"
| "tui_result (TuiDraw # xs) a = tui_result xs a"
| "tui_result (TuiDrawFailed e # xs) a = Return (Err e)"
| "tui_result (TuiClosed # xs) a = Return (Ok ())"
| "tui_result (TuiEvent now ev # xs) a = tui_result xs (handle_event now ev a)"
| "tui_result (TuiKey dest code # xs) a =
     (case run_key dest code a of
        Panic \<Rightarrow> Panic
      | Return (True, a1, cmds) \<Rightarrow> Return (Ok ())
      | Return (False, a1, cmds) \<Rightarrow> tui_result xs a1)"

end
