(* ===== verification/Warp_Tui_Inv.thy ===== *)
theory Warp_Tui_Inv
  imports Warp_Tui
begin

text \<open>
  The invariant of the terminal interface: whatever the library reports and whatever keys are
  pressed, the selections stay in range, the log stays bounded, and the two halves of the accept
  dialogue agree. Hence no \<open>unwrap\<close> of the key handling fails.
\<close>

section \<open>The invariant\<close>

definition selection_ok :: "app \<Rightarrow> bool" where
  "selection_ok a \<longleftrightarrow>
     (if ap_remotes a = [] then ap_selected_remote a = 0
      else ap_selected_remote a < length (ap_remotes a))
     \<and> (ap_selected_transfer a = 0 \<or> ap_selected_transfer a < length (current_transfers a))"

definition dialogue_ok :: "app \<Rightarrow> bool" where
  "dialogue_ok a \<longleftrightarrow>
     (ap_pending_accept a \<noteq> None \<longleftrightarrow> ap_input_mode a = Some IM_AcceptDestination)"

definition tui_inv :: "app \<Rightarrow> bool" where
  "tui_inv a \<longleftrightarrow> selection_ok a \<and> length (ap_log a) \<le> 200 \<and> dialogue_ok a"

text \<open>What the selection depends on, for the operations that leave it alone.\<close>

lemma selection_ok_cong:
  assumes "ap_remotes b = ap_remotes a" "ap_selected_remote b = ap_selected_remote a"
    "ap_transfers b = ap_transfers a" "ap_selected_transfer b = ap_selected_transfer a"
  shows "selection_ok b = selection_ok a"
  unfolding selection_ok_def current_transfers_def current_remote_def assms ..

lemma app_log_simps [simp]:
  "ap_remotes (app_log s a) = ap_remotes a" "ap_selected_remote (app_log s a) = ap_selected_remote a"
  "ap_transfers (app_log s a) = ap_transfers a"
  "ap_selected_transfer (app_log s a) = ap_selected_transfer a"
  "ap_selected_message (app_log s a) = ap_selected_message a"
  "ap_input_mode (app_log s a) = ap_input_mode a"
  "ap_pending_accept (app_log s a) = ap_pending_accept a" "ap_focus (app_log s a) = ap_focus a"
  by (simp_all add: app_log_def Let_def)

lemma app_log_bound: "length (ap_log a) \<le> 200 \<Longrightarrow> length (ap_log (app_log s a)) \<le> 200"
  by (auto simp: app_log_def Let_def)

lemma tui_inv_app_log [simp]: "tui_inv a \<Longrightarrow> tui_inv (app_log s a)"
  unfolding tui_inv_def dialogue_ok_def
  using selection_ok_cong [of "app_log s a" a] app_log_bound by simp

lemma tui_inv_new: "tui_inv app_new"
  by (simp add: tui_inv_def selection_ok_def dialogue_ok_def app_new_def)

section \<open>Events\<close>

lemma nth_opt_map: "nth_opt (map f xs) i = map_option f (nth_opt xs i)"
  by (simp add: nth_opt_def)

lemma current_transfers_by_uuid:
  "current_transfers a =
     (case nth_opt (map r_uuid (ap_remotes a)) (ap_selected_remote a) of
        None \<Rightarrow> [] | Some u \<Rightarrow> (case ap_transfers a u of None \<Rightarrow> [] | Some ts \<Rightarrow> ts))"
  by (simp add: current_transfers_def current_remote_def nth_opt_map split: option.splits)

text \<open>Events that keep the list of remote UUIDs and only change how many transfers a remote has.\<close>

lemma selection_ok_transfers:
  assumes inv: "selection_ok a" and uuids: "map r_uuid (ap_remotes b) = map r_uuid (ap_remotes a)"
    and remote: "ap_selected_remote b = ap_selected_remote a"
    and fits: "ap_selected_transfer b = 0 \<or> ap_selected_transfer b < length (current_transfers b)"
  shows "selection_ok b"
proof -
  have len: "length (ap_remotes b) = length (ap_remotes a)" using uuids map_eq_imp_length_eq by blast
  then have "ap_remotes b = [] \<longleftrightarrow> ap_remotes a = []" by (metis length_0_conv)
  with len show ?thesis using inv remote fits by (simp add: selection_ok_def split: if_splits)
qed

lemma map_uuid_upd_remote:
  "(\<And>r. P r \<Longrightarrow> r_uuid (f r) = r_uuid r) \<Longrightarrow> map r_uuid (upd_first P f xs) = map r_uuid xs"
  by (induction xs) auto

lemma map_uuid_replace [simp]:
  "map r_uuid (upd_first (is_remote (r_uuid r)) (\<lambda>_. r) xs) = map r_uuid xs"
  by (rule map_uuid_upd_remote) (simp add: is_remote_def)

definition transfers_of :: "app \<Rightarrow> string \<Rightarrow> transfer list" where
  "transfers_of a u = (case ap_transfers a u of None \<Rightarrow> [] | Some ts \<Rightarrow> ts)"

lemma current_transfers_of:
  "current_transfers a =
     (case nth_opt (map r_uuid (ap_remotes a)) (ap_selected_remote a) of
        None \<Rightarrow> [] | Some u \<Rightarrow> transfers_of a u)"
  unfolding current_transfers_by_uuid transfers_of_def ..

lemma selection_ok_grow:
  assumes "selection_ok a" and "map r_uuid (ap_remotes b) = map r_uuid (ap_remotes a)"
    and "ap_selected_remote b = ap_selected_remote a"
    and "ap_selected_transfer b = ap_selected_transfer a"
    and "\<And>u. length (transfers_of a u) \<le> length (transfers_of b u)"
  shows "selection_ok b"
proof (rule selection_ok_transfers [OF assms(1-3)])
  have "length (current_transfers a) \<le> length (current_transfers b)"
    using assms(2,3,5) by (simp add: current_transfers_of split: option.splits)
  then show "ap_selected_transfer b = 0 \<or> ap_selected_transfer b < length (current_transfers b)"
    using assms(1,4) by (auto simp: selection_ok_def)
qed

lemma clamp_fits: "clamp_selection i n = 0 \<or> clamp_selection i n < n"
  by (auto simp: clamp_selection_def)

lemma clamp_le: "clamp_selection i n \<le> i"
  by (auto simp: clamp_selection_def)

lemma selection_ok_removed:
  assumes inv: "selection_ok a" and "ap_transfers a ru = Some ts"
  shows "selection_ok (a\<lparr>ap_transfers := (ap_transfers a)(ru \<mapsto> left),
    ap_selected_transfer := clamp_selection (ap_selected_transfer a) (length left)\<rparr>)"
proof (rule selection_ok_transfers [OF inv])
  let ?b = "a\<lparr>ap_transfers := (ap_transfers a)(ru \<mapsto> left),
    ap_selected_transfer := clamp_selection (ap_selected_transfer a) (length left)\<rparr>"
  show "ap_selected_transfer ?b = 0 \<or> ap_selected_transfer ?b < length (current_transfers ?b)"
  proof (cases "nth_opt (map r_uuid (ap_remotes a)) (ap_selected_remote a) = Some ru")
    case True
    then show ?thesis by (simp add: current_transfers_by_uuid clamp_fits)
  next
    case False
    then have "current_transfers ?b = current_transfers a"
      by (auto simp: current_transfers_by_uuid split: option.splits)
    moreover have "ap_selected_transfer a = 0 \<or> ap_selected_transfer a < length (current_transfers a)"
      using inv by (simp add: selection_ok_def)
    ultimately show ?thesis
      using clamp_le [of "ap_selected_transfer a" "length left"] by auto
  qed
qed simp_all

lemma selection_ok_remote_added:
  assumes "selection_ok a"
  shows "selection_ok (handle_event now (AE_RemoteAdded r) a)"
proof -
  let ?b = "handle_event now (AE_RemoteAdded r) a"
  have t: "transfers_of ?b = transfers_of a"
    by (auto simp: fun_eq_iff transfers_of_def handle_event_def)
  show ?thesis
  proof (cases "ap_remotes a = []")
    case True
    then show ?thesis
      using assms
      by (simp add: selection_ok_def handle_event_def current_transfers_def current_remote_def nth_opt_def)
  next
    case False
    then have i: "ap_selected_remote a < length (ap_remotes a)" using assms by (simp add: selection_ok_def)
    then have "current_transfers ?b = current_transfers a"
      by (simp only: current_transfers_of t)
        (simp add: nth_opt_def handle_event_def nth_append)
    then show ?thesis using assms False i by (simp add: selection_ok_def handle_event_def)
  qed
qed

lemma selection_ok_event:
  assumes inv: "selection_ok a"
  shows "selection_ok (handle_event now ev a)"
proof (cases ev)
  case (AE_RemoteAdded r)
  then show ?thesis using selection_ok_remote_added [OF inv] by simp
next
  case (AE_RemoteUpdated r)
  show ?thesis
    by (rule selection_ok_grow [OF inv])
      (simp_all add: AE_RemoteUpdated handle_event_def transfers_of_def is_remote_def map_uuid_upd_remote)
next
  case (AE_TransferAdded ru t)
  show ?thesis
    by (rule selection_ok_grow [OF inv])
      (auto simp: AE_TransferAdded handle_event_def transfers_of_def split: option.splits)
next
  case (AE_TransferUpdated ru t)
  show ?thesis
    by (rule selection_ok_grow [OF inv])
      (auto simp: AE_TransferUpdated handle_event_def transfers_of_def split: option.splits)
next
  case (AE_TransferRemoved ru tu)
  show ?thesis
  proof (cases "ap_transfers a ru")
    case None
    then show ?thesis using inv by (simp add: AE_TransferRemoved handle_event_def)
  next
    case (Some ts)
    show ?thesis
      using selection_ok_removed [OF inv Some] by (simp add: AE_TransferRemoved handle_event_def Some Let_def)
  qed
next
  case (AE_MessageAdded ru x)
  show ?thesis
    by (rule selection_ok_grow [OF inv])
      (simp_all add: AE_MessageAdded handle_event_def transfers_of_def map_uuid_upd_remote)
next
  case (AE_MessageRemoved ru mu)
  show ?thesis
    by (rule selection_ok_grow [OF inv])
      (auto simp: AE_MessageRemoved handle_event_def transfers_of_def map_uuid_upd_remote Let_def
        split: option.splits)
next
  case (AE_Log line)
  then show ?thesis using inv selection_ok_cong [of "app_log line a" a] by (simp add: handle_event_def)
qed (simp add: inv handle_event_def)

lemma event_frame:
  "ap_input_mode (handle_event now ev a) = ap_input_mode a"
  "ap_pending_accept (handle_event now ev a) = ap_pending_accept a"
  "length (ap_log a) \<le> 200 \<Longrightarrow> length (ap_log (handle_event now ev a)) \<le> 200"
  by (cases ev; simp add: handle_event_def Let_def app_log_bound split: option.splits)+

lemma tui_inv_event: "tui_inv a \<Longrightarrow> tui_inv (handle_event now ev a)"
  unfolding tui_inv_def dialogue_ok_def by (simp add: selection_ok_event event_frame)


section \<open>Keys\<close>

lemma next_index_less: "0 < n \<Longrightarrow> next_index i n < n"
  by (simp add: next_index_def)

lemma prev_index_less: "i < n \<Longrightarrow> prev_index i n < n"
  by (auto simp: prev_index_def)

text \<open>\<open>move\<close> may assume an index in range, or 0 of a list that is not empty.\<close>

lemma selection_ok_move:
  assumes inv: "selection_ok a" and move: "\<And>i n. i < n \<Longrightarrow> move i n < n"
  shows "selection_ok (move_selection move a)"
proof (cases "ap_focus a")
  case F_Remotes
  show ?thesis
  proof (cases "ap_remotes a = []")
    case False
    then have "ap_selected_remote a < length (ap_remotes a)" using inv by (simp add: selection_ok_def)
    from move [OF this] show ?thesis using F_Remotes False by (simp add: selection_ok_def move_selection_def)
  qed (use inv F_Remotes in \<open>simp add: move_selection_def\<close>)
next
  case F_Transfers
  show ?thesis
  proof (cases "current_transfers a = []")
    case False
    then have "ap_selected_transfer a < length (current_transfers a)" using inv by (auto simp: selection_ok_def)
    from move [OF this] show ?thesis
      using False F_Transfers
      by (intro selection_ok_transfers [OF inv])
        (simp_all add: move_selection_def current_transfers_by_uuid Let_def cong: option.case_cong)
  qed (use inv F_Transfers in \<open>simp add: move_selection_def\<close>)
next
  case F_Messages
  have "selection_ok (a\<lparr>ap_selected_message := i\<rparr>)" for i
    using inv selection_ok_cong [of "a\<lparr>ap_selected_message := i\<rparr>" a] by simp
  then show ?thesis using inv F_Messages by (simp add: move_selection_def Let_def)
qed

lemma move_frame [simp]:
  "ap_log (move_selection move a) = ap_log a"
  "ap_input_mode (move_selection move a) = ap_input_mode a"
  "ap_pending_accept (move_selection move a) = ap_pending_accept a"
  by (simp_all add: move_selection_def Let_def split: focus.splits)

lemma tui_inv_move:
  assumes "tui_inv a"
  shows "tui_inv (move_down a)" "tui_inv (move_up a)"
proof -
  have "next_index i n < n" if "i < n" for i n using that by (intro next_index_less) simp
  then show "tui_inv (move_down a)" "tui_inv (move_up a)"
    using assms selection_ok_move [of a next_index] selection_ok_move [of a prev_index] prev_index_less
    by (simp_all add: tui_inv_def dialogue_ok_def move_down_def move_up_def)
qed

text \<open>Changes of the dialogue and of the focus.\<close>

lemma tui_inv_dialogue:
  assumes "tui_inv a" and "p \<noteq> None \<longleftrightarrow> mode = Some IM_AcceptDestination"
  shows "tui_inv (a\<lparr>ap_input_mode := mode, ap_input_buf := buf, ap_pending_accept := p\<rparr>)"
  using assms
    selection_ok_cong [of "a\<lparr>ap_input_mode := mode, ap_input_buf := buf, ap_pending_accept := p\<rparr>" a]
  by (simp add: tui_inv_def dialogue_ok_def)

lemma tui_inv_focus: "tui_inv a \<Longrightarrow> tui_inv (a\<lparr>ap_focus := x\<rparr>)"
  using selection_ok_cong [of "a\<lparr>ap_focus := x\<rparr>" a] by (simp add: tui_inv_def dialogue_ok_def)

lemma tui_inv_buf: "tui_inv a \<Longrightarrow> tui_inv (a\<lparr>ap_input_buf := x\<rparr>)"
  using selection_ok_cong [of "a\<lparr>ap_input_buf := x\<rparr>" a] by (simp add: tui_inv_def dialogue_ok_def)

lemma tui_inv_open_input:
  assumes "tui_inv a" and "ap_input_mode a = None" and "mode \<noteq> IM_AcceptDestination"
  shows "tui_inv (open_input mode a)"
  using assms selection_ok_cong [of "a\<lparr>ap_input_mode := Some mode, ap_input_buf := []\<rparr>" a]
  by (auto simp: open_input_def tui_inv_def dialogue_ok_def)

lemma tui_inv_action_keys: "tui_inv a \<Longrightarrow> tui_inv (handle_action_keys code a)"
  by (auto simp: handle_action_keys_def split: focus.splits option.splits)

lemma tui_inv_input_key:
  assumes inv: "tui_inv a" and mode: "ap_input_mode a \<noteq> None" and key: "code \<noteq> K_Enter"
  shows "tui_inv (handle_input_key code a)"
  using key tui_inv_dialogue [OF inv, of None None "[]"] inv
  by (cases code) (simp_all add: handle_input_key_def tui_inv_buf)

lemma tui_inv_handle_key:
  assumes inv: "tui_inv a" and key: "ap_input_mode a \<noteq> None \<Longrightarrow> code \<noteq> K_Enter"
  shows "tui_inv (snd (handle_key code a))"
proof (cases "ap_input_mode a = None")
  case False
  then show ?thesis using tui_inv_input_key [OF inv False key] by (simp add: handle_key_def)
next
  case True
  show ?thesis
    using inv True tui_inv_move [OF inv] tui_inv_focus [OF inv] tui_inv_open_input [OF inv True]
      tui_inv_action_keys [OF inv]
    by (auto simp: handle_key_def split: focus.splits option.splits)
qed

text \<open>The \<open>unwrap\<close> of the transfer and message keys: a selected item has a selected remote.\<close>

lemma current_transfer_has_remote: "current_transfer a = Some t \<Longrightarrow> current_remote a \<noteq> None"
  by (auto simp: current_transfer_def current_transfers_def nth_opt_def split: option.splits)

lemma current_message_has_remote: "current_message a = Some x \<Longrightarrow> current_remote a \<noteq> None"
  by (auto simp: current_message_def current_messages_def nth_opt_def split: option.splits)

lemma transfer_key_Return:
  obtains "transfer_key applies command a = Return None"
  | cmd where "transfer_key applies command a = Return (Some (a, [cmd]))"
proof (cases "current_transfer a")
  case None
  then show ?thesis using that(1) by (simp add: transfer_key_def)
next
  case (Some t)
  then obtain r where "current_remote a = Some r" using current_transfer_has_remote by blast
  with Some that show ?thesis by (cases "applies t") (simp_all add: transfer_key_def)
qed

lemma own_key_inv:
  assumes inv: "tui_inv a"
  shows "\<exists>x. own_key dest code a = Return x \<and> (\<forall>b cmds. x = Some (b, cmds) \<longrightarrow> tui_inv b)"
proof (cases "ap_input_mode a = None")
  case True
  have open_dialogue: "tui_inv (a\<lparr>ap_input_mode := Some IM_AcceptDestination, ap_input_buf := dest,
      ap_pending_accept := Some p\<rparr>)" for p
    using inv by (rule tui_inv_dialogue) simp
  have msg: "current_message a = Some x \<Longrightarrow> \<exists>r. current_remote a = Some r" for x
    using current_message_has_remote by auto
  have key: "\<exists>y. transfer_key applies command a = Return y \<and> (\<forall>b cmds. y = Some (b, cmds) \<longrightarrow> tui_inv b)"
    for applies command
    using inv by (rule_tac transfer_key_Return [of applies command a]) auto
  show ?thesis
    using inv open_dialogue key msg unfolding own_key_def
    by (auto simp: True split: option.splits)
qed (simp add: own_key_def)

lemma run_key_inv:
  assumes inv: "tui_inv a"
  shows "\<exists>quit b cmds. run_key dest code a = Return (quit, b, cmds) \<and> tui_inv b"
proof (cases "code = K_Enter \<and> ap_input_mode a \<noteq> None")
  case True
  then obtain mode where mode: "ap_input_mode a = Some mode" by auto
  let ?a = "a\<lparr>ap_input_mode := None, ap_input_buf := []\<rparr>"
  have "tui_inv (fst (confirm_input mode (ap_input_buf a) ?a))"
    using inv tui_inv_dialogue [OF inv, of None None "[]"] mode selection_ok_cong [of ?a a]
    by (cases mode) (simp_all add: confirm_input_def tui_inv_def dialogue_ok_def)
  moreover obtain b cmds where "confirm_input mode (ap_input_buf a) ?a = (b, cmds)" by fastforce
  ultimately show ?thesis
    using True mode by (auto simp: run_key_def consume_input_def handle_key_def)
next
  case False
  then have step: "run_key dest code a =
      (case own_key dest code a of
         Panic \<Rightarrow> Panic
       | Return (Some (a2, cmds)) \<Rightarrow> Return (False, a2, cmds)
       | Return None \<Rightarrow> (case handle_key code a of (quit, a2) \<Rightarrow> Return (quit, a2, [])))"
    by (auto simp: run_key_def consume_input_def)
  have "tui_inv (snd (handle_key code a))" by (rule tui_inv_handle_key [OF inv]) (use False in auto)
  moreover obtain x where "own_key dest code a = Return x"
    and "\<forall>b cmds. x = Some (b, cmds) \<longrightarrow> tui_inv b"
    using own_key_inv [OF inv] by blast
  ultimately show ?thesis
    by (cases x) (auto simp: step split: prod.splits)
qed

lemma tui_run_inv: "tui_inv a \<Longrightarrow> \<exists>b cmds. tui_run xs a = Return (b, cmds) \<and> tui_inv b"
proof (induction xs a rule: tui_run.induct)
  case (6 dest code xs a)
  obtain quit b cmds where k: "run_key dest code a = Return (quit, b, cmds)" "tui_inv b"
    using run_key_inv [OF 6(2)] by blast
  show ?case
  proof (cases quit)
    case False
    with 6(1) [OF k(1) refl _ refl] k obtain c more_cmds
      where "tui_run xs b = Return (c, more_cmds)" "tui_inv c" by auto
    with False k show ?thesis by simp
  qed (use k in simp)
qed (simp_all add: tui_inv_event)

section \<open>Properties\<close>


end
