(* ===== verification/Warp_Tui_Mirror.thy ===== *)
theory Warp_Tui_Mirror
  imports Warp_Tui_Inv
begin

text \<open>
  The terminal interface as a copy of the manager. Every event of the manager is hydrated and
  handled before the next operation; the user may press keys at any time. The remotes shown, with
  their transfers and messages, are then the remotes announced. \<open>shown\<close> is the abstraction
  function; each operation of the manager is simulated by the handling of its events.
\<close>

section \<open>The two sides\<close>

definition deliver :: "nat \<Rightarrow> manager \<Rightarrow> warp_event \<Rightarrow> app \<Rightarrow> app" where
  "deliver now m ev a = (case hydrate ev m of None \<Rightarrow> a | Some x \<Rightarrow> handle_event now x a)"

datatype view_op = Operation nat mgr_op | KeyPress string key_code

fun view_step :: "view_op \<Rightarrow> manager \<times> app \<Rightarrow> manager \<times> app" where
  "view_step (Operation now e) (m, a) =
     (let m1 = mgr_step e m
      in (m1, fold (deliver now m1) (drop (length (mg_events m)) (mg_events m1)) a))"
| "view_step (KeyPress dest code) (m, a) =
     (m, case run_key dest code a of Return (quit, b, cmds) \<Rightarrow> b | Panic \<Rightarrow> a)"

text \<open>A remote as the interface shows it: its copy, with the transfers of the separate table.\<close>

definition shown :: "app \<Rightarrow> string \<Rightarrow> remote option" where
  "shown a u = map_option (\<lambda>r. r\<lparr>r_transfers := transfers_of a u\<rparr>) (find (is_remote u) (ap_remotes a))"

definition announced :: "manager \<Rightarrow> string \<Rightarrow> remote option" where
  "announced m u = (if RemoteAdded u \<in> set (mg_events m) then get_remote u m else None)"

definition filed_transfers :: "manager \<Rightarrow> string \<Rightarrow> transfer list" where
  "filed_transfers m u = (case mg_remotes m u of None \<Rightarrow> [] | Some r \<Rightarrow> r_transfers r)"

text \<open>
  Beyond \<open>op_ok\<close>: a remote is added once, closures on remotes leave the messages alone, messages
  have fresh UUIDs, and the event of a transfer update is not dropped by the full queue.
\<close>

definition closure_keeps_messages :: "(remote \<Rightarrow> remote) \<Rightarrow> bool" where
  "closure_keeps_messages f \<longleftrightarrow> (\<forall>r. r_messages (f r) = r_messages r)"

fun reported :: "mgr_op \<Rightarrow> manager \<Rightarrow> bool" where
  "reported (InsertRemote r) m \<longleftrightarrow> mg_remotes m (r_uuid r) = None \<and> r_messages r = []"
| "reported (AnnounceRemote i u) m \<longleftrightarrow> RemoteAdded u \<notin> set (mg_events m)"
| "reported (UpdateRemote u f) m \<longleftrightarrow> closure_keeps_messages f"
| "reported (UpdateTransfer q ru tu f) m \<longleftrightarrow>
     (case get_transfer ru tu m of
        None \<Rightarrow> True
      | Some t \<Rightarrow> q < 128 \<or> discriminant (t_state (f t)) \<noteq> discriminant (t_state t))"
| "reported (AddMessage ru x) m \<longleftrightarrow> get_message ru (m_uuid x) m = None"
| "reported _ m \<longleftrightarrow> True"

fun view_ok :: "view_op \<Rightarrow> manager \<times> app \<Rightarrow> bool" where
  "view_ok (Operation now e) (m, a) \<longleftrightarrow> op_ok e m \<and> reported e m"
| "view_ok (KeyPress dest code) (m, a) \<longleftrightarrow> True"

definition messages_wf :: "manager \<Rightarrow> bool" where
  "messages_wf m \<longleftrightarrow> (\<forall>u r. mg_remotes m u = Some r \<longrightarrow> distinct (map m_uuid (r_messages r)))"

definition mirror :: "manager \<Rightarrow> app \<Rightarrow> bool" where
  "mirror m a \<longleftrightarrow> (\<forall>u. shown a u = announced m u \<and> transfers_of a u = filed_transfers m u)"

fun view_inv :: "manager \<times> app \<Rightarrow> bool" where
  "view_inv (m, a) \<longleftrightarrow> mgr_inv m \<and> messages_wf m \<and> mirror m a"

section \<open>Keys\<close>

definition copy :: "app \<Rightarrow> remote list \<times> (string \<rightharpoonup> transfer list)" where
  "copy a = (ap_remotes a, ap_transfers a)"

lemma mirror_cong: "copy b = copy a \<Longrightarrow> mirror m b = mirror m a"
  by (simp add: mirror_def shown_def transfers_of_def copy_def)

lemma copy_simps [simp]:
  "copy (app_log s a) = copy a"
  "copy (a\<lparr>ap_selected_remote := i\<rparr>) = copy a" "copy (a\<lparr>ap_selected_transfer := i\<rparr>) = copy a"
  "copy (a\<lparr>ap_selected_message := i\<rparr>) = copy a" "copy (a\<lparr>ap_focus := x\<rparr>) = copy a"
  "copy (a\<lparr>ap_input_mode := mode\<rparr>) = copy a" "copy (a\<lparr>ap_input_buf := s\<rparr>) = copy a"
  "copy (a\<lparr>ap_pending_accept := p\<rparr>) = copy a"
  by (simp_all add: copy_def)

lemma copy_move [simp]: "copy (move_selection move a) = copy a"
  by (simp add: move_selection_def Let_def split: focus.splits)

lemma copy_open_input [simp]: "copy (open_input mode a) = copy a"
  by (simp add: open_input_def)

lemma copy_action_keys [simp]: "copy (handle_action_keys code a) = copy a"
  by (simp add: handle_action_keys_def split: focus.splits option.splits)

lemma copy_input_key [simp]: "copy (handle_input_key code a) = copy a"
  by (cases code) (simp_all add: handle_input_key_def Let_def split: option.splits input_mode.splits)

lemma copy_connect_key [simp]:
  "copy (case ap_focus a of
     F_Remotes \<Rightarrow>
       (case current_remote a of
          None \<Rightarrow> a
        | Some r \<Rightarrow>
            if r_state r \<noteq> Connected
            then app_log (''Connecting to '' @ r_display_name r @ ''...'') a else a)
   | _ \<Rightarrow> a) = copy a"
  by (simp split: focus.splits option.splits)

lemma copy_handle_key: "copy (snd (handle_key code a)) = copy a"
  unfolding handle_key_def move_down_def move_up_def by simp

lemma copy_confirm: "copy (fst (confirm_input mode text a)) = copy a"
  by (simp add: confirm_input_def split: input_mode.splits)

lemma copy_own_key: "own_key dest code a = Return (Some (b, cmds)) \<Longrightarrow> copy b = copy a"
  by (auto simp: own_key_def transfer_key_def split: if_splits option.splits)

lemma copy_run_key:
  assumes "run_key dest code a = Return (quit, b, cmds)"
  shows "copy b = copy a"
proof (cases "code = K_Enter \<and> ap_input_mode a \<noteq> None")
  case True
  then obtain mode where mode: "ap_input_mode a = Some mode" by auto
  let ?a = "a\<lparr>ap_input_mode := None, ap_input_buf := []\<rparr>"
  have "b = fst (confirm_input mode (ap_input_buf a) ?a)"
    using assms True mode
    by (auto simp: run_key_def consume_input_def handle_key_def split: prod.splits)
  then show ?thesis by (simp add: copy_confirm)
next
  case False
  then have enter: "(if code = K_Enter then consume_input a else (None, a)) = (None, a)"
    by (auto simp: consume_input_def)
  show ?thesis
    using assms copy_own_key [of dest code a] copy_handle_key [of code a]
    by (auto simp: run_key_def enter split: outcome.splits option.splits prod.splits)
qed


lemma mirror_key:
  assumes "mirror m a"
  shows "mirror m (snd (view_step (KeyPress dest code) (m, a)))"
proof (cases "run_key dest code a")
  case (Return x)
  then obtain quit b cmds where k: "run_key dest code a = Return (quit, b, cmds)" by (cases x) auto
  show ?thesis using assms by (simp add: k mirror_cong [OF copy_run_key [OF k]])
qed (use assms in simp)

section \<open>One event at a time\<close>

text \<open>An operation that replaces the remote under \<open>u\<close> and reports it with one event.\<close>

lemma mirror_put:
  assumes mir: "mirror m a" and old: "mg_remotes m u = Some r"
    and new: "mg_remotes m1 = (mg_remotes m)(u \<mapsto> r1)"
    and ev: "mg_events m1 = mg_events m @ [e]" "\<And>v. e \<noteq> RemoteAdded v"
    and other: "\<And>v. v \<noteq> u \<Longrightarrow> shown b v = shown a v \<and> transfers_of b v = transfers_of a v"
    and same: "transfers_of b u = r_transfers r1"
    and hidden: "find (is_remote u) (ap_remotes a) = None \<Longrightarrow> shown b u = None"
    and visible: "\<And>s. find (is_remote u) (ap_remotes a) = Some s \<Longrightarrow>
      s\<lparr>r_transfers := r_transfers r\<rparr> = r \<Longrightarrow> shown b u = Some r1"
  shows "mirror m1 b"
  unfolding mirror_def
proof
  fix v
  have a: "shown a v = announced m v" "transfers_of a v = filed_transfers m v"
    using mir by (simp_all add: mirror_def)
  show "shown b v = announced m1 v \<and> transfers_of b v = filed_transfers m1 v"
  proof (cases "v = u")
    case False
    then show ?thesis
      using a other [OF False] new ev by (auto simp: announced_def filed_transfers_def get_remote_def)
  next
    case True
    have f: "transfers_of a u = r_transfers r" using a(2) old True by (simp add: filed_transfers_def)
    have "shown b u = announced m1 u"
    proof (cases "RemoteAdded u \<in> set (mg_events m)")
      case ann: True
      then have "shown a u = Some r" using a(1) old True by (simp add: announced_def get_remote_def)
      then obtain s where "find (is_remote u) (ap_remotes a) = Some s" "s\<lparr>r_transfers := r_transfers r\<rparr> = r"
        using f by (auto simp: shown_def)
      from visible [OF this] ann show ?thesis using new ev by (simp add: announced_def get_remote_def)
    next
      case False
      then have "find (is_remote u) (ap_remotes a) = None"
        using a(1) True by (simp add: announced_def shown_def)
      from hidden [OF this] False show ?thesis using ev by (simp add: announced_def) (metis ev(2))
    qed
    then show ?thesis using same new True by (simp add: filed_transfers_def)
  qed
qed

lemma find_other_remote:
  "v \<noteq> u \<Longrightarrow> (\<And>r. is_remote u r \<Longrightarrow> r_uuid (f r) = u) \<Longrightarrow>
    find (is_remote v) (upd_first (is_remote u) f xs) = find (is_remote v) xs"
  by (rule find_upd_first_other) (auto simp: is_remote_def)

lemma find_other_messages:
  "v \<noteq> u \<Longrightarrow> find (is_remote v) (upd_first (is_remote u) (\<lambda>s. s\<lparr>r_messages := g s\<rparr>) xs) =
    find (is_remote v) xs"
  by (rule find_other_remote) (simp_all add: is_remote_def)

lemma upd_first_const: "find P xs = Some t \<Longrightarrow> upd_first P (\<lambda>_. f t) xs = upd_first P f xs"
  by (induction xs) (auto split: if_splits)

lemma filter_del_first:
  "distinct (map g xs) \<Longrightarrow> filter (\<lambda>x. g x \<noteq> k) xs = del_first (\<lambda>x. g x = k) xs"
proof (induction xs)
  case (Cons x xs)
  have "filter (\<lambda>y. g y \<noteq> k) xs = xs" if "g x = k"
    using that Cons.prems by (intro filter_True) (auto, metis image_eqI)
  then show ?case using Cons by auto
qed simp

lemma transfers_of_Some: "transfers_of a u \<noteq> [] \<Longrightarrow> ap_transfers a u = Some (transfers_of a u)"
  by (auto simp: transfers_of_def split: option.splits)

lemma messages_transfers_commute:
  "(s :: remote)\<lparr>r_messages := xs, r_transfers := ts\<rparr> = s\<lparr>r_transfers := ts, r_messages := xs\<rparr>"
  by (cases s) simp

text \<open>The record update that \<open>shown\<close> makes, seen through another update.\<close>

lemma retransfer:
  assumes "s\<lparr>r_transfers := ts\<rparr> = (r :: remote)"
  shows "s\<lparr>r_transfers := X\<rparr> = r\<lparr>r_transfers := X\<rparr>" "r_messages s = r_messages r"
  using assms by auto


section \<open>Each operation is simulated\<close>

lemma mirror_remote_updated:
  assumes mir: "mirror m a" and old: "mg_remotes m u = Some r" and uuid: "r_uuid r1 = u"
    and transfers: "r_transfers r1 = r_transfers r"
    and new: "mg_remotes m1 = (mg_remotes m)(u \<mapsto> r1)"
    and ev: "mg_events m1 = mg_events m @ [RemoteUpdated u]"
  shows "mirror m1 (deliver now m1 (RemoteUpdated u) a)"
proof -
  have b: "deliver now m1 (RemoteUpdated u) a =
      a\<lparr>ap_remotes := upd_first (is_remote u) (\<lambda>_. r1) (ap_remotes a)\<rparr>"
    using new uuid by (simp add: deliver_def hydrate_def get_remote_def handle_event_def)
  have f: "transfers_of a u = r_transfers r"
    using mir old by (simp add: mirror_def filed_transfers_def)
  show ?thesis
    unfolding b
  proof (rule mirror_put [OF mir old new ev])
    fix s assume s: "find (is_remote u) (ap_remotes a) = Some s"
    have "find (is_remote u) (upd_first (is_remote u) (\<lambda>_. r1) (ap_remotes a)) = Some r1"
      using find_upd_first_same [OF s, of "\<lambda>_. r1"] uuid by (simp add: is_remote_def)
    then show "shown (a\<lparr>ap_remotes := upd_first (is_remote u) (\<lambda>_. r1) (ap_remotes a)\<rparr>) u = Some r1"
      using f transfers by (simp add: shown_def transfers_of_def)
  qed (use uuid f transfers in \<open>simp_all add: shown_def transfers_of_def find_other_remote\<close>)
qed

text \<open>Events on the transfers of one remote only touch the second table.\<close>

lemma mirror_transfers:
  assumes mir: "mirror m a" and old: "mg_remotes m u = Some r"
    and new: "mg_remotes m1 = (mg_remotes m)(u \<mapsto> r\<lparr>r_transfers := ts\<rparr>)"
    and ev: "mg_events m1 = mg_events m @ [e]" "\<And>v. e \<noteq> RemoteAdded v"
    and remotes: "ap_remotes b = ap_remotes a"
    and transfers: "ap_transfers b = (ap_transfers a)(u \<mapsto> ts)"
  shows "mirror m1 b"
proof (rule mirror_put [OF mir old new ev])
  fix s assume "find (is_remote u) (ap_remotes a) = Some s" and s: "s\<lparr>r_transfers := r_transfers r\<rparr> = r"
  then show "shown b u = Some (r\<lparr>r_transfers := ts\<rparr>)"
    using retransfer(1) [OF s, of ts] remotes transfers by (simp add: shown_def transfers_of_def)
qed (use remotes transfers in \<open>simp_all add: shown_def transfers_of_def\<close>)

lemma mirror_add_transfer:
  assumes mir: "mirror m a" and fresh: "get_transfer ru (t_uuid t) m = None"
    and r: "mg_remotes m ru = Some r"
  shows "mirror (snd (add_transfer ru t m)) (deliver now (snd (add_transfer ru t m)) (TransferAdded ru (t_uuid t)) a)"
proof -
  have f: "transfers_of a ru = r_transfers r" using mir r by (simp add: mirror_def filed_transfers_def)
  have "find (has_uuid (t_uuid t)) (r_transfers r @ [t]) = Some t"
    using fresh r by (simp add: get_transfer_def find_append has_uuid_def)
  then show ?thesis
    using r f
    by (intro mirror_transfers [OF mir r, where ts = "r_transfers r @ [t]"])
      (auto simp: add_transfer_def deliver_def hydrate_def get_transfer_def handle_event_def transfers_of_def)
qed

lemma mirror_update_transfer:
  assumes mir: "mirror m a" and ok: "transfer_closure_ok f"
    and r: "mg_remotes m ru = Some r" and t: "find (has_uuid tu) (r_transfers r) = Some t"
    and sent: "q < 128 \<or> discriminant (t_state (f t)) \<noteq> discriminant (t_state t)"
  shows "mirror (snd (update_transfer q ru tu f m))
    (deliver now (snd (update_transfer q ru tu f m)) (TransferUpdated ru tu) a)"
proof -
  have f: "transfers_of a ru = r_transfers r" using mir r by (simp add: mirror_def filed_transfers_def)
  have ne: "r_transfers r \<noteq> []" using t by auto
  have uuid: "t_uuid (f t) = tu"
    using ok find_Some_prop [OF t] by (simp add: transfer_closure_ok_def has_uuid_def)
  then have "find (has_uuid tu) (upd_first (has_uuid tu) f (r_transfers r)) = Some (f t)"
    using find_upd_first_same [OF t, of f] by (simp add: has_uuid_def)
  then show ?thesis
    using r t uuid sent transfers_of_Some [of a ru] f ne
    by (intro mirror_transfers [OF mir r, where ts = "upd_first (has_uuid tu) f (r_transfers r)"])
      (auto simp: update_transfer_def deliver_def hydrate_def get_transfer_def handle_event_def
        Let_def upd_first_const)
qed

lemma mirror_remove_transfer:
  assumes mir: "mirror m a" and wf: "remote_wf ru r"
    and r: "mg_remotes m ru = Some r" and t: "find (has_uuid tu) (r_transfers r) = Some t"
  shows "mirror (snd (remove_transfer ru tu m))
    (deliver now (snd (remove_transfer ru tu m)) (TransferRemoved ru tu) a)"
proof -
  have f: "transfers_of a ru = r_transfers r" using mir r by (simp add: mirror_def filed_transfers_def)
  have ne: "r_transfers r \<noteq> []" using t by auto
  have "filter (\<lambda>t. t_uuid t \<noteq> tu) (r_transfers r) = del_first (has_uuid tu) (r_transfers r)"
    using filter_del_first [of t_uuid "r_transfers r" tu] wf
    by (simp add: remote_wf_def has_uuid_def [abs_def])
  then show ?thesis
    using r t transfers_of_Some [of a ru] f ne
    by (intro mirror_transfers [OF mir r, where ts = "del_first (has_uuid tu) (r_transfers r)"])
      (auto simp: remove_transfer_def deliver_def hydrate_def handle_event_def Let_def)
qed

text \<open>Events on the messages of one remote change its copy in the first table.\<close>

lemma mirror_messages:
  assumes mir: "mirror m a" and old: "mg_remotes m u = Some r"
    and new: "mg_remotes m1 = (mg_remotes m)(u \<mapsto> r\<lparr>r_messages := g (r_messages r)\<rparr>)"
    and ev: "mg_events m1 = mg_events m @ [e]" "\<And>v. e \<noteq> RemoteAdded v"
    and remotes: "ap_remotes b =
      upd_first (is_remote u) (\<lambda>s. s\<lparr>r_messages := g (r_messages s)\<rparr>) (ap_remotes a)"
    and transfers: "ap_transfers b = ap_transfers a"
  shows "mirror m1 b"
proof (rule mirror_put [OF mir old new ev])
  have f: "transfers_of a u = r_transfers r" using mir old by (simp add: mirror_def filed_transfers_def)
  then show "transfers_of b u = r_transfers (r\<lparr>r_messages := g (r_messages r)\<rparr>)"
    using transfers by (simp add: transfers_of_def)
  fix s assume s: "find (is_remote u) (ap_remotes a) = Some s" "s\<lparr>r_transfers := r_transfers r\<rparr> = r"
  let ?s = "s\<lparr>r_messages := g (r_messages s)\<rparr>"
  have "is_remote u ?s" using find_Some_prop [OF s(1)] by (simp add: is_remote_def)
  then have "find (is_remote u) (ap_remotes b) = Some ?s"
    unfolding remotes using find_upd_first_same [OF s(1), of "\<lambda>s. s\<lparr>r_messages := g (r_messages s)\<rparr>"] by simp
  moreover have "?s\<lparr>r_transfers := r_transfers r\<rparr> = r\<lparr>r_messages := g (r_messages r)\<rparr>"
  proof -
    have "s\<lparr>r_transfers := r_transfers r\<rparr>\<lparr>r_messages := g (r_messages r)\<rparr> = r\<lparr>r_messages := g (r_messages r)\<rparr>"
      by (simp only: s(2))
    then show ?thesis by (simp add: retransfer(2) [OF s(2)] messages_transfers_commute)
  qed
  ultimately show "shown b u = Some (r\<lparr>r_messages := g (r_messages r)\<rparr>)"
    using f transfers by (simp add: shown_def transfers_of_def)
qed (use remotes transfers in \<open>simp_all add: shown_def transfers_of_def find_other_messages\<close>)


lemma mirror_add_message:
  assumes mir: "mirror m a" and r: "mg_remotes m ru = Some r"
    and fresh: "get_message ru (m_uuid x) m = None"
  shows "mirror (snd (add_message ru x m))
    (deliver now (snd (add_message ru x m)) (MessageAdded ru (m_uuid x)) a)"
proof -
  have "find (\<lambda>y. m_uuid y = m_uuid x) (r_messages r @ [x]) = Some x"
    using fresh r by (simp add: get_message_def find_append)
  then show ?thesis
    using r
    by (intro mirror_messages [OF mir r, where g = "\<lambda>ms. ms @ [x]"])
      (auto simp: add_message_def deliver_def hydrate_def get_remote_def handle_event_def)
qed

lemma mirror_remove_message:
  assumes mir: "mirror m a" and r: "mg_remotes m ru = Some r"
    and wf: "distinct (map m_uuid (r_messages r))"
    and x: "find (\<lambda>x. m_uuid x = mu) (r_messages r) = Some x"
  shows "mirror (snd (remove_message ru mu m))
    (deliver now (snd (remove_message ru mu m)) (MessageRemoved ru mu) a)"
proof -
  let ?keep = "filter (\<lambda>x. m_uuid x \<noteq> mu)"
  have del: "del_first (\<lambda>x. m_uuid x = mu) (r_messages r) = ?keep (r_messages r)"
    using filter_del_first [OF wf] by simp
  have upd: "find (is_remote ru) xs = Some s \<Longrightarrow>
      upd_first (is_remote ru) (\<lambda>r. r\<lparr>r_messages := ?keep (r_messages s)\<rparr>) xs =
      upd_first (is_remote ru) (\<lambda>r. r\<lparr>r_messages := ?keep (r_messages r)\<rparr>) xs" for xs s
    by (induction xs) (auto split: if_splits)
  show ?thesis
    by (rule mirror_messages [OF mir r, where g = ?keep])
      (use r x in \<open>auto simp: remove_message_def deliver_def hydrate_def handle_event_def Let_def
        del upd upd_first_missing split: option.splits\<close>)
qed

lemma mirror_insert_remote:
  assumes mir: "mirror m a" and inv: "mgr_inv m" and new: "mg_remotes m (r_uuid r) = None"
    and empty: "r_transfers r = []"
  shows "mirror (insert_remote r m) a"
proof -
  have "RemoteAdded (r_uuid r) \<notin> set (mg_events m)"
    using inv new by (fastforce simp: mgr_inv_def)
  then show ?thesis
    using mir new empty
    by (auto simp: mirror_def insert_remote_def announced_def filed_transfers_def get_remote_def)
qed

lemma mirror_announce:
  assumes mir: "mirror m a" and inv: "mgr_inv m" and r: "mg_remotes m u = Some r"
    and first: "RemoteAdded u \<notin> set (mg_events m)"
  shows "mirror (announce_remote i u m) (deliver now (announce_remote i u m) (RemoteAdded u) a)"
proof -
  let ?m = "announce_remote i u m"
  have uuid: "r_uuid r = u" using mgr_inv_remote [OF inv r] by (simp add: remote_wf_def)
  have m: "mg_remotes ?m = mg_remotes m" "mg_events ?m = mg_events m @ [RemoteAdded u]"
    by (simp_all add: announce_remote_def)
  have a: "shown a v = announced m v" "transfers_of a v = filed_transfers m v" for v
    using mir by (simp_all add: mirror_def)
  have none: "find (is_remote u) (ap_remotes a) = None"
    using a(1) [of u] first by (simp add: announced_def shown_def)
  let ?b = "deliver now ?m (RemoteAdded u) a"
  have b: "ap_remotes ?b = ap_remotes a @ [r]" "transfers_of ?b = transfers_of a"
    using r m uuid
    by (auto simp: deliver_def hydrate_def get_remote_def handle_event_def transfers_of_def fun_eq_iff)
  have "shown ?b v = announced ?m v" for v
  proof (cases "v = u")
    case True
    then show ?thesis
      using none b m r uuid a(2) [of u]
      by (simp add: shown_def announced_def get_remote_def find_append is_remote_def filed_transfers_def)
  next
    case False
    then have "shown ?b v = shown a v"
      using b uuid by (simp add: shown_def find_append is_remote_def split: option.splits)
    then show ?thesis using a(1) [of v] m False by (simp add: announced_def get_remote_def)
  qed
  then show ?thesis using a(2) b(2) m by (simp add: mirror_def filed_transfers_def)
qed


section \<open>The simulation\<close>

lemma quiet_op: "mg_events (mgr_step e m) = mg_events m \<Longrightarrow> view_step (Operation now e) (m, a) = (mgr_step e m, a)"
  by (simp add: Let_def)

lemma loud_op:
  "mg_events (mgr_step e m) = mg_events m @ [ev] \<Longrightarrow>
    view_step (Operation now e) (m, a) = (mgr_step e m, deliver now (mgr_step e m) ev a)"
  by (simp add: Let_def)

lemma mirror_same:
  "mirror m a \<Longrightarrow> mg_remotes m1 = mg_remotes m \<Longrightarrow> mg_events m1 = mg_events m \<Longrightarrow> mirror m1 a"
  by (simp add: mirror_def announced_def filed_transfers_def get_remote_def)

text \<open>An operation that finds nothing changes nothing.\<close>

lemma missing_ops:
  "mg_remotes m u = None \<Longrightarrow> snd (update_remote u f m) = m"
  "mg_remotes m u = None \<Longrightarrow> snd (add_transfer u t m) = m"
  "mg_remotes m u = None \<Longrightarrow> snd (add_message u x m) = m"
  "get_transfer u tu m = None \<Longrightarrow> snd (update_transfer q u tu g m) = m"
  "get_transfer u tu m = None \<Longrightarrow> snd (remove_transfer u tu m) = m"
  "get_message u mu m = None \<Longrightarrow> snd (remove_message u mu m) = m"
  by (auto simp: update_remote_def add_transfer_def add_message_def update_transfer_def
      remove_transfer_def remove_message_def get_transfer_def get_message_def split: option.splits)

lemma get_transfer_SomeE:
  assumes "get_transfer ru tu m = Some t"
  obtains r where "mg_remotes m ru = Some r" "find (has_uuid tu) (r_transfers r) = Some t"
  using assms by (auto simp: get_transfer_def split: option.splits)

lemma get_message_SomeE:
  assumes "get_message ru mu m = Some x"
  obtains r where "mg_remotes m ru = Some r" "find (\<lambda>x. m_uuid x = mu) (r_messages r) = Some x"
  using assms by (auto simp: get_message_def split: option.splits)

definition simulated :: "nat \<Rightarrow> mgr_op \<Rightarrow> manager \<Rightarrow> app \<Rightarrow> bool" where
  "simulated now e m a =
     mirror (fst (view_step (Operation now e) (m, a))) (snd (view_step (Operation now e) (m, a)))"

lemma step_update_remote:
  assumes inv: "mgr_inv m" and ok: "op_ok (UpdateRemote u f) m" and mir: "mirror m a"
  shows "simulated now (UpdateRemote u f) m a"
proof (cases "mg_remotes m u")
  case None
  then show ?thesis using mir by (simp add: simulated_def missing_ops)
next
  case (Some r)
  have "r_uuid (f r) = u" "r_transfers (f r) = r_transfers r"
    using ok mgr_inv_remote [OF inv Some]
    by (simp_all add: remote_closure_ok_def remote_wf_def)
  from mirror_remote_updated [OF mir Some this] show ?thesis
    unfolding simulated_def using Some
    by (subst (1 2) loud_op [where ev = "RemoteUpdated u"]) (simp_all add: update_remote_def)
qed

lemma step_add_transfer:
  assumes inv: "mgr_inv m" and ok: "op_ok (AddTransfer ru t) m" and mir: "mirror m a"
  shows "simulated now (AddTransfer ru t) m a"
proof (cases "mg_remotes m ru")
  case None
  then show ?thesis using mir by (simp add: simulated_def missing_ops)
next
  case (Some r)
  with mirror_add_transfer [OF mir _ Some, of t] ok show ?thesis
    unfolding simulated_def
    by (subst (1 2) loud_op [where ev = "TransferAdded ru (t_uuid t)"]) (simp_all add: add_transfer_def)
qed

lemma step_update_transfer:
  assumes inv: "mgr_inv m" and ok: "op_ok (UpdateTransfer q ru tu f) m"
    "reported (UpdateTransfer q ru tu f) m" and mir: "mirror m a"
  shows "simulated now (UpdateTransfer q ru tu f) m a"
proof (cases "get_transfer ru tu m")
  case None
  then show ?thesis using mir by (simp add: simulated_def missing_ops)
next
  case (Some t)
  then obtain r where r: "mg_remotes m ru = Some r" "find (has_uuid tu) (r_transfers r) = Some t"
    by (rule get_transfer_SomeE)
  have "transfer_closure_ok f"
    and sent: "q < 128 \<or> discriminant (t_state (f t)) \<noteq> discriminant (t_state t)"
    using ok Some by simp_all
  from mirror_update_transfer [OF mir this(1) r sent] show ?thesis
    unfolding simulated_def using r sent
    by (subst (1 2) loud_op [where ev = "TransferUpdated ru tu"])
      (simp_all add: update_transfer_def Let_def)
qed

lemma step_remove_transfer:
  assumes inv: "mgr_inv m" and mir: "mirror m a"
  shows "simulated now (RemoveTransfer ru tu) m a"
proof (cases "get_transfer ru tu m")
  case None
  then show ?thesis using mir by (simp add: simulated_def missing_ops)
next
  case (Some t)
  then obtain r where r: "mg_remotes m ru = Some r" "find (has_uuid tu) (r_transfers r) = Some t"
    by (rule get_transfer_SomeE)
  from mirror_remove_transfer [OF mir mgr_inv_remote [OF inv r(1)] r] show ?thesis
    unfolding simulated_def using r
    by (subst (1 2) loud_op [where ev = "TransferRemoved ru tu"]) (simp_all add: remove_transfer_def)
qed

lemma step_add_message:
  assumes inv: "mgr_inv m" and ok: "reported (AddMessage ru x) m" and mir: "mirror m a"
  shows "simulated now (AddMessage ru x) m a"
proof (cases "mg_remotes m ru")
  case None
  then show ?thesis using mir by (simp add: simulated_def missing_ops)
next
  case (Some r)
  with mirror_add_message [OF mir Some, of x] ok show ?thesis
    unfolding simulated_def
    by (subst (1 2) loud_op [where ev = "MessageAdded ru (m_uuid x)"]) (simp_all add: add_message_def)
qed

lemma step_remove_message:
  assumes inv: "messages_wf m" and mir: "mirror m a"
  shows "simulated now (RemoveMessage ru mu) m a"
proof (cases "get_message ru mu m")
  case None
  then show ?thesis using mir by (simp add: simulated_def missing_ops)
next
  case (Some x)
  then obtain r where r: "mg_remotes m ru = Some r" "find (\<lambda>x. m_uuid x = mu) (r_messages r) = Some x"
    by (rule get_message_SomeE)
  have "distinct (map m_uuid (r_messages r))" using inv r(1) by (simp add: messages_wf_def)
  from mirror_remove_message [OF mir r(1) this r(2)] show ?thesis
    unfolding simulated_def using r
    by (subst (1 2) loud_op [where ev = "MessageRemoved ru mu"]) (simp_all add: remove_message_def)
qed

lemma mirror_step:
  assumes inv: "mgr_inv m" "messages_wf m" and mir: "mirror m a"
    and ok: "op_ok e m" "reported e m"
  shows "simulated now e m a"
proof (cases e)
  case (InsertWorker tok u)
  then show ?thesis
    unfolding simulated_def by (subst (1 2) quiet_op) (simp_all add: insert_worker_def Let_def mirror_same [OF mir])
next
  case (InsertRemote r)
  then show ?thesis
    using mirror_insert_remote [OF mir inv(1), of r] ok
    unfolding simulated_def by (subst (1 2) quiet_op) (simp_all add: insert_remote_def)
next
  case (AnnounceRemote i u)
  then obtain r where "mg_remotes m u = Some r" using ok(1) by auto
  then show ?thesis
    using mirror_announce [OF mir inv(1)] ok(2) AnnounceRemote
    unfolding simulated_def by (subst (1 2) loud_op [where ev = "RemoteAdded u"]) (simp_all add: announce_remote_def)
next
  case (UpdateWorker i f)
  then show ?thesis unfolding simulated_def by (subst (1 2) quiet_op) (simp_all add: mirror_same [OF mir])
next
  case (CancelToken tok)
  then show ?thesis unfolding simulated_def by (subst (1 2) quiet_op) (simp_all add: mirror_same [OF mir])
qed (use assms in \<open>auto intro: step_update_remote step_add_transfer step_update_transfer
    step_remove_transfer step_add_message step_remove_message\<close>)


lemma messages_wf_put:
  assumes "messages_wf m" and "mg_remotes m1 = (mg_remotes m)(u := x)"
    and "\<And>r. x = Some r \<Longrightarrow> distinct (map m_uuid (r_messages r))"
  shows "messages_wf m1"
  using assms by (simp add: messages_wf_def)

lemma messages_wf_remote:
  "messages_wf m \<Longrightarrow> mg_remotes m u = Some r \<Longrightarrow> distinct (map m_uuid (r_messages r))"
  by (simp add: messages_wf_def)

lemma messages_wf_cong: "mg_remotes m1 = mg_remotes m \<Longrightarrow> messages_wf m \<Longrightarrow> messages_wf m1"
  by (simp add: messages_wf_def)

lemma messages_wf_step:
  assumes wf: "messages_wf m" and ok: "reported e m"
  shows "messages_wf (mgr_step e m)"
proof (cases e)
  case (InsertRemote r)
  then show ?thesis using ok by (intro messages_wf_put [OF wf, where u = "r_uuid r" and x = "Some r"])
      (simp_all add: insert_remote_def)
next
  case (UpdateRemote u f)
  then show ?thesis
    using ok messages_wf_remote [OF wf, of u]
    by (intro messages_wf_put [OF wf, where u = u and x = "map_option f (mg_remotes m u)"])
      (auto simp: closure_keeps_messages_def)
next
  case (AddTransfer ru t)
  then show ?thesis
    using messages_wf_remote [OF wf, of ru] wf
    by (cases "mg_remotes m ru") (simp_all add: missing_ops add_transfer_def messages_wf_def)
next
  case (UpdateTransfer q ru tu f)
  then show ?thesis
    using messages_wf_remote [OF wf, of ru]
    by (intro messages_wf_put [OF wf, where u = ru]) (auto simp: mg_remotes_update_transfer)
next
  case (RemoveTransfer ru tu)
  then show ?thesis
    using messages_wf_remote [OF wf, of ru] wf
    by (auto simp: remove_transfer_def messages_wf_def split: option.splits)
next
  case (AddMessage ru x)
  show ?thesis
  proof (cases "mg_remotes m ru")
    case (Some r)
    have "m_uuid x \<notin> m_uuid ` set (r_messages r)"
      using ok Some by (auto simp: AddMessage get_message_def find_None_all)
    then show ?thesis
      using messages_wf_remote [OF wf Some] wf Some
      by (auto simp: AddMessage add_message_def messages_wf_def)
  qed (use wf AddMessage in \<open>simp add: missing_ops\<close>)
next
  case (RemoveMessage ru mu)
  then show ?thesis
    using messages_wf_remote [OF wf, of ru] wf
    by (auto simp: remove_message_def messages_wf_def distinct_map_del_first split: option.splits)
qed (use wf in \<open>auto intro: messages_wf_cong simp: insert_worker_def announce_remote_def Let_def\<close>)

lemma view_step_inv:
  assumes "view_inv s" and "view_ok e s"
  shows "view_inv (view_step e s)"
proof -
  obtain m a where s: "s = (m, a)" by (cases s)
  show ?thesis
  proof (cases e)
    case (Operation now op)
    with assms have inv: "mgr_inv m" "messages_wf m" "mirror m a" and ok: "op_ok op m" "reported op m"
      by (simp_all add: s)
    have "fst (view_step e s) = mgr_step op m" by (simp add: Operation s Let_def)
    with mirror_step [OF inv ok, of now] mgr_step_inv [OF inv(1) ok(1)] messages_wf_step [OF inv(2) ok(2)]
    show ?thesis by (cases "view_step e s") (simp add: Operation s simulated_def)
  next
    case (KeyPress dest code)
    then show ?thesis using assms mirror_key [of m a dest code] by (simp add: s)
  qed
qed

interpretation view: invariant_machine view_step view_ok view_inv
  by unfold_locales (rule view_step_inv)

section \<open>Properties\<close>


definition mirror_ops :: "view_op list" where
  "mirror_ops =
     map (Operation 1000) sample_ops @
     [KeyPress [] (K_Char ''m''), KeyPress [] (K_Char ''h''),
      Operation 2000 (AddMessage ''peer'' (message_new ''x1'' 5 ''peer'' Sent ''h'')),
      KeyPress [] K_Enter, Operation 2000 (AddTransfer ''peer'' sample_incoming)]"


text \<open>Whether a run is allowed depends on the manager alone.\<close>

fun operation_of :: "view_op \<Rightarrow> mgr_op option" where
  "operation_of (Operation now e) = Some e"
| "operation_of (KeyPress dest code) = None"

fun ops_ok :: "view_op list \<Rightarrow> manager \<Rightarrow> bool" where
  "ops_ok [] m \<longleftrightarrow> True"
| "ops_ok (Operation now e # es) m \<longleftrightarrow> op_ok e m \<and> reported e m \<and> ops_ok es (mgr_step e m)"
| "ops_ok (KeyPress dest code # es) m \<longleftrightarrow> ops_ok es m"

lemma ok_run_ops: "ops_ok ops m \<Longrightarrow> view.ok_run ops (m, a)"
  by (induction ops m arbitrary: a rule: ops_ok.induct) (simp_all add: view.ok_run.simps Let_def)

lemma fst_view_run: "fst (fold view_step ops (m, a)) = fold mgr_step (List.map_filter operation_of ops) m"
  by (induction ops m arbitrary: a rule: ops_ok.induct) (simp_all add: map_filter_simps Let_def)

lemmas mirror_sample = mirror_ops_def sample_ops_def sample_manager_def manager_new_def
  sample_user_def sample_remote_def remote_new_def insert_worker_def insert_remote_def
  announce_remote_def Let_def sample_incoming_def transfer_new_outgoing_def get_transfer_def
  get_message_def transfer_closure_ok_def remote_closure_ok_def closure_keeps_messages_def
  update_transfer_def update_remote_def add_transfer_def remove_transfer_def add_message_def
  message_new_def has_uuid_def

lemma mirror_ops_ok: "view.ok_run mirror_ops (sample_manager, app_new)"
  by (rule ok_run_ops) (simp add: mirror_sample)


section \<open>Late hydration\<close>

text \<open>
  The receiving task hydrates an event when it takes it from the channel, not when it was sent. A
  message filed between a remote's update and the hydration of that event is copied with the
  remote and then pushed again by its own event.
\<close>

definition with_message :: manager where
  "with_message =
     snd (add_message ''peer'' (message_new ''x1'' 5 ''peer'' Received ''h'')
       (snd (update_remote ''peer'' (\<lambda>r. r\<lparr>r_state := Connected\<rparr>)
         (snd (add_remote 1 sample_remote sample_manager)))))"

lemma late_hydration_duplicates_message:
  "map_option r_messages (get_remote ''peer'' with_message) =
     Some [message_new ''x1'' 5 ''peer'' Received ''h''] \<and>
   map r_messages (ap_remotes (fold (deliver 0 with_message) (mg_events with_message) app_new)) =
     [[message_new ''x1'' 5 ''peer'' Received ''h'', message_new ''x1'' 5 ''peer'' Received ''h'']]"
  by (simp add: with_message_def mirror_sample add_remote_def get_remote_def deliver_def
      hydrate_def handle_event_def app_new_def is_remote_def)

end
