(* ===== verification/Warp_Frontend.thy ===== *)
theory Warp_Frontend
  imports Warp_Tui_Mirror Warp_Session
begin

text \<open>
  The terminal interface and the library together: what the tasks spawned by \<open>warpinator_tui.rs\<close> do
  on the manager, that the commands respect what the operations of the worker ask of their callers,
  and a whole round, from keys through the worker's operation and its event back to the screen.
\<close>

section \<open>Commands\<close>

text \<open>
  What a spawned task brings along: the environments of the operations (fresh identifiers, clocks,
  what the remote answers, the other tasks). Every result is dropped.
\<close>

record command_env =
  cm_shared :: shared_env
  cm_connect :: connect_env
  cm_request :: request_env
  cm_fresh :: string
  cm_now :: u64
  cm_answer :: "(unit, status) result"

text \<open>\<open>if let Some(worker) = rm.get_worker(..)\<close>\<close>

definition on_worker :: "string \<Rightarrow> (nat \<Rightarrow> manager \<Rightarrow> 'a \<times> manager) \<Rightarrow> manager \<Rightarrow> manager" where
  "on_worker u call m = (case get_worker u m of None \<Rightarrow> m | Some i \<Rightarrow> snd (call i m))"

fun run_command :: "command_env \<Rightarrow> tui_command \<Rightarrow> manager \<Rightarrow> manager" where
  "run_command env (SendMessageTo u text) m =
     on_worker u (\<lambda>i. send_message (cm_shared env) (cm_fresh env) (cm_now env) (cm_answer env) u i text) m"
| "run_command env (SendFilesTo u paths) m = on_worker u (\<lambda>i. send_transfer_request (cm_request env) u i paths) m"
| "run_command env (AcceptTransfer u tu dest) m =
     on_worker u (\<lambda>i. accept_transfer (cm_shared env) (cm_answer env) u i tu dest) m"
| "run_command env (CancelTransfer u tu) m =
     on_worker u (\<lambda>i. cancel_transfer (cm_shared env) (cm_answer env) u i tu) m"
| "run_command env (ConnectRemote u) m = on_worker u (connect (cm_connect env) u) m"
| "run_command env (StopTransfer u tu) m =
     on_worker u (\<lambda>i. stop_transfer (cm_shared env) (cm_answer env) u i tu) m"
| "run_command env (RemoveTransferOf u tu) m = snd (remove_transfer u tu m)"
| "run_command env (RemoveMessageOf u mu) m = snd (remove_message u mu m)"

section \<open>The interface knows its remotes\<close>

text \<open>
  Besides mirroring the manager, no remote is listed twice, and the transfer whose acceptance is
  pending belongs to a remote the manager knows.
\<close>

fun front_inv :: "manager \<times> app \<Rightarrow> bool" where
  "front_inv (m, a) \<longleftrightarrow> view_inv (m, a) \<and> distinct (map r_uuid (ap_remotes a)) \<and>
     (\<forall>p. ap_pending_accept a = Some p \<longrightarrow> mg_remotes m (fst p) \<noteq> None)"

lemma listed_announced:
  assumes "mirror m a" and "r \<in> set (ap_remotes a)"
  shows "RemoteAdded (r_uuid r) \<in> set (mg_events m) \<and> mg_remotes m (r_uuid r) \<noteq> None"
proof -
  have "find (is_remote (r_uuid r)) (ap_remotes a) \<noteq> None"
    using assms(2) by (auto simp: find_None_all is_remote_def)
  then have "shown a (r_uuid r) \<noteq> None" by (simp add: shown_def)
  then have "announced m (r_uuid r) \<noteq> None" using assms(1) by (simp add: mirror_def)
  then show ?thesis by (auto simp: announced_def get_remote_def split: if_splits)
qed

lemma current_listed: "current_remote a = Some r \<Longrightarrow> r \<in> set (ap_remotes a)"
  by (auto simp: current_remote_def nth_opt_def split: if_splits)

lemma deliver_uuids:
  assumes "\<And>v. ev \<noteq> RemoteAdded v"
  shows "map r_uuid (ap_remotes (deliver now m ev a)) = map r_uuid (ap_remotes a)"
  using assms
  by (cases ev)
    (auto simp: deliver_def hydrate_def handle_event_def Let_def map_uuid_upd_remote split: option.splits)

lemma deliver_pending: "ap_pending_accept (deliver now m ev a) = ap_pending_accept a"
  by (simp add: deliver_def event_frame split: option.splits)

lemma fold_deliver_pending: "ap_pending_accept (fold (deliver now m) evs a) = ap_pending_accept a"
  by (induction evs arbitrary: a) (simp_all add: deliver_pending)

lemma fold_deliver_uuids:
  "\<forall>v. RemoteAdded v \<notin> set evs \<Longrightarrow> map r_uuid (ap_remotes (fold (deliver now m) evs a)) = map r_uuid (ap_remotes a)"
proof (induction evs arbitrary: a)
  case (Cons ev evs)
  then show ?case using deliver_uuids [of ev now m a] by fastforce
qed simp

text \<open>Only announcements send \<open>RemoteAdded\<close>, and no operation forgets a remote.\<close>

lemma new_events:
  assumes "\<And>i u. e \<noteq> AnnounceRemote i u"
  shows "RemoteAdded v \<notin> set (drop (length (mg_events m)) (mg_events (mgr_step e m)))"
  using assms
  by (cases e)
    (auto simp: insert_worker_def insert_remote_def update_remote_def add_transfer_def update_transfer_def
      remove_transfer_def add_message_def remove_message_def Let_def split: option.splits)

lemma remotes_stay: "mg_remotes m u \<noteq> None \<Longrightarrow> mg_remotes (mgr_step e m) u \<noteq> None"
  by (cases e)
    (auto simp: insert_worker_def insert_remote_def announce_remote_def update_remote_def add_transfer_def
      mg_remotes_update_transfer remove_transfer_def add_message_def remove_message_def Let_def split: option.splits)

lemma pending_frame [simp]:
  "ap_pending_accept (open_input mode a) = ap_pending_accept a"
  "ap_pending_accept (handle_action_keys code a) = ap_pending_accept a"
  "ap_pending_accept (app_log text a) = ap_pending_accept a"
  "ap_pending_accept (move_down a) = ap_pending_accept a" "ap_pending_accept (move_up a) = ap_pending_accept a"
  by (auto simp: open_input_def handle_action_keys_def app_log_def move_down_def move_up_def move_selection_def Let_def
      split: focus.splits option.splits)

lemma pending_handle_key: "ap_pending_accept (snd (handle_key code a)) \<in> {None, ap_pending_accept a}"
proof (cases "ap_input_mode a")
  case None
  then show ?thesis by (auto simp: handle_key_def split: focus.splits option.splits)
next
  case (Some mode)
  then show ?thesis
    by (cases code; cases mode) (auto simp: handle_key_def handle_input_key_def Let_def split: option.splits)
qed

lemma pending_own_key:
  "own_key dest code a = Return (Some (b, cmds)) \<Longrightarrow> ap_pending_accept b = Some p \<Longrightarrow>
    ap_pending_accept a = Some p \<or> (\<exists>r. current_remote a = Some r \<and> fst p = r_uuid r)"
  by (auto simp: own_key_def transfer_key_def split: if_splits option.splits)

lemma pending_confirm: "ap_pending_accept (fst (confirm_input mode text a)) \<in> {None, ap_pending_accept a}"
  by (cases mode) (simp_all add: confirm_input_def)

lemma pending_after_key:
  assumes "run_key dest code a = Return (quit, b, cmds)" and "ap_pending_accept b = Some p"
  shows "ap_pending_accept a = Some p \<or> (\<exists>r. current_remote a = Some r \<and> fst p = r_uuid r)"
proof (cases "code = K_Enter \<and> ap_input_mode a \<noteq> None")
  case True
  then obtain mode where mode: "ap_input_mode a = Some mode" by auto
  let ?a = "a\<lparr>ap_input_mode := None, ap_input_buf := []\<rparr>"
  have "b = fst (confirm_input mode (ap_input_buf a) ?a)"
    using assms(1) True mode
    by (auto simp: run_key_def consume_input_def handle_key_def split: prod.splits)
  then show ?thesis using pending_confirm [of mode "ap_input_buf a" ?a] assms(2) by auto
next
  case False
  then have enter: "(if code = K_Enter then consume_input a else (None, a)) = (None, a)"
    by (auto simp: consume_input_def)
  show ?thesis
    using assms pending_own_key [of dest code a] pending_handle_key [of code a]
    by (auto simp: run_key_def enter split: outcome.splits option.splits prod.splits)
qed

section \<open>Its invariant\<close>

lemma view_operation:
  "view_step (Operation now e) (m, a) =
    (mgr_step e m, fold (deliver now (mgr_step e m)) (drop (length (mg_events m)) (mg_events (mgr_step e m))) a)"
  by (simp add: Let_def)

lemma distinct_operation:
  assumes inv: "view_inv (m, a)" and ok: "view_ok (Operation now e) (m, a)" and d: "distinct (map r_uuid (ap_remotes a))"
  shows "distinct (map r_uuid (ap_remotes (snd (view_step (Operation now e) (m, a)))))"
proof (cases "\<exists>i u. e = AnnounceRemote i u")
  case False
  then have "\<forall>v. RemoteAdded v \<notin> set (drop (length (mg_events m)) (mg_events (mgr_step e m)))"
    using new_events by blast
  from fold_deliver_uuids [OF this] d show ?thesis by (simp only: view_operation snd_conv)
next
  case True
  then obtain i u where e: "e = AnnounceRemote i u" by blast
  let ?m = "mgr_step e m"
  have ev: "mg_events ?m = mg_events m @ [RemoteAdded u]" by (simp add: e announce_remote_def)
  have new: "RemoteAdded u \<notin> set (mg_events m)" using ok e by simp
  have "u \<notin> r_uuid ` set (ap_remotes a)"
    using listed_announced [of m a] inv new by auto
  moreover have "r_uuid r = u" if "get_remote u ?m = Some r" for r
    using that inv mgr_inv_remote [of m u r] by (simp add: e announce_remote_def get_remote_def remote_wf_def)
  ultimately have "distinct (map r_uuid (ap_remotes (deliver now ?m (RemoteAdded u) a)))"
    using d by (auto simp: deliver_def hydrate_def handle_event_def split: option.split)
  then show ?thesis by (simp only: view_operation ev snd_conv drop_append) simp
qed

lemma front_step_inv:
  assumes "front_inv s" and "view_ok e s"
  shows "front_inv (view_step e s)"
proof -
  obtain m a where s: "s = (m, a)" by (cases s)
  have inv: "view_inv (m, a)" "distinct (map r_uuid (ap_remotes a))"
    and pending: "\<And>p. ap_pending_accept a = Some p \<Longrightarrow> mg_remotes m (fst p) \<noteq> None"
    using assms(1) by (auto simp: s)
  have v: "view_inv (view_step e s)" using view_step_inv assms by (simp add: s)
  show ?thesis
  proof (cases e)
    case (Operation now op)
    have "ap_pending_accept (snd (view_step e s)) = ap_pending_accept a"
      by (simp only: Operation s view_operation snd_conv fold_deliver_pending)
    moreover have "fst (view_step e s) = mgr_step op m" by (simp only: Operation s view_operation fst_conv)
    moreover have "distinct (map r_uuid (ap_remotes (snd (view_step e s))))"
      using distinct_operation [OF inv(1) _ inv(2)] assms(2) by (simp only: Operation s)
    ultimately show ?thesis
      using v pending remotes_stay [of m _ op] by (cases "view_step e s") fastforce
  next
    case (KeyPress dest code)
    show ?thesis
    proof (cases "run_key dest code a")
      case (Return x)
      then obtain quit b cmds where k: "run_key dest code a = Return (quit, b, cmds)" by (cases x) auto
      have "ap_remotes b = ap_remotes a" using copy_run_key [OF k] by (simp add: copy_def)
      moreover have "mg_remotes m (fst p) \<noteq> None" if p: "ap_pending_accept b = Some p" for p
        using pending_after_key [OF k p] pending current_listed listed_announced [of m a] inv(1) by (cases p) auto
      ultimately show ?thesis using v inv(2) by (auto simp: KeyPress s k)
    next
      case Panic
      then show ?thesis using assms(1) by (simp add: KeyPress s)
    qed
  qed
qed

interpretation front: invariant_machine view_step view_ok front_inv
  by unfold_locales (rule front_step_inv)

lemma front_ok_run: "view.ok_run ops s = front.ok_run ops s"
  by (induction ops arbitrary: s) (simp_all add: view.ok_run.simps front.ok_run.simps)

lemma front_inv_new: "manager_new pc uc name = Some m \<Longrightarrow> front_inv (m, app_new)"
  using mgr_inv_new [of pc uc name m]
  by (auto simp: messages_wf_def mirror_def shown_def announced_def transfers_of_def
      filed_transfers_def app_new_def manager_new_def split: option.splits)

section \<open>What the interface shows is what the manager has\<close>

lemma front_current:
  assumes "front_inv (m, a)" and r: "current_remote a = Some r"
  shows "\<exists>r0. mg_remotes m (r_uuid r) = Some r0 \<and> r_state r0 = r_state r \<and> r_messages r0 = r_messages r \<and>
    r_transfers r0 = current_transfers a"
proof -
  have inv: "mirror m a" "distinct (map r_uuid (ap_remotes a))" using assms(1) by simp_all
  have listed: "r \<in> set (ap_remotes a)" using current_listed [OF r] .
  have "find (is_remote (r_uuid r)) (ap_remotes a) = Some r"
    using find_unique [OF inv(2) listed] by (simp add: is_remote_def [abs_def])
  then have "announced m (r_uuid r) = Some (r\<lparr>r_transfers := transfers_of a (r_uuid r)\<rparr>)"
    using inv(1) by (simp add: mirror_def shown_def) (metis option.map(2))
  then have "mg_remotes m (r_uuid r) = Some (r\<lparr>r_transfers := transfers_of a (r_uuid r)\<rparr>)"
    by (simp add: announced_def get_remote_def split: if_splits)
  moreover have "current_transfers a = transfers_of a (r_uuid r)"
    using r by (simp add: current_transfers_def transfers_of_def)
  ultimately show ?thesis by simp
qed

lemma front_transfer:
  assumes inv: "front_inv (m, a)" and r: "current_remote a = Some r" and t: "current_transfer a = Some t"
  shows "get_transfer (r_uuid r) (t_uuid t) m = Some t"
proof -
  obtain r0 where r0: "mg_remotes m (r_uuid r) = Some r0" "r_transfers r0 = current_transfers a"
    using front_current [OF inv r] by auto
  have "t \<in> set (r_transfers r0)"
    using t r0(2) by (auto simp: current_transfer_def nth_opt_def split: if_splits)
  moreover have "distinct (map t_uuid (r_transfers r0))"
    using inv mgr_inv_remote [of m _ r0] r0(1) by (simp add: remote_wf_def)
  ultimately show ?thesis
    using find_unique [of t_uuid "r_transfers r0" t] r0(1) by (simp add: get_transfer_def has_uuid_def [abs_def])
qed

lemma front_message:
  assumes inv: "front_inv (m, a)" and r: "current_remote a = Some r" and x: "current_message a = Some x"
  shows "get_message (r_uuid r) (m_uuid x) m = Some x"
proof -
  obtain r0 where r0: "mg_remotes m (r_uuid r) = Some r0" "r_messages r0 = r_messages r"
    using front_current [OF inv r] by auto
  have "x \<in> set (r_messages r0)"
    using x r r0(2) by (auto simp: current_message_def current_messages_def nth_opt_def split: if_splits)
  moreover have "distinct (map m_uuid (r_messages r0))" using inv r0(1) by (auto simp: messages_wf_def)
  ultimately show ?thesis using find_unique [of m_uuid "r_messages r0" x] r0(1) by (simp add: get_message_def)
qed

section \<open>Commands respect what the operations ask\<close>

text \<open>
  The remote has a worker; what is cancelled waits for permission, what is stopped is in progress,
  what is removed is over, as the comments of \<open>remote_worker.rs\<close> demand; the message exists.
\<close>

definition known_peer :: "manager \<Rightarrow> string \<Rightarrow> bool" where
  "known_peer m u \<longleftrightarrow> get_remote u m \<noteq> None \<and> get_worker u m \<noteq> None"

definition transfer_is :: "(transfer_state \<Rightarrow> bool) \<Rightarrow> manager \<Rightarrow> string \<Rightarrow> string \<Rightarrow> bool" where
  "transfer_is P m u tu \<longleftrightarrow> (case get_transfer u tu m of None \<Rightarrow> False | Some t \<Rightarrow> P (t_state t))"

fun command_ready :: "manager \<Rightarrow> tui_command \<Rightarrow> bool" where
  "command_ready m (SendMessageTo u text) \<longleftrightarrow> known_peer m u"
| "command_ready m (SendFilesTo u paths) \<longleftrightarrow> known_peer m u \<and> paths \<noteq> []"
| "command_ready m (AcceptTransfer u tu dest) \<longleftrightarrow> known_peer m u"
| "command_ready m (CancelTransfer u tu) \<longleftrightarrow> known_peer m u \<and> transfer_is (\<lambda>st. st = WaitingPermission) m u tu"
| "command_ready m (ConnectRemote u) \<longleftrightarrow>
     known_peer m u \<and> (case get_remote u m of None \<Rightarrow> False | Some r \<Rightarrow> may_connect (r_state r))"
| "command_ready m (StopTransfer u tu) \<longleftrightarrow> known_peer m u \<and> transfer_is (\<lambda>st. st = InProgress) m u tu"
| "command_ready m (RemoveTransferOf u tu) \<longleftrightarrow> transfer_is is_over m u tu"
| "command_ready m (RemoveMessageOf u mu) \<longleftrightarrow> get_message u mu m \<noteq> None"

lemma known_from_remote: "mgr_inv m \<Longrightarrow> mg_remotes m u = Some r \<Longrightarrow> known_peer m u"
  by (auto simp: known_peer_def get_remote_def get_worker_def mgr_inv_def)

lemma confirmed_ready:
  assumes inv: "front_inv (m, a)" and cmd: "cmd \<in> set (snd (confirm_input mode text b))"
    and b: "current_remote b = current_remote a" "ap_pending_accept b = ap_pending_accept a"
  shows "command_ready m cmd"
proof -
  have m: "mgr_inv m" using inv by simp
  have pending: "known_peer m u" if "ap_pending_accept a = Some (u, tu)" for u tu
    using inv that known_from_remote [OF m, of u] by auto
  have current: "known_peer m (r_uuid r)" if "current_remote a = Some r" for r
    using front_current [OF inv that] known_from_remote [OF m] by blast
  show ?thesis
    using cmd b current pending by (auto simp: confirm_input_def split: input_mode.splits option.splits if_splits) metis
qed

lemma own_key_ready:
  assumes inv: "front_inv (m, a)" and k: "own_key dest code a = Return (Some (b, cmds))" and cmd: "cmd \<in> set cmds"
  shows "command_ready m cmd"
proof -
  have m: "mgr_inv m" using inv by simp
  have remote: "known_peer m (r_uuid r)" "\<exists>r0. get_remote (r_uuid r) m = Some r0 \<and> r_state r0 = r_state r"
    if "current_remote a = Some r" for r
    using front_current [OF inv that] known_from_remote [OF m] by (auto simp: get_remote_def)
  have transfer: "transfer_is P m (r_uuid r) (t_uuid t)"
    if "current_remote a = Some r" "current_transfer a = Some t" "P (t_state t)" for r t P
    using front_transfer [OF inv that(1,2)] that(3) by (simp add: transfer_is_def)
  have message: "get_message (r_uuid r) (m_uuid x) m \<noteq> None"
    if "current_remote a = Some r" "current_message a = Some x" for r x
    using front_message [OF inv that] by simp
  show ?thesis
    using k cmd remote transfer message
    by (auto simp: own_key_def transfer_key_def split: if_splits option.splits)
qed

lemma run_key_ready:
  assumes inv: "front_inv (m, a)" and k: "run_key dest code a = Return (quit, b, cmds)" and cmd: "cmd \<in> set cmds"
  shows "command_ready m cmd"
proof (cases "code = K_Enter \<and> ap_input_mode a \<noteq> None")
  case True
  then obtain mode where mode: "ap_input_mode a = Some mode" by auto
  let ?a = "a\<lparr>ap_input_mode := None, ap_input_buf := []\<rparr>"
  have "cmds = snd (confirm_input mode (ap_input_buf a) ?a)"
    using k True mode by (auto simp: run_key_def consume_input_def handle_key_def split: prod.splits)
  moreover have "current_remote ?a = current_remote a" by (simp add: current_remote_def)
  ultimately show ?thesis using confirmed_ready [OF inv] cmd by fastforce
next
  case False
  then have "(if code = K_Enter then consume_input a else (None, a)) = (None, a)"
    by (auto simp: consume_input_def)
  then have "\<exists>b'. own_key dest code a = Return (Some (b', cmds))"
    using k cmd by (auto simp: run_key_def split: outcome.splits option.splits prod.splits)
  then show ?thesis using own_key_ready [OF inv _ cmd] by blast
qed

section \<open>Accepting, from the keys to the screen\<close>

definition typing :: "string \<Rightarrow> string list \<Rightarrow> tui_input list" where
  "typing dest cs = map (\<lambda>c. TuiKey dest (K_Char c)) cs"

definition confirmed :: "app \<Rightarrow> app" where
  "confirmed a = a\<lparr>ap_input_mode := None, ap_input_buf := [], ap_pending_accept := None\<rparr>"

lemma typed_destination:
  assumes "ap_input_mode a = Some IM_AcceptDestination" and "ap_pending_accept a = Some (u, tu)"
  shows "tui_run (typing dest cs @ [TuiKey dest K_Enter]) a =
    Return (confirmed a, [AcceptTransfer u tu (path_of (ap_input_buf a @ concat cs))])"
  using assms
proof (induction cs arbitrary: a)
  case Nil
  then show ?case
    by (simp add: typing_def run_key_def consume_input_def handle_key_def confirm_input_def confirmed_def)
next
  case (Cons c cs)
  let ?a = "a\<lparr>ap_input_buf := ap_input_buf a @ c\<rparr>"
  have "run_key dest (K_Char c) a = Return (False, ?a, [])"
    using Cons.prems by (simp add: run_key_def own_key_def handle_key_def handle_input_key_def)
  moreover have "confirmed ?a = confirmed a" by (simp add: confirmed_def)
  ultimately show ?case using Cons.IH [of ?a] Cons.prems by (simp add: typing_def)
qed

lemma accept_keys:
  assumes "ap_input_mode a = None" and "ap_focus a = F_Transfers"
    and "current_remote a = Some r" and "current_transfer a = Some t"
    and "t_state t = WaitingPermission" and "is_incoming t"
  shows "tui_run (TuiKey dest (K_Char ''a'') # typing dest cs @ [TuiKey dest K_Enter]) a =
    Return (confirmed a, [AcceptTransfer (r_uuid r) (t_uuid t) (path_of (dest @ concat cs))])"
proof -
  let ?a = "a\<lparr>ap_input_mode := Some IM_AcceptDestination, ap_input_buf := dest,
    ap_pending_accept := Some (r_uuid r, t_uuid t)\<rparr>"
  have "run_key dest (K_Char ''a'') a = Return (False, ?a, [])"
    using assms by (simp add: run_key_def own_key_def)
  moreover have "confirmed ?a = confirmed a" by (simp add: confirmed_def)
  ultimately show ?thesis using typed_destination [of ?a "r_uuid r" "t_uuid t" dest cs] by simp
qed

lemma nth_upd_first:
  assumes "distinct (map t_uuid ts)" and "nth_opt ts i = Some t"
  shows "nth_opt (upd_first (has_uuid (t_uuid t)) f ts) i = Some (f t)"
  using assms
proof (induction ts arbitrary: i)
  case (Cons x ts)
  show ?case
  proof (cases i)
    case 0
    then show ?thesis using Cons.prems by (auto simp: nth_opt_def has_uuid_def)
  next
    case (Suc j)
    then have j: "nth_opt ts j = Some t" using Cons.prems(2) by (auto simp: nth_opt_def split: if_splits)
    then have "t \<in> set ts" by (auto simp: nth_opt_def split: if_splits)
    then have "t_uuid x \<noteq> t_uuid t" using Cons.prems(1) by auto
    then show ?thesis using Cons.IH [OF _ j] Cons.prems(1) Suc by (auto simp: has_uuid_def nth_opt_def split: if_splits)
  qed
qed (simp add: nth_opt_def)

text \<open>The worker's operation is one update of the manager, whose event the interface gets.\<close>

lemma accept_on_worker:
  assumes "alone (cm_shared env)" and "cm_answer env = Ok ()"
    and "get_worker u m = Some i" and "worker_client i m \<noteq> None"
    and "get_transfer u tu m = Some t" and "is_incoming t"
  shows "run_command env (AcceptTransfer u tu dest) m =
    mgr_step (UpdateTransfer (se_queued (cm_shared env)) u tu (accept_update dest)) m"
proof -
  obtain d where "t_kind t = Incoming d" using assms(6) by (auto simp: is_incoming_def split: transfer_kind.splits)
  then show ?thesis
    using assms(1-5)
    by (auto simp: on_worker_def accept_transfer_def alone_simps read_transfer_alone update_or_fail_Ok)
qed

lemma accept_is_reported:
  "mgr_inv m \<Longrightarrow> get_transfer u tu m = Some t \<Longrightarrow> t_state t = WaitingPermission \<Longrightarrow>
    view_ok (Operation now (UpdateTransfer q u tu (accept_update dest))) (m, a)"
  by (simp add: accept_update_def)

lemma deliver_selection:
  "ap_selected_transfer (deliver now m (TransferUpdated u tu) a) = ap_selected_transfer a"
  "ap_selected_remote (deliver now m (TransferUpdated u tu) a) = ap_selected_remote a"
  "ap_remotes (deliver now m (TransferUpdated u tu) a) = ap_remotes a"
  by (auto simp: deliver_def hydrate_def handle_event_def split: option.splits)

lemma accept_shown:
  assumes inv: "front_inv (m, a)" and r: "current_remote a = Some r" and t: "current_transfer a = Some t"
    and w: "t_state t = WaitingPermission"
    and step: "view_step (Operation now (UpdateTransfer q (r_uuid r) (t_uuid t) (accept_update dest))) (m, a) = (m1, b)"
  shows "current_transfer b = Some (accept_update dest t)"
proof -
  let ?f = "accept_update dest"
  obtain r0 where r0: "mg_remotes m (r_uuid r) = Some r0" "r_transfers r0 = current_transfers a"
    using front_current [OF inv r] by auto
  have g: "get_transfer (r_uuid r) (t_uuid t) m = Some t" by (rule front_transfer [OF inv r t])
  have ev: "mg_events m1 = mg_events m @ [TransferUpdated (r_uuid r) (t_uuid t)]"
    and m1: "m1 = snd (update_transfer q (r_uuid r) (t_uuid t) ?f m)"
    and b: "b = deliver now m1 (TransferUpdated (r_uuid r) (t_uuid t)) a"
    using step g w r0(1) by (auto simp: update_transfer_def get_transfer_def accept_update_def Let_def)
  have "view_inv (m1, b)"
    using view_step_inv [of "(m, a)" "Operation now (UpdateTransfer q (r_uuid r) (t_uuid t) ?f)", unfolded step] inv g w
    by (simp add: accept_update_def transfer_closure_ok_def)
  then have "transfers_of b (r_uuid r) = filed_transfers m1 (r_uuid r)" by (simp add: mirror_def)
  also have "\<dots> = upd_first (has_uuid (t_uuid t)) ?f (current_transfers a)"
    using r0 by (simp add: filed_transfers_def m1 mg_remotes_update_transfer)
  finally have "current_transfers b = upd_first (has_uuid (t_uuid t)) ?f (current_transfers a)"
    using r by (simp add: current_transfers_def transfers_of_def current_remote_def b deliver_selection)
  moreover have "distinct (map t_uuid (current_transfers a))"
    using inv mgr_inv_remote [of m _ r0] r0 by (simp add: remote_wf_def)
  ultimately show ?thesis
    using t nth_upd_first [of "current_transfers a" "ap_selected_transfer a" t ?f]
    by (simp add: current_transfer_def b deliver_selection)
qed

section \<open>Properties\<close>


text \<open>
  C19. Accepting from the keyboard: \<open>a\<close> on a waiting incoming transfer, a destination typed after the
  default one, and Enter call \<open>accept_transfer\<close> with the whole text as the path. When the sender
  answers, the manager has the transfer in progress towards that path, and once its event is
  delivered the interface shows it so, in the same place, with the dialogue closed.
\<close>

theorem accept_reaches_screen:
  assumes "front_inv (m, a)" and "ap_input_mode a = None" and "ap_focus a = F_Transfers"
    and "current_remote a = Some r" and "current_transfer a = Some t"
    and "t_state t = WaitingPermission" and "is_incoming t"
    and "alone (cm_shared env)" and "cm_answer env = Ok ()"
    and "get_worker (r_uuid r) m = Some i" and "worker_client i m \<noteq> None"
  shows "\<exists>b cmd m1. tui_run (TuiKey dest (K_Char ''a'') # typing dest cs @ [TuiKey dest K_Enter]) a = Return (b, [cmd]) \<and>
    m1 = run_command env cmd m \<and>
    get_transfer (r_uuid r) (t_uuid t) m1 =
      Some (t\<lparr>t_state := InProgress, t_kind := Incoming (path_of (dest @ concat cs))\<rparr>) \<and>
    current_transfer (fold (deliver now m1) (drop (length (mg_events m)) (mg_events m1)) b) =
      Some (t\<lparr>t_state := InProgress, t_kind := Incoming (path_of (dest @ concat cs))\<rparr>) \<and>
    ap_input_mode b = None \<and> ap_pending_accept b = None"
proof -
  let ?b = "confirmed a" and ?d = "path_of (dest @ concat cs)"
  let ?cmd = "AcceptTransfer (r_uuid r) (t_uuid t) ?d"
  let ?m = "run_command env ?cmd m"
  have g: "get_transfer (r_uuid r) (t_uuid t) m = Some t" by (rule front_transfer [OF assms(1,4,5)])
  let ?op = "UpdateTransfer (se_queued (cm_shared env)) (r_uuid r) (t_uuid t) (accept_update ?d)"
  have m: "?m = mgr_step ?op m" by (rule accept_on_worker [OF assms(8-11) g assms(7)])
  have cur: "current_remote ?b = Some r" "current_transfer ?b = Some t"
    using assms(4,5) by (simp_all add: confirmed_def current_remote_def current_transfer_def current_transfers_def)
  have inv: "front_inv (m, ?b)"
    using assms(1) mirror_cong [of ?b a m] by (simp add: confirmed_def copy_def)
  have "get_transfer (r_uuid r) (t_uuid t) ?m = Some (accept_update ?d t)"
    using get_transfer_updated [OF keeps_uuid_state(3) g] m by simp
  moreover have "current_transfer (fold (deliver now ?m) (drop (length (mg_events m)) (mg_events ?m)) ?b) =
      Some (accept_update ?d t)"
    using accept_shown [OF inv cur assms(6) view_operation] by (simp only: m)
  ultimately show ?thesis
    using accept_keys [OF assms(2-7), of dest cs]
    by (intro exI [of _ ?b] exI [of _ ?cmd] exI [of _ ?m]) (simp add: accept_update_def confirmed_def)
qed

section \<open>A run\<close>

definition front_ops :: "view_op list" where
  "front_ops = map (Operation 1000)
     [InsertWorker 1 ''peer'', InsertRemote sample_remote, AnnounceRemote 0 ''peer'',
      UpdateWorker 0 (\<lambda>w. w\<lparr>w_client := Some 1\<rparr>), AddTransfer ''peer'' sample_incoming] @ [KeyPress [] K_Tab]"

definition front_start :: "manager \<times> app" where
  "front_start = fold view_step front_ops (sample_manager, app_new)"

lemma front_ops_ok: "view.ok_run front_ops (sample_manager, app_new)"
  by (rule ok_run_ops) (simp add: mirror_sample front_ops_def)

lemmas front_sample = front_start_def front_ops_def mirror_sample deliver_def hydrate_def get_remote_def
  handle_event_def app_new_def run_key_def own_key_def handle_key_def update_worker_def worker_new_def
  current_remote_def current_transfer_def current_transfers_def nth_opt_def is_incoming_def

lemma front_start_facts:
  "current_remote (snd front_start) = Some sample_remote" "current_transfer (snd front_start) = Some sample_incoming"
  "ap_focus (snd front_start) = F_Transfers" "ap_input_mode (snd front_start) = None"
  "get_worker ''peer'' (fst front_start) = Some 0" "worker_client 0 (fst front_start) = Some 1"
  by (simp_all add: front_sample get_worker_def worker_client_def)

lemma front_start_inv: "front_inv front_start"
  unfolding front_start_def
  by (rule front.run_inv [OF front_inv_new [OF sample_manager_new]]) (use front_ops_ok front_ok_run in simp)

lemma sample_waits: "t_state sample_incoming = WaitingPermission" "is_incoming sample_incoming"
  "r_uuid sample_remote = ''peer''" "t_uuid sample_incoming = ''t1''"
  by (simp_all add: sample_incoming_def is_incoming_def sample_remote_def remote_new_def transfer_new_outgoing_def)


definition calm_commands :: command_env where
  "calm_commands =
     \<lparr>cm_shared = calm, cm_connect = answering, cm_request = sample_request, cm_fresh = ''x1'', cm_now = 5,
      cm_answer = Ok ()\<rparr>"

lemma accept_reaches_screen_witness:
  "\<exists>b cmd m1. tui_run [TuiKey ''/d'' (K_Char ''a''), TuiKey ''/d'' (K_Char ''/e''), TuiKey ''/d'' K_Enter] (snd front_start) =
      Return (b, [cmd]) \<and>
    m1 = run_command calm_commands cmd (fst front_start) \<and>
    get_transfer ''peer'' ''t1'' m1 =
      Some (sample_incoming\<lparr>t_state := InProgress, t_kind := Incoming (path_of ''/d/e'')\<rparr>)"
proof -
  have inv: "front_inv (fst front_start, snd front_start)" using front_start_inv by simp
  have env: "alone (cm_shared calm_commands)" "cm_answer calm_commands = Ok ()"
    using calm_alone by (simp_all add: calm_commands_def)
  have "get_worker (r_uuid sample_remote) (fst front_start) = Some 0" "worker_client 0 (fst front_start) \<noteq> None"
    using front_start_facts(5,6) sample_waits(3) by simp_all
  from accept_reaches_screen [OF inv front_start_facts(4,3,1,2) sample_waits(1,2) env this,
      of "''/d''" "[''/e'']" 0]
  show ?thesis using sample_waits(3,4) by (auto simp: typing_def)
qed

end
