(* ===== verification/Warp_Address.thy ===== *)
theory Warp_Address
  imports Warp_Manager
begin

text \<open>
  \<open>IpAddr::from_str\<close> of the standard library, which the registration service and the manual
  connection call on text from the network: a parser consumes characters and returns a value with
  the rest. The printed form of an IPv4 address, which \<open>RemoteManager::new\<close> puts into the
  registration message, parses back to the address.
\<close>

type_synonym 'a parser = "string \<Rightarrow> ('a \<times> string) option"

text \<open>\<open>c.to_digit(radix)\<close>, for the radices 10 and 16.\<close>

definition to_digit :: "nat \<Rightarrow> char \<Rightarrow> nat option" where
  "to_digit radix c =
     (let x = of_char c :: nat;
          v = (if 48 \<le> x \<and> x \<le> 57 then x - 48
               else if 97 \<le> x \<and> x \<le> 122 then x - 87
               else if 65 \<le> x \<and> x \<le> 90 then x - 55 else 36)
      in if v < radix then Some v else None)"

text \<open>At most \<open>room\<close> digits: one more is a failure, not the end of the number.\<close>

fun read_digits :: "nat \<Rightarrow> nat \<Rightarrow> nat \<Rightarrow> nat parser" where
  "read_digits radix room acc [] = Some (acc, [])"
| "read_digits radix room acc (c # cs) =
     (case to_digit radix c of
        None \<Rightarrow> Some (acc, c # cs)
      | Some d \<Rightarrow> (case room of 0 \<Rightarrow> None | Suc n \<Rightarrow> read_digits radix n (acc * radix + d) cs))"

definition read_number :: "nat \<Rightarrow> nat \<Rightarrow> bool \<Rightarrow> nat \<Rightarrow> nat parser" where
  "read_number radix digits zero_prefix bound s =
     (case read_digits radix digits 0 s of
        None \<Rightarrow> None
      | Some (v, rest) \<Rightarrow>
          if length rest = length s then None
          else if \<not> zero_prefix \<and> hd s = CHR ''0'' \<and> Suc (length rest) < length s then None
          else if v < bound then Some (v, rest) else None)"

definition read_separated :: "char \<Rightarrow> bool \<Rightarrow> 'a parser \<Rightarrow> 'a parser" where
  "read_separated sep first p s =
     (if first then p s else case s of [] \<Rightarrow> None | c # cs \<Rightarrow> if c = sep then p cs else None)"

fun read_octets :: "nat \<Rightarrow> bool \<Rightarrow> nat list parser" where
  "read_octets 0 first s = Some ([], s)"
| "read_octets (Suc n) first s =
     (case read_separated CHR ''.'' first (read_number 10 3 False 256) s of
        None \<Rightarrow> None
      | Some (v, r) \<Rightarrow> map_option (\<lambda>(vs, r'). (v # vs, r')) (read_octets n False r))"

definition read_ipv4 :: "nat list parser" where
  "read_ipv4 = read_octets 4 True"

text \<open>
  Groups of an IPv6 address, at most as many as are left; the last two may be an embedded IPv4
  address. Returns the groups and whether they end with one.
\<close>

fun read_groups :: "nat \<Rightarrow> bool \<Rightarrow> string \<Rightarrow> nat list \<times> bool \<times> string" where
  "read_groups 0 first s = ([], False, s)"
| "read_groups (Suc n) first s =
     (case (if 0 < n then read_separated CHR '':'' first read_ipv4 s else None) of
        Some (os, r) \<Rightarrow> ([os ! 0 * 256 + os ! 1, os ! 2 * 256 + os ! 3], True, r)
      | None \<Rightarrow>
         (case read_separated CHR '':'' first (read_number 16 4 True 65536) s of
            Some (g, r) \<Rightarrow> (case read_groups n False r of (gs, v4, r') \<Rightarrow> (g # gs, v4, r'))
          | None \<Rightarrow> ([], False, s)))"

definition read_ipv6 :: "nat list parser" where
  "read_ipv6 s =
     (case read_groups 8 True s of
        (front, v4, r) \<Rightarrow>
          if length front = 8 then Some (front, r)
          else if v4 then None
          else case r of
                 CHR '':'' # CHR '':'' # r2 \<Rightarrow>
                   (case read_groups (8 - (length front + 1)) True r2 of
                      (back, _, r3) \<Rightarrow>
                        Some (front @ replicate (8 - length front - length back) 0 @ back, r3))
               | _ \<Rightarrow> None)"

definition number_of_parts :: "nat \<Rightarrow> nat list \<Rightarrow> nat" where
  "number_of_parts base xs = foldl (\<lambda>a x. a * base + x) 0 xs"

definition parse_ip :: "string \<Rightarrow> ip_addr option" where
  "parse_ip s =
     (case read_ipv4 s of
        Some (os, r) \<Rightarrow> if r = [] then Some (V4 (of_nat (number_of_parts 256 os))) else None
      | None \<Rightarrow>
         (case read_ipv6 s of
            Some (gs, r) \<Rightarrow> if r = [] then Some (V6 (of_nat (number_of_parts 65536 gs))) else None
          | None \<Rightarrow> None))"

section \<open>Printing and parsing back\<close>

definition digit_char :: "nat \<Rightarrow> char" where
  "digit_char d = char_of (48 + d)"

lemma to_digit_decimal: "d < 10 \<Longrightarrow> to_digit 10 (digit_char d) = Some d"
  by (simp add: digit_char_def to_digit_def Let_def)

lemma read_digits_step:
  "d < 10 \<Longrightarrow> 0 < room \<Longrightarrow>
    read_digits 10 room acc (digit_char d # cs) = read_digits 10 (room - 1) (acc * 10 + d) cs"
  by (cases room) (simp_all add: to_digit_decimal)

text \<open>A rest that does not go on with a digit.\<close>

definition number_ends :: "string \<Rightarrow> bool" where
  "number_ends r \<longleftrightarrow> (case r of [] \<Rightarrow> True | c # cs \<Rightarrow> to_digit 10 c = None)"

lemma read_digits_end: "number_ends r \<Longrightarrow> read_digits 10 n acc r = Some (acc, r)"
  by (cases r) (simp_all add: number_ends_def)

lemma digit_char_nonzero:
  assumes "d < 10" and "d \<noteq> 0"
  shows "digit_char d \<noteq> CHR ''0''"
proof
  assume "digit_char d = CHR ''0''"
  moreover have "to_digit 10 CHR ''0'' = Some 0" by (simp add: to_digit_def)
  ultimately show False using to_digit_decimal [OF assms(1)] assms(2) by simp
qed

lemma octet_digits:
  assumes "n < 256"
  shows "nat_to_string n =
    (if n < 10 then [digit_char n]
     else if n < 100 then [digit_char (n div 10), digit_char (n mod 10)]
     else [digit_char (n div 100), digit_char (n div 10 mod 10), digit_char (n mod 10)])"
proof -
  have "n div 10 div 10 = n div 100" by (simp add: div_mult2_eq [symmetric])
  moreover have "n div 10 < 10 \<longleftrightarrow> n < 100" "n div 100 < 10" using assms by auto
  ultimately show ?thesis
    by (simp add: digit_char_def nat_to_string.simps [of n] nat_to_string.simps [of "n div 10"]
        nat_to_string.simps [of "n div 100"])
qed

lemma read_decimals:
  assumes "number_ends r"
  shows "a < 10 \<Longrightarrow> read_number 10 3 False 256 (digit_char a # r) = Some (a, r)"
    and "a < 10 \<Longrightarrow> b < 10 \<Longrightarrow> a \<noteq> 0 \<Longrightarrow>
      read_number 10 3 False 256 (digit_char a # digit_char b # r) = Some (a * 10 + b, r)"
    and "a < 10 \<Longrightarrow> b < 10 \<Longrightarrow> c < 10 \<Longrightarrow> a \<noteq> 0 \<Longrightarrow> (a * 10 + b) * 10 + c < 256 \<Longrightarrow>
      read_number 10 3 False 256 (digit_char a # digit_char b # digit_char c # r) =
        Some ((a * 10 + b) * 10 + c, r)"
  using read_digits_end [OF assms]
  by (simp_all add: read_number_def read_digits_step digit_char_nonzero del: read_digits.simps)

lemma read_octet:
  assumes "n < 256" and "number_ends r"
  shows "read_number 10 3 False 256 (nat_to_string n @ r) = Some (n, r)"
proof -
  consider "n < 10" | "10 \<le> n" "n < 100" | "100 \<le> n" by linarith
  then show ?thesis
  proof cases
    case 1
    then show ?thesis using read_decimals(1) [OF assms(2)] assms(1) by (simp add: octet_digits)
  next
    case 2
    then have "n div 10 < 10" "n div 10 \<noteq> 0" by auto
    then show ?thesis
      using 2 read_decimals(2) [OF assms(2), of "n div 10" "n mod 10"] assms(1)
      by (simp add: octet_digits)
  next
    case 3
    then have top: "n div 100 < 10" "n div 100 \<noteq> 0" using assms(1) by auto
    have "n div 100 = n div 10 div 10" by (simp add: div_mult2_eq [symmetric])
    then have "n div 100 * 10 + n div 10 mod 10 = n div 10" by simp
    then have whole: "(n div 100 * 10 + n div 10 mod 10) * 10 + n mod 10 = n" by simp
    have "nat_to_string n @ r =
        digit_char (n div 100) # digit_char (n div 10 mod 10) # digit_char (n mod 10) # r"
      using 3 assms(1) by (simp add: octet_digits)
    then show ?thesis
      using read_decimals(3) [OF assms(2) top(1) _ _ top(2), of "n div 10 mod 10" "n mod 10"]
      unfolding whole using assms(1) by simp
  qed
qed

lemma number_ends_dot: "number_ends (CHR ''.'' # r)"
  by (simp add: number_ends_def to_digit_def)

lemma octet_less: "octet a i < 256"
  by (simp add: octet_def)

lemma read_ipv4_text: "read_ipv4 (ipv4_text a) = Some ([octet a 3, octet a 2, octet a 1, octet a 0], [])"
proof -
  have "number_ends []" by (simp add: number_ends_def)
  note reads = read_octet [OF octet_less number_ends_dot] read_octet [OF octet_less this]
  have four: "4 = Suc (Suc (Suc (Suc 0)))" by simp
  show ?thesis
    using reads(2) [of a 0]
    by (simp add: read_ipv4_def ipv4_text_def read_separated_def reads(1) four)
qed

lemma octets_number:
  "number_of_parts 256 [octet a 3, octet a 2, octet a 1, octet a 0] = unat a"
proof -
  have top: "unat a < 256 ^ 4" using unsigned_less [of a, where ?'a = nat] by simp
  have split: "x = x div 256 * 256 + x mod 256" for x :: nat by simp
  have "unat a div 256 ^ 3 < 256" using top by (simp add: less_mult_imp_div_less)
  then have 3: "octet a 3 = unat a div 256 div 256 div 256"
    by (simp add: octet_def div_mult2_eq [symmetric])
  have "octet a 2 = unat a div 256 div 256 mod 256" "octet a 1 = unat a div 256 mod 256"
    "octet a 0 = unat a mod 256"
    by (simp_all add: octet_def div_mult2_eq [symmetric])
  then show ?thesis
    using split [of "unat a"] split [of "unat a div 256"] split [of "unat a div 256 div 256"]
    by (simp add: number_of_parts_def 3)
qed

lemma parse_ipv4_text: "parse_ip (ipv4_text a) = Some (V4 a)"
  by (simp add: parse_ip_def read_ipv4_text octets_number del: One_nat_def)

end
