(* ===== verification/Warp_Registration.thy ===== *)
theory Warp_Registration
  imports Warp_Address Warp_Connection
begin

text \<open>
  The ways by which a peer becomes known: \<open>src/grpc/registration.rs\<close> (the peer registers itself),
  \<open>manual_connection\<close> of \<open>src/server/remote_manager.rs\<close> (the user names its address), and
  \<open>src/server/discovery.rs\<close> (its service is announced on the network). Each looks the peer up, adds
  or updates it in a separate access, and may start a connection; \<open>ac_others\<close> is what other tasks do
  before an access, numbered in the order of the source.
\<close>

record access_env =
  ac_others :: "nat \<Rightarrow> manager \<Rightarrow> manager"
  ac_token :: token
  ac_connect :: connect_env

text \<open>\<open>add_remote\<close> with other tasks between its three sections.\<close>

definition add_remote_among :: "access_env \<Rightarrow> remote \<Rightarrow> manager \<Rightarrow> nat \<times> manager" where
  "add_remote_among env r m =
     (let uuid = r_uuid r;
          (i, m1) = insert_worker (ac_token env) uuid (ac_others env 1 m)
      in (i, announce_remote i uuid (ac_others env 3 (insert_remote r (ac_others env 2 m1)))))"

lemma add_remote_among_alone:
  "\<forall>k m. ac_others env k m = m \<Longrightarrow> add_remote_among env r m = add_remote (ac_token env) r m"
  by (simp add: add_remote_among_def add_remote_def)

text \<open>\<open>u16::try_from\<close>, and \<open>as u16\<close>.\<close>

definition port_try_into :: "u32 \<Rightarrow> u16 option" where
  "port_try_into p = (if unat p < 2 ^ 16 then Some (ucast p) else None)"

definition needs_reconnect :: "remote_state \<Rightarrow> bool" where
  "needs_reconnect st = (case st of Disconnected \<Rightarrow> True | RS_Error e \<Rightarrow> True | _ \<Rightarrow> False)"

text \<open>\<open>get_worker(id).ok_or(missing)?.connect().map_err(failed)?\<close>\<close>

definition reconnect ::
  "access_env \<Rightarrow> nat \<Rightarrow> string \<Rightarrow> 'e \<Rightarrow> (connect_remote_error \<Rightarrow> 'e) \<Rightarrow> manager
    \<Rightarrow> (unit, 'e) result \<times> manager" where
  "reconnect env k uuid missing failed m =
     (let m1 = ac_others env k m
      in case get_worker uuid m1 of
           None \<Rightarrow> (Err missing, m1)
         | Some i \<Rightarrow>
             (case connect (ac_connect env) uuid i m1 of
                (Ok _, m2) \<Rightarrow> (Ok (), m2)
              | (Err e, m2) \<Rightarrow> (Err (failed e), m2)))"

section \<open>The registration service\<close>

text \<open>
  The closure of the update writes field by field and panics at a port that does not fit; what it
  has written by then stays, since the lock is not poisoned, but no event is sent.
\<close>

definition registration_update ::
  "ip_addr \<Rightarrow> service_registration \<Rightarrow> remote \<Rightarrow> unit outcome \<times> remote" where
  "registration_update ip req r =
     (let r1 = r\<lparr>r_ip := ip\<rparr>
      in case port_try_into (sr_port req) of
           None \<Rightarrow> (Panic, r1)
         | Some p \<Rightarrow>
            (let r2 = r1\<lparr>r_port := p\<rparr>
             in case port_try_into (sr_auth_port req) of
                  None \<Rightarrow> (Panic, r2)
                | Some a \<Rightarrow>
                    (Return (), r2\<lparr>r_auth_port := a, r_hostname := sr_hostname req,
                                  r_service_name := sr_service_id req\<rparr>)))"

definition update_remote_panicking ::
  "string \<Rightarrow> (remote \<Rightarrow> unit outcome \<times> remote) \<Rightarrow> manager
    \<Rightarrow> (unit, update_error) result outcome \<times> manager" where
  "update_remote_panicking uuid f m =
     (case mg_remotes m uuid of
        None \<Rightarrow> (Return (Err UE_NotFound), m)
      | Some r \<Rightarrow>
         (case f r of
            (Panic, r1) \<Rightarrow> (Panic, put_remote uuid r1 m)
          | (Return _, r1) \<Rightarrow>
              (Return (Ok ()), send_event (RemoteUpdated uuid) (put_remote uuid r1 m))))"

definition bad_address :: status where
  "bad_address = Status InvalidArgument ''invalid IP address syntax''"

text \<open>\<open>describe\<close> is the \<open>Display\<close> text of a connection error.\<close>

definition register_service ::
  "access_env \<Rightarrow> (connect_remote_error \<Rightarrow> string) \<Rightarrow> service_registration \<Rightarrow> service_registration \<Rightarrow> manager
    \<Rightarrow> (service_registration, status) result outcome \<times> manager" where
  "register_service env describe own req m =
     (let uuid = sr_service_id req; m0 = ac_others env 0 m
      in case get_remote uuid m0 of
           None \<Rightarrow>
            (case parse_ip (sr_ip req) of
               None \<Rightarrow> (Return (Err bad_address), m0)
             | Some ip \<Rightarrow>
                (case (port_try_into (sr_port req), port_try_into (sr_auth_port req)) of
                   (Some p, Some a) \<Rightarrow>
                     (Return (Ok own),
                      snd (add_remote_among env (remote_new uuid ip p a uuid (sr_hostname req)) m0))
                 | _ \<Rightarrow> (Panic, m0)))
         | Some r \<Rightarrow>
             if r_state r = Connected then (Return (Ok own), m0)
             else
               (case parse_ip (sr_ip req) of
                  None \<Rightarrow> (Return (Err bad_address), m0)
                | Some ip \<Rightarrow>
                   (case update_remote_panicking uuid (registration_update ip req) (ac_others env 1 m0) of
                      (Return (Ok _), m1) \<Rightarrow>
                        if needs_reconnect (r_state r)
                        then (case reconnect env 2 uuid
                                     (Status Internal ''Failed to connect to remote after registration update'')
                                     (\<lambda>e. Status Internal
                                        (''Failed to connect to remote after registration update: '' @ describe e)) m1 of
                                (Ok _, m2) \<Rightarrow> (Return (Ok own), m2)
                              | (Err s, m2) \<Rightarrow> (Return (Err s), m2))
                        else (Return (Ok own), m1)
                    | (_, m1) \<Rightarrow> (Panic, m1))))"

section \<open>Connecting by hand\<close>

datatype manual_connection_error =
    InvalidUrl
  | FailedToRegister
  | ME_Unavailable
  | RemoteInternal
  | RemoteUnimplemented
  | AlreadyConnecting
  | AlreadyConnected
  | FailedToConnect connect_remote_error

text \<open>\<open>url.rfind(":")\<close>, and the text on either side.\<close>

definition split_last_colon :: "string \<Rightarrow> (string \<times> string) option" where
  "split_last_colon url =
     (case dropWhile (\<lambda>c. c \<noteq> CHR '':'') (rev url) of
        [] \<Rightarrow> None
      | c # before \<Rightarrow> Some (rev before, rev (takeWhile (\<lambda>c. c \<noteq> CHR '':'') (rev url))))"

definition manual_status_error :: "status \<Rightarrow> manual_connection_error" where
  "manual_status_error s =
     (case st_code s of
        Unimplemented \<Rightarrow> RemoteUnimplemented
      | Internal \<Rightarrow> RemoteInternal
      | Unavailable \<Rightarrow> ME_Unavailable
      | _ \<Rightarrow> FailedToRegister)"

definition manual_update :: "string \<Rightarrow> service_registration \<Rightarrow> remote \<Rightarrow> remote" where
  "manual_update ip s r =
     (let r1 = (case parse_ip ip of Some a \<Rightarrow> r\<lparr>r_ip := a\<rparr> | None \<Rightarrow> r)
      in r1\<lparr>r_hostname := sr_hostname s, r_port := ucast (sr_port s),
            r_auth_port := ucast (sr_auth_port s), r_service_static := True\<rparr>)"

text \<open>\<open>reaches\<close>: whether the URI is valid and the server answers; \<open>answer\<close>: its registration reply.\<close>

definition manual_connection ::
  "access_env \<Rightarrow> (string \<Rightarrow> bool) \<Rightarrow> (service_registration, status) result \<Rightarrow> string \<Rightarrow> manager
    \<Rightarrow> (unit, manual_connection_error) result outcome \<times> manager" where
  "manual_connection env reaches answer url m =
     (case split_last_colon url of
        None \<Rightarrow> (Return (Err InvalidUrl), m)
      | Some (ip, port) \<Rightarrow>
          if \<not> reaches (''http://'' @ ip @ '':'' @ port) then (Return (Err FailedToRegister), m)
          else case answer of
            Err s \<Rightarrow> (Return (Err (manual_status_error s)), m)
          | Ok s \<Rightarrow>
             (let uuid = sr_service_id s; m0 = ac_others env 0 m
              in case get_remote uuid m0 of
                   Some r \<Rightarrow>
                    (case update_remote (r_uuid r) (manual_update ip s) (ac_others env 1 m0) of
                       (Err e, m1) \<Rightarrow> (Panic, m1)
                     | (Ok _, m1) \<Rightarrow>
                        (case r_state r of
                           Connecting \<Rightarrow> (Return (Err AlreadyConnecting), m1)
                         | AwaitingDuplex \<Rightarrow> (Return (Err AlreadyConnecting), m1)
                         | Connected \<Rightarrow> (Return (Err AlreadyConnected), m1)
                         | _ \<Rightarrow> (case reconnect env 2 (r_uuid r) (FailedToConnect RemoteWorkerNotFound)
                                         FailedToConnect m1 of
                                  (x, m2) \<Rightarrow> (Return x, m2))))
                 | None \<Rightarrow>
                    (case parse_ip ip of
                       None \<Rightarrow> (Return (Err InvalidUrl), m0)
                     | Some a \<Rightarrow>
                        (let r = (remote_new uuid a (ucast (sr_port s)) (ucast (sr_auth_port s)) uuid
                                    (sr_hostname s))\<lparr>r_service_static := True\<rparr>;
                             (i, m1) = add_remote_among env r m0
                         in case connect (ac_connect env) uuid i m1 of
                              (Ok _, m2) \<Rightarrow> (Return (Ok ()), m2)
                            | (Err e, m2) \<Rightarrow> (Return (Err (FailedToConnect e)), m2)))))"

section \<open>Lemmas\<close>

lemma port_try_into_ucast [simp]: "port_try_into (ucast (p :: u16)) = Some p"
proof -
  have "unat p < 2 ^ 16" using unsigned_less [of p, where ?'a = nat] by simp
  moreover have "ucast (ucast p :: u32) = p" by (rule bit_word_eqI) (auto simp: bit_simps)
  ultimately show ?thesis by (simp add: port_try_into_def unsigned_ucast_eq take_bit_nat_eq_self)
qed

lemma registration_update_fits:
  assumes "port_try_into (sr_port req) = Some p" and "port_try_into (sr_auth_port req) = Some a"
  shows "registration_update ip req r =
    (Return (), r\<lparr>r_ip := ip, r_port := p, r_auth_port := a, r_hostname := sr_hostname req,
                  r_service_name := sr_service_id req\<rparr>)"
  using assms by (simp add: registration_update_def Let_def)

end
