(* ===== verification/Warp_Registered.thy ===== *)
theory Warp_Registered
  imports Warp_Registration
begin

text \<open>
  What becomes of a peer that registers itself, or that the user names: the exchange of the
  registration message, repeated registrations, numbers that do not fit, two tasks that add the
  same peer at once, and the addresses a manual connection accepts.
\<close>

section \<open>Adding a peer\<close>

definition calm_access :: "access_env \<Rightarrow> bool" where
  "calm_access env \<longleftrightarrow> (\<forall>k m. ac_others env k m = m)"

lemma calm_accessD [simp]: "calm_access env \<Longrightarrow> ac_others env k m = m"
  by (simp add: calm_access_def)

lemma calm_add_remote:
  assumes "calm_access env"
  shows "add_remote_among env r m = add_remote (ac_token env) r m"
  using assms by (simp add: add_remote_among_alone)

lemma add_remote_facts:
  assumes "add_remote tok r m = (i, m')"
  shows "i = length (mg_arena m)" "get_remote (r_uuid r) m' = Some r" "get_worker (r_uuid r) m' = Some i"
    "loop_flag i m' = Some True" "mg_events m' = mg_events m @ [RemoteAdded (r_uuid r)]"
    "sent_states i m' = Some []" "worker_client i m' = None"
  using assms
  by (auto simp: add_remote_def insert_worker_def insert_remote_def announce_remote_def Let_def
      get_remote_def get_worker_def loop_flag_def sent_states_def worker_new_def worker_client_def)

lemma get_remote_whereabouts:
  "same_whereabouts m m' \<Longrightarrow>
    map_option whereabouts (get_remote u m') = map_option whereabouts (get_remote u m)"
  by (simp add: same_whereabouts_def get_remote_def)

lemma connect_whereabouts:
  "peaceful env \<Longrightarrow> map_option whereabouts (get_remote u (snd (connect env v j m))) =
    map_option whereabouts (get_remote u m)"
  using get_remote_whereabouts [OF whereabouts.connect_kept [THEN mp]] .

lemma reconnect_whereabouts:
  assumes "calm_access env" and "peaceful (ac_connect env)"
    and "reconnect env k v missing failed m = (x, m')"
  shows "map_option whereabouts (get_remote u m') = map_option whereabouts (get_remote u m)"
proof (cases "get_worker v m")
  case None
  then show ?thesis using assms(1,3) by (auto simp: reconnect_def)
next
  case (Some i)
  obtain y m2 where c: "connect (ac_connect env) v i m = (y, m2)" by force
  then have "m' = m2" using assms(1,3) Some by (cases y) (auto simp: reconnect_def)
  then show ?thesis using connect_whereabouts [OF assms(2), of u v i m] c by simp
qed

text \<open>
  C22. The registration message that \<open>RemoteManager::new\<close> builds is understood: a service that does
  not know the peer answers with its own message and records the peer under its service name with
  exactly its address, ports and hostname, disconnected, with a running worker, and announces it.
\<close>

theorem registration_records_peer:
  assumes "manager_new pc uc name = Some peer" and "uc_bind_addr_v4 uc = Some a"
    and "calm_access env" and "get_remote name m = None"
  shows "\<exists>m' i. register_service env describe own (mg_registration peer) m = (Return (Ok own), m') \<and>
    get_remote name m' = Some (remote_new name (V4 a) (uc_port uc) (uc_reg_port uc) name (uc_hostname uc)) \<and>
    get_worker name m' = Some i \<and> loop_flag i m' = Some True \<and>
    mg_events m' = mg_events m @ [RemoteAdded name]"
proof -
  let ?r = "remote_new name (V4 a) (uc_port uc) (uc_reg_port uc) name (uc_hostname uc)"
  obtain i m' where add: "add_remote (ac_token env) ?r m = (i, m')" by force
  have "r_uuid ?r = name" by (simp add: remote_new_def)
  note facts = add_remote_facts [OF add, unfolded this]
  have "mg_registration peer =
      \<lparr>sr_service_id = name, sr_ip = ipv4_text a, sr_port = ucast (uc_port uc),
       sr_hostname = uc_hostname uc, sr_api_version = ucast service_api_version,
       sr_auth_port = ucast (uc_reg_port uc), sr_ipv6 = []\<rparr>"
    using assms(1,2) by (auto simp: manager_new_def)
  then have "register_service env describe own (mg_registration peer) m = (Return (Ok own), m')"
    using assms(3,4) add
    by (simp add: register_service_def Let_def parse_ipv4_text calm_add_remote)
  then show ?thesis using facts by blast
qed

definition sample_access :: access_env where
  "sample_access = \<lparr>ac_others = \<lambda>k m. m, ac_token = 3, ac_connect = answering\<rparr>"

lemma sample_access_calm: "calm_access sample_access"
  by (simp add: calm_access_def sample_access_def)

lemma sample_access_peaceful: "peaceful (ac_connect sample_access)"
  by (simp add: sample_access_def peaceful_def answering_def shared_of_def same_whereabouts_def)

lemma sample_peer_new:
  "\<exists>m. manager_new protocol_config_default sample_user ''other'' = Some m"
  by (simp add: manager_new_def sample_user_def)

theorem registration_records_peer_witness:
  "\<exists>peer m'. manager_new protocol_config_default sample_user ''other'' = Some peer \<and>
    register_service sample_access (\<lambda>e. []) (mg_registration sample_manager) (mg_registration peer)
      sample_manager = (Return (Ok (mg_registration sample_manager)), m') \<and>
    map_option r_ip (get_remote ''other'' m') = Some (V4 0x7F000001)"
proof -
  obtain peer where peer: "manager_new protocol_config_default sample_user ''other'' = Some peer"
    using sample_peer_new by blast
  have "get_remote ''other'' sample_manager = None" "uc_bind_addr_v4 sample_user = Some 0x7F000001"
    by (simp_all add: sample_manager_def manager_new_def sample_user_def get_remote_def)
  from registration_records_peer [OF peer this(2) sample_access_calm this(1)] peer
  show ?thesis by (fastforce simp: remote_new_def)
qed

text \<open>
  C23. A peer that registers again. From a connected peer nothing is taken over; from any other the
  address, the ports and the hostname of the message are recorded, whatever then becomes of the
  attempt to reconnect, and the call can only fail if there is such an attempt.
\<close>

theorem registering_again:
  assumes "calm_access env" and "peaceful (ac_connect env)" and "get_remote (sr_service_id req) m = Some r"
    and "parse_ip (sr_ip req) = Some ip" and "port_try_into (sr_port req) = Some p"
    and "port_try_into (sr_auth_port req) = Some a"
  shows "\<exists>res m'. register_service env describe own req m = (Return res, m') \<and>
    (if r_state r = Connected then m' = m \<and> res = Ok own
     else map_option whereabouts (get_remote (sr_service_id req) m') =
            Some (ip, p, a, sr_hostname req, sr_service_id req, r_service_static r, r_service_available r)
          \<and> (needs_reconnect (r_state r) \<or> res = Ok own))"
proof (cases "r_state r = Connected")
  case True
  then show ?thesis using assms(1,3) by (simp add: register_service_def Let_def)
next
  case False
  let ?uuid = "sr_service_id req"
  let ?r = "r\<lparr>r_ip := ip, r_port := p, r_auth_port := a, r_hostname := sr_hostname req,
               r_service_name := ?uuid\<rparr>"
  let ?m1 = "send_event (RemoteUpdated ?uuid) (put_remote ?uuid ?r m)"
  have update: "update_remote_panicking ?uuid (registration_update ip req) m = (Return (Ok ()), ?m1)"
    using assms(3,5,6) by (simp add: update_remote_panicking_def registration_update_fits get_remote_def)
  have recorded: "map_option whereabouts (get_remote ?uuid ?m1) =
      Some (ip, p, a, sr_hostname req, ?uuid, r_service_static r, r_service_available r)"
    by (simp add: get_remote_def whereabouts_def)
  obtain x m2 where re: "reconnect env 2 ?uuid
      (Status Internal ''Failed to connect to remote after registration update'')
      (\<lambda>e. Status Internal (''Failed to connect to remote after registration update: '' @ describe e))
      ?m1 = (x, m2)" by force
  have "map_option whereabouts (get_remote ?uuid m2) = map_option whereabouts (get_remote ?uuid ?m1)"
    by (rule reconnect_whereabouts [OF assms(1,2) re])
  then have "map_option whereabouts (get_remote ?uuid m2) =
      Some (ip, p, a, sr_hostname req, ?uuid, r_service_static r, r_service_available r)"
    using recorded by simp
  then show ?thesis
    using assms(1,3,4) False update recorded re
    by (cases x) (simp_all add: register_service_def Let_def)
qed

theorem registering_again_witness:
  "\<exists>res m'. register_service sample_access (\<lambda>e. []) (mg_registration sample_manager)
      \<lparr>sr_service_id = ''peer'', sr_ip = ipv4_text 7, sr_port = 50000, sr_hostname = ''new'',
       sr_api_version = 2, sr_auth_port = 50001, sr_ipv6 = []\<rparr> known_manager = (Return res, m') \<and>
    map_option whereabouts (get_remote ''peer'' m') =
      Some (V4 7, 50000, 50001, ''new'', ''peer'', False, False)"
proof -
  let ?req = "\<lparr>sr_service_id = ''peer'', sr_ip = ipv4_text 7, sr_port = 50000, sr_hostname = ''new'',
       sr_api_version = 2, sr_auth_port = 50001, sr_ipv6 = []\<rparr>"
  note sample_access_peaceful
  moreover have "get_remote (sr_service_id ?req) known_manager = Some sample_remote"
    using known_manager_facts(1) by (simp add: get_remote_def)
  moreover have "parse_ip (sr_ip ?req) = Some (V4 7)" by (simp add: parse_ipv4_text)
  moreover have "port_try_into (sr_port ?req) = Some 50000" "port_try_into (sr_auth_port ?req) = Some 50001"
    by (simp_all add: port_try_into_def)
  ultimately show ?thesis
    using registering_again [OF sample_access_calm, of ?req known_manager sample_remote "V4 7" 50000 50001
        "\<lambda>e. []" "mg_registration sample_manager"]
    by (auto simp: sample_remote_def remote_new_def)
qed

text \<open>
  The message carries ports of 32 bits. One that does not fit into 16 bits makes the handler
  panic: an unknown peer is not added, and a known one that is not connected is left with the new
  address but its old ports, without an event.
\<close>

theorem oversized_port_panics:
  assumes "calm_access env" and "parse_ip (sr_ip req) = Some ip" and "2 ^ 16 \<le> unat (sr_port req)"
    and "\<forall>r. get_remote (sr_service_id req) m = Some r \<longrightarrow> r_state r \<noteq> Connected"
  shows "register_service env describe own req m =
    (Panic, case get_remote (sr_service_id req) m of
              None \<Rightarrow> m
            | Some r \<Rightarrow> put_remote (sr_service_id req) (r\<lparr>r_ip := ip\<rparr>) m)"
proof -
  have "port_try_into (sr_port req) = None" using assms(3) by (simp add: port_try_into_def)
  then show ?thesis
    using assms(1,2,4)
    by (auto simp: register_service_def update_remote_panicking_def registration_update_def get_remote_def
        Let_def split: option.split)
qed

theorem oversized_port_witness:
  "register_service sample_access (\<lambda>e. []) (mg_registration sample_manager)
      \<lparr>sr_service_id = ''peer'', sr_ip = ipv4_text 7, sr_port = 65536, sr_hostname = ''new'',
       sr_api_version = 2, sr_auth_port = 50001, sr_ipv6 = []\<rparr> known_manager =
    (Panic, put_remote ''peer'' (sample_remote\<lparr>r_ip := V4 7\<rparr>) known_manager)"
  using oversized_port_panics [OF sample_access_calm, where m = known_manager
      and req = "\<lparr>sr_service_id = ''peer'', sr_ip = ipv4_text 7, sr_port = 65536, sr_hostname = ''new'',
        sr_api_version = 2, sr_auth_port = 50001, sr_ipv6 = []\<rparr>" and ip = "V4 7"]
    known_manager_facts(1)
  by (simp add: parse_ipv4_text get_remote_def sample_remote_def remote_new_def)

section \<open>Two tasks that add the same peer\<close>

text \<open>
  C30. Looking a peer up and adding it are separate accesses, so a peer that registers while another
  task registers it too is added twice. Then two worker loops run for it, of which only the second
  can be reached through the manager, and whatever was filed under the first entry in between (a
  transfer, say) is gone.
\<close>

theorem racing_registrations_leave_orphan:
  assumes "get_remote (sr_service_id req) m = None" and "parse_ip (sr_ip req) = Some ip"
    and "port_try_into (sr_port req) = Some p" and "port_try_into (sr_auth_port req) = Some a"
    and "calm_access env2" and "\<forall>k. k \<noteq> 1 \<longrightarrow> k \<noteq> 2 \<longrightarrow> ac_others env k = (\<lambda>m. m)"
    and "ac_others env 1 = (\<lambda>m. snd (register_service env2 describe2 own2 req m))"
    and "\<forall>m. mg_arena (ac_others env 2 m) = mg_arena m \<and> mg_workers (ac_others env 2 m) = mg_workers m"
  shows "\<exists>m'. register_service env describe own req m = (Return (Ok own), m') \<and>
    loop_flag (length (mg_arena m)) m' = Some True \<and>
    loop_flag (Suc (length (mg_arena m))) m' = Some True \<and>
    w_uuid (mg_arena m' ! length (mg_arena m)) = sr_service_id req \<and>
    get_worker (sr_service_id req) m' = Some (Suc (length (mg_arena m))) \<and>
    map_option r_transfers (get_remote (sr_service_id req) m') = Some []"
proof -
  let ?uuid = "sr_service_id req"
  let ?r = "remote_new ?uuid ip p a ?uuid (sr_hostname req)"
  obtain m1 where first: "add_remote (ac_token env2) ?r m = (length (mg_arena m), m1)"
    by (simp add: add_remote_def insert_worker_def Let_def)
  have uuid: "r_uuid ?r = ?uuid" "r_transfers ?r = []" by (simp_all add: remote_new_def)
  have other: "ac_others env 1 m = m1"
    using assms(1-5,7) first by (simp add: register_service_def Let_def calm_add_remote)
  have arena1: "mg_arena m1 = mg_arena m @ [(worker_new ?uuid (ac_token env2))\<lparr>w_loop := True\<rparr>]"
    using first uuid
    by (auto simp: add_remote_def insert_worker_def insert_remote_def announce_remote_def Let_def
        list_update_append)
  obtain i m2 where ins: "insert_worker (ac_token env) ?uuid m1 = (i, m2)" by force
  then have m2: "i = Suc (length (mg_arena m))" "mg_arena m2 = mg_arena m1 @ [worker_new ?uuid (ac_token env)]"
    "mg_workers m2 ?uuid = Some i"
    using arena1 by (auto simp: insert_worker_def Let_def)
  let ?m' = "announce_remote i ?uuid (insert_remote ?r (ac_others env 2 m2))"
  have "register_service env describe own req m = (Return (Ok own), ?m')"
    using assms(1-4,6) other ins uuid
    by (simp add: register_service_def Let_def add_remote_among_def)
  moreover have "mg_arena ?m' = mg_arena m @ [(worker_new ?uuid (ac_token env2))\<lparr>w_loop := True\<rparr>,
      (worker_new ?uuid (ac_token env))\<lparr>w_loop := True\<rparr>]"
    using m2 arena1 assms(8)
    by (simp add: announce_remote_def insert_remote_def nth_append list_update_append)
  moreover have "mg_workers ?m' ?uuid = Some i"
    using m2(3) assms(8) by (simp add: announce_remote_def insert_remote_def)
  moreover have "get_remote ?uuid ?m' = Some ?r"
    by (simp add: announce_remote_def insert_remote_def get_remote_def uuid)
  ultimately show ?thesis
    using m2(1) uuid by (simp add: loop_flag_def worker_new_def nth_append get_worker_def)
qed

definition sample_registration :: service_registration where
  "sample_registration =
     \<lparr>sr_service_id = ''peer'', sr_ip = ipv4_text 7, sr_port = 50000, sr_hostname = ''host'',
      sr_api_version = 2, sr_auth_port = 50001, sr_ipv6 = []\<rparr>"

definition racing_access :: access_env where
  "racing_access = sample_access\<lparr>ac_others := \<lambda>k m.
     if k = 1 then snd (register_service sample_access (\<lambda>e. []) sample_registration sample_registration m)
     else if k = 2 then snd (add_transfer ''peer'' sample_incoming m) else m\<rparr>"

lemma sample_registration_facts:
  "parse_ip (sr_ip sample_registration) = Some (V4 7)" "sr_service_id sample_registration = ''peer''"
  "port_try_into (sr_port sample_registration) = Some 50000"
  "port_try_into (sr_auth_port sample_registration) = Some 50001"
  by (simp_all add: sample_registration_def parse_ipv4_text port_try_into_def)

lemma sample_manager_empty:
  "get_remote u sample_manager = None" "mg_arena sample_manager = []"
  by (simp_all add: sample_manager_def manager_new_def sample_user_def get_remote_def)

theorem racing_registrations_witness:
  "\<exists>m'. register_service racing_access (\<lambda>e. []) (mg_registration sample_manager) sample_registration sample_manager
      = (Return (Ok (mg_registration sample_manager)), m') \<and>
    loop_flag 0 m' = Some True \<and> loop_flag 1 m' = Some True \<and> get_worker ''peer'' m' = Some 1 \<and>
    map_option r_transfers (get_remote ''peer'' m') = Some []"
proof -
  have frame: "\<forall>m. mg_arena (ac_others racing_access 2 m) = mg_arena m \<and>
      mg_workers (ac_others racing_access 2 m) = mg_workers m"
    by (simp add: racing_access_def add_transfer_def split: option.split)
  have others: "\<forall>k. k \<noteq> 1 \<longrightarrow> k \<noteq> 2 \<longrightarrow> ac_others racing_access k = (\<lambda>m. m)"
    "ac_others racing_access 1 =
      (\<lambda>m. snd (register_service sample_access (\<lambda>e. []) sample_registration sample_registration m))"
    by (simp_all add: racing_access_def)
  show ?thesis
    using racing_registrations_leave_orphan [OF _ sample_registration_facts(1,3,4) sample_access_calm
        others frame, of sample_manager "\<lambda>e. []" "mg_registration sample_manager"]
    by (auto simp: sample_manager_empty sample_registration_facts)
qed

section \<open>Connecting by hand\<close>

lemma split_last_colon_append:
  assumes "CHR '':'' \<notin> set port"
  shows "split_last_colon (host @ '':'' @ port) = Some (host, port)"
proof -
  have "dropWhile (\<lambda>c. c \<noteq> CHR '':'') (rev port @ CHR '':'' # rev host) = CHR '':'' # rev host"
    "takeWhile (\<lambda>c. c \<noteq> CHR '':'') (rev port @ CHR '':'' # rev host) = rev port"
    using assms by (subst dropWhile_append2 takeWhile_append2; auto)+
  then show ?thesis by (simp add: split_last_colon_def)
qed

lemma read_nothing:
  "read_number 10 3 False 256 s = None \<Longrightarrow> 0 < n \<Longrightarrow> read_octets n True s = None"
  "read_number 10 3 False 256 s = None \<Longrightarrow> read_number 16 4 True 65536 s = None \<Longrightarrow>
    read_groups n True s = ([], False, s)"
proof -
  show octets: "read_number 10 3 False 256 s = None \<Longrightarrow> 0 < n \<Longrightarrow> read_octets n True s = None" for n
    by (cases n) (simp_all add: read_separated_def)
  show "read_number 10 3 False 256 s = None \<Longrightarrow> read_number 16 4 True 65536 s = None \<Longrightarrow>
      read_groups n True s = ([], False, s)"
    using octets [of 4] by (cases n) (simp_all add: read_separated_def read_ipv4_def)
qed

lemma parse_ip_bracket: "parse_ip (CHR ''['' # s) = None"
proof -
  have "to_digit 10 CHR ''['' = None" "to_digit 16 CHR ''['' = None" by (simp_all add: to_digit_def)
  then have "read_number 10 3 False 256 (CHR ''['' # s) = None"
    "read_number 16 4 True 65536 (CHR ''['' # s) = None"
    by (simp_all add: read_number_def)
  then show ?thesis by (simp add: parse_ip_def read_ipv4_def read_ipv6_def read_nothing)
qed

text \<open>
  C36. Connecting by hand to a peer that is not known yet. With an IPv4 address the peer is recorded
  at that address as a static one (the ports of its reply are cut to 16 bits), and the call succeeds
  exactly when the connection does. With a bracketed address, the only form in which a URI can name
  an IPv6 host, the peer is asked to register us and the call then fails as an invalid URL.
\<close>

theorem manual_connection_to_new_peer:
  assumes "calm_access env" and "peaceful (ac_connect env)" and "get_remote (sr_service_id s) m = None"
    and "undisturbed (shared_of (ac_connect env)) (sr_service_id s) (length (mg_arena m))"
    and "keeps_client (shared_of (ac_connect env)) (length (mg_arena m))"
    and "CHR '':'' \<notin> set port" and "\<forall>u. reaches u"
  shows "(\<exists>res m'. manual_connection env reaches (Ok s) (ipv4_text a @ '':'' @ port) m = (Return res, m') \<and>
      map_option whereabouts (get_remote (sr_service_id s) m') =
        Some (V4 a, ucast (sr_port s), ucast (sr_auth_port s), sr_hostname s, sr_service_id s, True, False) \<and>
      (res = Ok () \<longleftrightarrow> connect_result (ac_connect env) = Ok ())) \<and>
    manual_connection env reaches (Ok s) ((CHR ''['' # v6) @ '':'' @ port) m = (Return (Err InvalidUrl), m)"
proof -
  let ?r = "(remote_new (sr_service_id s) (V4 a) (ucast (sr_port s)) (ucast (sr_auth_port s))
      (sr_service_id s) (sr_hostname s))\<lparr>r_service_static := True\<rparr>"
  have uuid: "r_uuid ?r = sr_service_id s" by (simp add: remote_new_def)
  obtain i m1 where add: "add_remote (ac_token env) ?r m = (i, m1)" by force
  note facts = add_remote_facts [OF add, unfolded uuid]
  obtain x m2 where c: "connect (ac_connect env) (sr_service_id s) i m1 = (x, m2)" by force
  have "ready (sr_service_id s) i m1" using facts by (simp add: ready_def shown_state_def)
  then have "x = connect_result (ac_connect env)"
    using connect_returns [OF assms(4,5)] facts(1) c by (metis fst_conv)
  moreover have "map_option whereabouts (get_remote (sr_service_id s) m2) = Some (whereabouts ?r)"
    using connect_whereabouts [OF assms(2), of "sr_service_id s" "sr_service_id s" i m1] c facts(2) by simp
  moreover have "manual_connection env reaches (Ok s) (ipv4_text a @ '':'' @ port) m =
      (Return (case x of Ok _ \<Rightarrow> Ok () | Err e \<Rightarrow> Err (FailedToConnect e)), m2)"
    unfolding manual_connection_def split_last_colon_append [OF assms(6)]
    using assms(1,3,7) add c by (cases x) (simp_all add: Let_def calm_add_remote parse_ipv4_text)
  moreover have "manual_connection env reaches (Ok s) ((CHR ''['' # v6) @ '':'' @ port) m = (Return (Err InvalidUrl), m)"
    unfolding manual_connection_def split_last_colon_append [OF assms(6)]
    using assms(1,3,7) by (simp add: parse_ip_bracket Let_def)
  moreover have "whereabouts ?r =
      (V4 a, ucast (sr_port s), ucast (sr_auth_port s), sr_hostname s, sr_service_id s, True, False)"
    by (simp add: whereabouts_def remote_new_def)
  moreover have "(case x of Ok _ \<Rightarrow> Ok () | Err e \<Rightarrow> Err (FailedToConnect e)) = Ok () \<longleftrightarrow> x = Ok ()"
    by (cases x) simp_all
  ultimately show ?thesis by auto
qed

theorem manual_connection_witness:
  "\<exists>m'. manual_connection sample_access (\<lambda>u. True) (Ok sample_registration)
      (ipv4_text 9 @ '':'' @ ''42001'') sample_manager = (Return (Ok ()), m') \<and>
    map_option whereabouts (get_remote ''peer'' m') =
      Some (V4 9, 50000, 50001, ''host'', ''peer'', True, False)"
proof -
  have env: "ac_connect sample_access = answering" by (simp add: sample_access_def)
  show ?thesis
    using manual_connection_to_new_peer [OF sample_access_calm sample_access_peaceful, where s = sample_registration
        and m = sample_manager and port = "''42001''" and reaches = "\<lambda>u. True" and a = 9]
      sample_undisturbed(2) answering_keeps_client answering_result
    by (auto simp: env sample_manager_empty sample_registration_def)
qed

end
