(* ===== verification/Warp_Authenticator.thy ===== *)
theory Warp_Authenticator
  imports Warp_Address Warp_Connection
begin

text \<open>
  \<open>src/server/authenticator.rs\<close> and the certificate request of \<open>src/grpc/registration.rs\<close>: the
  group code guards the exchange of certificates. SHA-256, XSalsa20Poly1305, base64 and the
  generation of keys and certificates are third-party code, the fields of \<open>crypto\<close>; what the
  exchange relies on is stated as hypotheses of the property.
\<close>

datatype authenticator_error =
    PrivateKeyError | PublicKeyError | DerError | AE_CertificateError | PemError

text \<open>
  \<open>cr_encrypt\<close> and \<open>cr_decrypt\<close> take the key and the nonce; \<open>cr_generate\<close> takes the subject, the
  validity (in seconds of the clock) and the octets of the alternative name.
\<close>

record crypto =
  cr_sha256 :: "bytes \<Rightarrow> bytes"
  cr_encrypt :: "bytes \<Rightarrow> bytes \<Rightarrow> bytes \<Rightarrow> bytes option"
  cr_decrypt :: "bytes \<Rightarrow> bytes \<Rightarrow> bytes \<Rightarrow> bytes option"
  cr_encode :: "bytes \<Rightarrow> string"
  cr_decode :: "string \<Rightarrow> bytes option"
  cr_generate :: "string \<Rightarrow> int \<times> int \<Rightarrow> bytes \<Rightarrow> (bytes \<times> bytes, authenticator_error) result"

record authenticator =
  au_group_code :: string
  au_cert_pem :: bytes
  au_private_key_pem :: bytes

definition as_bytes :: "string \<Rightarrow> bytes" where
  "as_bytes s = map of_char s"

definition derive_key :: "crypto \<Rightarrow> authenticator \<Rightarrow> bytes" where
  "derive_key cr au = cr_sha256 cr (as_bytes (au_group_code au))"

text \<open>The nonce comes from the random generator, hence an argument.\<close>

definition box_cert :: "crypto \<Rightarrow> bytes \<Rightarrow> authenticator \<Rightarrow> (bytes, unit) result" where
  "box_cert cr nonce au =
     (case cr_encrypt cr (derive_key cr au) nonce (au_cert_pem au) of
        None \<Rightarrow> Err ()
      | Some ciphertext \<Rightarrow> Ok (nonce @ ciphertext))"

definition unbox_cert :: "crypto \<Rightarrow> authenticator \<Rightarrow> bytes \<Rightarrow> (bytes, cert_unbox_error) result" where
  "unbox_cert cr au boxed =
     (if length boxed < 24 then Err BoxTooShort
      else case cr_decrypt cr (derive_key cr au) (take 24 boxed) (drop 24 boxed) of
             None \<Rightarrow> Err DecryptionFailed
           | Some cert \<Rightarrow> Ok cert)"

text \<open>
  The subject's common name: every byte that is not an ASCII letter or digit is dropped (so
  \<open>trim\<close> finds nothing), and an empty name is replaced.
\<close>

definition common_name :: "string \<Rightarrow> string" where
  "common_name hostname =
     (let sanitized = filter is_ascii_alphanumeric hostname
      in if sanitized = [] then ''warpinator'' else sanitized)"

definition ip_octets :: "ip_addr \<Rightarrow> bytes" where
  "ip_octets ip =
     (case ip of
        V4 a \<Rightarrow> map (\<lambda>i. of_nat (octet a i)) (rev [0..<4])
      | V6 a \<Rightarrow> map (\<lambda>i. of_nat (unat a div 256 ^ i mod 256)) (rev [0..<16]))"

text \<open>
  What the certificate crates make of their inputs, each possibly failing: the key pair and what it
  gives, names, times and octet strings in DER, the builder, the signature, and the PEM texts.
  Everything that goes into the certificate is a field of the request.
\<close>

record certificate_request =
  rq_issuer :: bytes
  rq_subject :: bytes
  rq_key_agreement :: bool
  rq_key_encipherment :: bool
  rq_serial :: u64
  rq_not_before :: bytes
  rq_not_after :: bytes
  rq_public_key :: bytes
  rq_alternative_ip :: "bytes option"

record certificate_tools =
  ct_private_key :: "bytes option"
  ct_name :: "string \<Rightarrow> bytes option"
  ct_time :: "int \<Rightarrow> bytes option"
  ct_public_key :: "bytes \<Rightarrow> bytes option"
  ct_builder :: "certificate_request \<Rightarrow> bool"
  ct_octets :: "bytes \<Rightarrow> bytes option"
  ct_extends :: "certificate_request \<Rightarrow> bool"
  ct_sign :: "certificate_request \<Rightarrow> bytes \<Rightarrow> bytes option"
  ct_pem :: "bytes \<Rightarrow> bytes option"
  ct_pkcs8_pem :: "bytes \<Rightarrow> bytes option"

text \<open>\<open>?\<close> on a call of these crates.\<close>

definition or_error :: "'a option \<Rightarrow> authenticator_error \<Rightarrow> ('a \<Rightarrow> ('b, authenticator_error) result)
    \<Rightarrow> ('b, authenticator_error) result" where
  "or_error x e k = (case x of None \<Rightarrow> Err e | Some a \<Rightarrow> k a)"

definition make_certificate ::
  "certificate_tools \<Rightarrow> u64 \<Rightarrow> string \<Rightarrow> int \<times> int \<Rightarrow> bytes \<Rightarrow> (bytes \<times> bytes, authenticator_error) result" where
  "make_certificate ct serial subject_text validity ip =
     or_error (ct_private_key ct) PrivateKeyError (\<lambda>private_key.
     or_error (ct_name ct subject_text) DerError (\<lambda>subject.
     or_error (ct_time ct (fst validity)) DerError (\<lambda>not_before.
     or_error (ct_time ct (snd validity)) DerError (\<lambda>not_after.
     or_error (ct_public_key ct private_key) PublicKeyError (\<lambda>spki.
       let request = \<lparr>rq_issuer = subject, rq_subject = subject, rq_key_agreement = False,
             rq_key_encipherment = True, rq_serial = serial, rq_not_before = not_before,
             rq_not_after = not_after, rq_public_key = spki, rq_alternative_ip = None\<rparr>
       in if \<not> ct_builder ct request then Err AE_CertificateError
          else or_error (ct_octets ct ip) DerError (\<lambda>octets.
            let request = request\<lparr>rq_alternative_ip := Some octets\<rparr>
            in if \<not> ct_extends ct request then Err AE_CertificateError
               else or_error (ct_sign ct request private_key) AE_CertificateError (\<lambda>cert.
                    or_error (ct_pem ct cert) DerError (\<lambda>cert_pem.
                    or_error (ct_pkcs8_pem ct private_key) PemError (\<lambda>private_key_pem.
                    Ok (cert_pem, private_key_pem))))))))))"

definition generate_cert ::
  "crypto \<Rightarrow> int \<Rightarrow> string \<Rightarrow> ip_addr \<Rightarrow> (bytes \<times> bytes, authenticator_error) result" where
  "generate_cert cr now hostname ip =
     cr_generate cr (''CN='' @ common_name hostname)
       (now - 60 * 60 * 24, now + 60 * 60 * 24 * 30) (ip_octets ip)"

definition authenticator_new ::
  "crypto \<Rightarrow> int \<Rightarrow> string \<Rightarrow> string \<Rightarrow> ip_addr \<Rightarrow> (authenticator, authenticator_error) result" where
  "authenticator_new cr now group_code hostname ip =
     (case generate_cert cr now hostname ip of
        Err e \<Rightarrow> Err e
      | Ok (cert, key) \<Rightarrow>
          Ok \<lparr>au_group_code = group_code, au_cert_pem = cert, au_private_key_pem = key\<rparr>)"

definition cert_pem :: "authenticator \<Rightarrow> bytes" where "cert_pem au = au_cert_pem au"

definition private_key_pem :: "authenticator \<Rightarrow> bytes" where "private_key_pem au = au_private_key_pem au"

text \<open>
  With the certificate crates in place of \<open>cr_generate\<close>: the certificate of a server is issued by
  itself, for its host name in letters and digits, valid from a day before to thirty days after, for
  the address it binds, and carries the public half of the very key that the server keeps.
\<close>

lemma or_error_Ok: "or_error x e k = Ok b \<longleftrightarrow> (\<exists>a. x = Some a \<and> k a = Ok b)"
  by (cases x) (simp_all add: or_error_def)

lemma certificate_of_server:
  assumes "cr_generate cr = make_certificate ct serial" and "authenticator_new cr now code hostname ip = Ok au"
  shows "\<exists>key subject nb na spki octets cert. ct_private_key ct = Some key \<and>
    ct_name ct (''CN='' @ common_name hostname) = Some subject \<and>
    ct_time ct (now - 86400) = Some nb \<and> ct_time ct (now + 2592000) = Some na \<and>
    ct_public_key ct key = Some spki \<and> ct_octets ct (ip_octets ip) = Some octets \<and>
    ct_sign ct \<lparr>rq_issuer = subject, rq_subject = subject, rq_key_agreement = False,
        rq_key_encipherment = True, rq_serial = serial, rq_not_before = nb, rq_not_after = na,
        rq_public_key = spki, rq_alternative_ip = Some octets\<rparr> key = Some cert \<and>
    ct_pem ct cert = Some (cert_pem au) \<and> ct_pkcs8_pem ct key = Some (private_key_pem au)"
proof -
  obtain c k where g: "make_certificate ct serial (''CN='' @ common_name hostname) (now - 86400, now + 2592000) (ip_octets ip) = Ok (c, k)"
    "cert_pem au = c" "private_key_pem au = k"
    using assms by (auto simp: authenticator_new_def generate_cert_def cert_pem_def private_key_pem_def split: result.splits)
  from g(1) show ?thesis
    unfolding make_certificate_def or_error_Ok Let_def g(2,3) by (auto simp: or_error_Ok split: if_splits)
qed

lemma common_name_plain: "common_name hostname \<noteq> [] \<and> (\<forall>c \<in> set (common_name hostname). is_ascii_alphanumeric c)"
  by (auto simp: common_name_def Let_def is_ascii_alphanumeric_def)

lemma ip_octets_length: "length (ip_octets ip) = (case ip of V4 a \<Rightarrow> 4 | V6 a \<Rightarrow> 16)"
  by (simp add: ip_octets_def split: ip_addr.split)

text \<open>\<open>request_certificate\<close>: the reply holds the boxed certificate in base64.\<close>

definition request_certificate :: "crypto \<Rightarrow> bytes \<Rightarrow> authenticator \<Rightarrow> (string, status) result" where
  "request_certificate cr nonce au =
     (case box_cert cr nonce au of
        Err e \<Rightarrow> Err (Status Internal ''Failed to box certificate'')
      | Ok boxed \<Rightarrow> Ok (cr_encode cr boxed))"

section \<open>What the exchange relies on\<close>

text \<open>
  The secret box opens what it has sealed, under the key and nonce of sealing, and rejects it under
  every other key; keys have 32 bytes. Base64 decodes what it has encoded, and its alphabet has no
  line breaks.
\<close>

definition seals :: "crypto \<Rightarrow> bool" where
  "seals cr \<longleftrightarrow>
     (\<forall>b. length (cr_sha256 cr b) = 32) \<and>
     (\<forall>k n p c. length k = 32 \<longrightarrow> cr_encrypt cr k n p = Some c \<longrightarrow> cr_decrypt cr k n c = Some p) \<and>
     (\<forall>k k' n p c. length k = 32 \<longrightarrow> length k' = 32 \<longrightarrow> k \<noteq> k' \<longrightarrow>
        cr_encrypt cr k n p = Some c \<longrightarrow> cr_decrypt cr k' n c = None)"

definition armours :: "crypto \<Rightarrow> bool" where
  "armours cr \<longleftrightarrow>
     (\<forall>b. cr_decode cr (cr_encode cr b) = Some b \<and> strip_newlines (cr_encode cr b) = cr_encode cr b)"

lemma unbox_boxed:
  assumes "seals cr" and "length nonce = 24" and "box_cert cr nonce au = Ok boxed"
  shows "unbox_cert cr au' boxed =
    (if derive_key cr au = derive_key cr au' then Ok (au_cert_pem au) else Err DecryptionFailed)"
proof -
  obtain c where c: "cr_encrypt cr (derive_key cr au) nonce (au_cert_pem au) = Some c"
    "boxed = nonce @ c"
    using assms(3) by (auto simp: box_cert_def split: option.splits)
  have key: "length (derive_key cr x) = 32" for x using assms(1) by (simp add: seals_def derive_key_def)
  have "cr_decrypt cr (derive_key cr au) nonce c = Some (au_cert_pem au)"
    using assms(1) key c(1) by (simp add: seals_def)
  moreover have "cr_decrypt cr (derive_key cr au') nonce c = None"
    if "derive_key cr au \<noteq> derive_key cr au'"
    using assms(1) key [of au] key [of au'] c(1) that unfolding seals_def by blast
  ultimately have "cr_decrypt cr (derive_key cr au') nonce c =
      (if derive_key cr au = derive_key cr au' then Some (au_cert_pem au) else None)"
    by auto
  then show ?thesis using c(2) assms(2) by (auto simp: unbox_cert_def)
qed

text \<open>
  C15. The group code decides. A worker asks a peer for its certificate; whatever line breaks were
  put into the reply on the way, it obtains exactly the peer's certificate when both use the same
  group code, and with different codes (whose digests differ) its attempt to connect ends in the
  error that stands for a group-code mismatch, not in any other.
\<close>

theorem group_code_decides:
  assumes "seals cr" and "armours cr" and "length nonce = 24"
    and "request_certificate cr nonce peer = Ok reply"
    and "strip_newlines locked = strip_newlines reply" and "ce_cert env = Ok locked"
    and "ce_uri_ok env" and "ce_reg_connected env"
    and "ce_decode env = cr_decode cr" and "ce_unbox env = unbox_cert cr me"
    and "au_group_code peer \<noteq> au_group_code me \<longrightarrow> derive_key cr peer \<noteq> derive_key cr me"
  shows "if au_group_code peer = au_group_code me
    then unboxed_certificate env = Ok (au_cert_pem peer)
    else connect_result env = Err (CertificateError WrongGroupCode) \<and>
      connect_states (connect_result env) = [Connecting, RS_Error GroupCodeMismatch]"
proof -
  obtain boxed where b: "box_cert cr nonce peer = Ok boxed" "reply = cr_encode cr boxed"
    using assms(4) by (auto simp: request_certificate_def split: result.splits)
  have "cr_decode cr (strip_newlines locked) = Some boxed"
    using assms(2,5) b(2) by (simp add: armours_def)
  then have u: "unboxed_certificate env =
      (if derive_key cr peer = derive_key cr me then Ok (au_cert_pem peer) else Err WrongGroupCode)"
    using assms(6-10) unbox_boxed [OF assms(1,3) b(1), of me]
    by (simp add: unboxed_certificate_def unbox_error_of_def)
  show ?thesis
  proof (cases "au_group_code peer = au_group_code me")
    case True
    then have "derive_key cr peer = derive_key cr me" by (simp add: derive_key_def)
    then show ?thesis using u True by simp
  next
    case False
    then show ?thesis using u assms(11) by (simp add: connect_result_def)
  qed
qed

text \<open>A box that only XORs nothing but remembers its key, and an armour of two letters per byte.\<close>

definition hex_letter :: "nat \<Rightarrow> char" where
  "hex_letter d = char_of (65 + d)"

definition hex_value :: "char \<Rightarrow> nat" where
  "hex_value c = of_char c - 65"

fun hex_decode :: "string \<Rightarrow> bytes option" where
  "hex_decode [] = Some []"
| "hex_decode (a # b # s) = map_option (\<lambda>r. of_nat (16 * hex_value a + hex_value b) # r) (hex_decode s)"
| "hex_decode [a] = None"

definition hex_encode :: "bytes \<Rightarrow> string" where
  "hex_encode bs = concat (map (\<lambda>b. [hex_letter (unat b div 16), hex_letter (unat b mod 16)]) bs)"

definition sample_crypto :: crypto where
  "sample_crypto =
     \<lparr>cr_sha256 = \<lambda>b. take 32 (b @ replicate 32 0),
      cr_encrypt = \<lambda>k n p. Some (k @ p),
      cr_decrypt = \<lambda>k n c. if take 32 c = k then Some (drop 32 c) else None,
      cr_encode = hex_encode, cr_decode = hex_decode,
      cr_generate = \<lambda>s v o'. Ok ([1, 2], [3])\<rparr>"

lemma hex_digit: "d < 16 \<Longrightarrow> hex_value (hex_letter d) = d"
  by (simp add: hex_value_def hex_letter_def)

lemma unat_div_16: "unat (b :: u8) div 16 < 16" and unat_mod_16: "unat b mod 16 < 16"
  using unsigned_less [of b, where ?'a = nat] by (simp_all add: less_mult_imp_div_less)

lemma hex_byte:
  "16 * of_nat (hex_value (hex_letter (unat b div 16))) + of_nat (hex_value (hex_letter (unat b mod 16))) =
    (b :: u8)"
proof -
  have digits: "hex_value (hex_letter (unat b div 16)) = unat b div 16"
    "hex_value (hex_letter (unat b mod 16)) = unat b mod 16"
    by (simp_all add: hex_digit unat_div_16)
  have "(16 :: u8) * of_nat (unat b div 16) + of_nat (unat b mod 16) =
      of_nat (16 * (unat b div 16) + unat b mod 16)"
    by (simp only: of_nat_add of_nat_mult of_nat_numeral)
  also have "\<dots> = b" by simp
  finally show ?thesis unfolding digits .
qed

lemma sample_armours: "armours sample_crypto"
proof -
  have "hex_decode (hex_encode b) = Some b" for b
    by (induction b) (simp_all add: hex_encode_def hex_byte)
  moreover have "hex_letter d \<noteq> CHR 0x0A \<and> hex_letter d \<noteq> CHR 0x0D" if "d < 16" for d
  proof -
    have "of_char (hex_letter d) = 65 + d" using that by (simp add: hex_letter_def)
    then show ?thesis by (auto simp: dest: arg_cong [where f = "of_char :: char \<Rightarrow> nat"])
  qed
  then have "strip_newlines (hex_encode b) = hex_encode b" for b
    by (induction b) (simp_all add: hex_encode_def strip_newlines_def unat_mod_16 unat_div_16)
  ultimately show ?thesis by (simp add: armours_def sample_crypto_def)
qed

lemma sample_seals: "seals sample_crypto"
  by (auto simp: seals_def sample_crypto_def)

definition sample_peer :: "string \<Rightarrow> authenticator" where
  "sample_peer code = \<lparr>au_group_code = code, au_cert_pem = [7, 8], au_private_key_pem = [9]\<rparr>"

definition exchanging :: "string \<Rightarrow> string \<Rightarrow> connect_env" where
  "exchanging mine locked =
     answering\<lparr>ce_cert := Ok locked, ce_decode := hex_decode,
               ce_unbox := unbox_cert sample_crypto (sample_peer mine)\<rparr>"

lemma sample_request:
  "\<exists>reply. request_certificate sample_crypto (replicate 24 5) (sample_peer code) = Ok reply"
  by (simp add: request_certificate_def box_cert_def sample_crypto_def)

theorem group_code_witness:
  "\<exists>reply. request_certificate sample_crypto (replicate 24 5) (sample_peer ''a'') = Ok reply \<and>
    unboxed_certificate (exchanging ''a'' reply) = Ok [7, 8] \<and>
    connect_result (exchanging ''b'' reply) = Err (CertificateError WrongGroupCode)"
proof -
  obtain reply where r: "request_certificate sample_crypto (replicate 24 5) (sample_peer ''a'') = Ok reply"
    using sample_request by blast
  note decides = group_code_decides [OF sample_seals sample_armours _ r refl]
  have "unboxed_certificate (exchanging ''a'' reply) = Ok [7, 8]"
    using decides [of "exchanging ''a'' reply" "sample_peer ''a''"]
    by (simp add: exchanging_def answering_def sample_peer_def sample_crypto_def)
  moreover have "connect_result (exchanging ''b'' reply) = Err (CertificateError WrongGroupCode)"
    using decides [of "exchanging ''b'' reply" "sample_peer ''b''"]
    by (simp add: exchanging_def answering_def sample_peer_def sample_crypto_def derive_key_def as_bytes_def)
  ultimately show ?thesis using r by blast
qed

end
