(* ===== verification/Warp_Server.thy ===== *)
theory Warp_Server
  imports Warp_Authenticator
begin

text \<open>
  \<open>src/server/mod.rs\<close>: building a server and serving. What the mDNS daemon and the two gRPC servers
  answer are arguments; what \<open>serve_with_shutdown\<close> does is the list of actions it returns.
\<close>

section \<open>Building\<close>

datatype build_error =
    MissingServiceName
  | BE_MissingBindAddress
  | BE_Authenticator authenticator_error
  | RemoteManagerInit
  | MdnsDaemon string

record server_builder =
  sb_user_config :: "user_config option"
  sb_protocol_config :: "protocol_config option"
  sb_service_name :: "string option"

definition server_builder_new :: server_builder where
  "server_builder_new = \<lparr>sb_user_config = None, sb_protocol_config = None, sb_service_name = None\<rparr>"

datatype server_setter =
  SetUserConfig user_config | SetProtocolConfig protocol_config | SetServiceName string

fun server_set :: "server_setter \<Rightarrow> server_builder \<Rightarrow> server_builder" where
  "server_set (SetUserConfig c) b = b\<lparr>sb_user_config := Some c\<rparr>"
| "server_set (SetProtocolConfig c) b = b\<lparr>sb_protocol_config := Some c\<rparr>"
| "server_set (SetServiceName s) b = b\<lparr>sb_service_name := Some s\<rparr>"

record server =
  sv_user_config :: user_config
  sv_protocol_config :: protocol_config
  sv_service_name :: string
  sv_authenticator :: authenticator
  sv_remotes :: manager

definition server_build ::
  "crypto \<Rightarrow> int \<Rightarrow> (unit, string) result \<Rightarrow> server_builder \<Rightarrow> (server, build_error) result" where
  "server_build cr now daemon b =
     (case sb_service_name b of
        None \<Rightarrow> Err MissingServiceName
      | Some service_name \<Rightarrow>
         (let uc = (case sb_user_config b of Some c \<Rightarrow> c | None \<Rightarrow> user_config_default);
              pc = (case sb_protocol_config b of Some c \<Rightarrow> c | None \<Rightarrow> protocol_config_default)
          in case uc_bind_addr_v4 uc of
               None \<Rightarrow> Err BE_MissingBindAddress
             | Some a \<Rightarrow>
                (case authenticator_new cr now (uc_group_code uc) (uc_hostname uc) (V4 a) of
                   Err e \<Rightarrow> Err (BE_Authenticator e)
                 | Ok au \<Rightarrow>
                    (case manager_new pc uc service_name of
                       None \<Rightarrow> Err RemoteManagerInit
                     | Some m \<Rightarrow>
                        (case daemon of
                           Err s \<Rightarrow> Err (MdnsDaemon s)
                         | Ok _ \<Rightarrow>
                             Ok \<lparr>sv_user_config = uc, sv_protocol_config = pc,
                                 sv_service_name = service_name, sv_authenticator = au,
                                 sv_remotes = m\<rparr>)))))"

section \<open>Addresses in text\<close>

text \<open>\<open>Ipv6Addr::to_string\<close>: the longest run of two or more zero groups (the first of them) is \<open>::\<close>.\<close>

definition ipv6_groups :: "128 word \<Rightarrow> nat list" where
  "ipv6_groups a = map (\<lambda>i. unat a div 65536 ^ i mod 65536) (rev [0..<8])"

definition hex_char :: "nat \<Rightarrow> char" where
  "hex_char d = (if d < 10 then char_of (48 + d) else char_of (87 + d))"

fun hex_text :: "nat \<Rightarrow> string" where
  "hex_text n = (if n < 16 then [hex_char n] else hex_text (n div 16) @ [hex_char (n mod 16)])"

declare hex_text.simps [simp del]

fun groups_text :: "nat list \<Rightarrow> string" where
  "groups_text [] = []"
| "groups_text [g] = hex_text g"
| "groups_text (g # gs) = hex_text g @ '':'' @ groups_text gs"

text \<open>Start and length of the longest run so far, and of the current one.\<close>

fun zero_run :: "nat \<Rightarrow> nat \<times> nat \<Rightarrow> nat \<times> nat \<Rightarrow> nat list \<Rightarrow> nat \<times> nat" where
  "zero_run i longest current [] = longest"
| "zero_run i longest current (g # gs) =
     (if g = 0
      then (let cur = (if snd current = 0 then (i, 1) else (fst current, snd current + 1))
            in zero_run (i + 1) (if snd longest < snd cur then cur else longest) cur gs)
      else zero_run (i + 1) longest (0, 0) gs)"

definition ipv6_text :: "128 word \<Rightarrow> string" where
  "ipv6_text a =
     (let gs = ipv6_groups a
      in if take 6 gs = [0, 0, 0, 0, 0, 65535] then ''::ffff:'' @ ipv4_text (ucast a)
         else case zero_run 0 (0, 0) (0, 0) gs of
           (start, len) \<Rightarrow>
             if 1 < len then groups_text (take start gs) @ ''::'' @ groups_text (drop (start + len) gs)
             else groups_text gs)"

section \<open>Serving\<close>

definition service_domain :: string where "service_domain = ''_warpinator._tcp.local.''"

definition registration_message :: "server \<Rightarrow> service_registration" where
  "registration_message sv =
     (let uc = sv_user_config sv
      in \<lparr>sr_service_id = sv_service_name sv,
          sr_ip = (case uc_bind_addr_v4 uc of Some a \<Rightarrow> ipv4_text a | None \<Rightarrow> []),
          sr_port = ucast (uc_port uc), sr_hostname = uc_hostname uc,
          sr_api_version = ucast service_api_version, sr_auth_port = ucast (uc_reg_port uc),
          sr_ipv6 = (case uc_bind_addr_v6 uc of Some a \<Rightarrow> ipv6_text a | None \<Rightarrow> [])\<rparr>)"

text \<open>The arguments of \<open>ServiceInfo::new\<close>.\<close>

record service_info =
  si_type :: string
  si_name :: string
  si_host :: string
  si_ip :: ip_addr
  si_port :: u16
  si_properties :: "(string \<times> string) list"

definition service_info_of :: "server \<Rightarrow> service_info option" where
  "service_info_of sv =
     (let uc = sv_user_config sv
      in map_option (\<lambda>a.
           \<lparr>si_type = service_domain, si_name = sv_service_name sv,
            si_host = uc_hostname uc @ ''.local.'', si_ip = V4 a, si_port = uc_port uc,
            si_properties =
              [(''type'', ''real''), (''hostname'', uc_hostname uc),
               (''api-version'', nat_to_string (unat service_api_version)),
               (''auth-port'', nat_to_string (unat (uc_reg_port uc)))]\<rparr>)
         (uc_bind_addr_v4 uc))"

datatype serve_error =
    SE_MissingBindAddress
  | RegistrationServer string
  | WarpServerFailed string
  | MdnsServiceInfo string
  | ServiceThread

datatype server_action =
    SpawnRegistration service_registration
  | SpawnWarp
  | Unregister service_info
  | Register service_info
  | SpawnDiscovery
  | CancelRoot
  | ShutdownMdns

text \<open>\<open>valid\<close> and \<open>register\<close> are the answers of \<open>ServiceInfo::new\<close> and of the daemon's \<open>register\<close>.\<close>

definition announce_mdns ::
  "(unit, string) result \<Rightarrow> (unit, string) result \<Rightarrow> server \<Rightarrow> (unit, serve_error) result \<times> server_action list" where
  "announce_mdns valid register sv =
     (case service_info_of sv of
        None \<Rightarrow> (Err SE_MissingBindAddress, [])
      | Some info \<Rightarrow>
         (case valid of
            Err s \<Rightarrow> (Err (MdnsServiceInfo s), [])
          | Ok _ \<Rightarrow>
             (case register of
                Err s \<Rightarrow> (Err (MdnsServiceInfo s), [Unregister info])
              | Ok _ \<Rightarrow> (Ok (), [Unregister info, Register info, SpawnDiscovery]))))"

text \<open>Which of the three futures ends first; a task's end is its result, or \<open>None\<close> if it panicked.\<close>

datatype serve_end =
    ShutdownSignal bool  \<comment> \<open>whether the daemon's first \<open>shutdown\<close> says to try again\<close>
  | RegistrationEnded "(unit, string) result option"
  | WarpEnded "(unit, string) result option"

definition task_result ::
  "(string \<Rightarrow> serve_error) \<Rightarrow> (unit, string) result option \<Rightarrow> (unit, serve_error) result" where
  "task_result failed r =
     (case r of None \<Rightarrow> Err ServiceThread | Some (Ok _) \<Rightarrow> Ok () | Some (Err s) \<Rightarrow> Err (failed s))"

definition shutdown_mdns :: "bool \<Rightarrow> server_action list" where
  "shutdown_mdns again = (if again then [ShutdownMdns, ShutdownMdns] else [ShutdownMdns])"

definition serve_with_shutdown ::
  "(unit, string) result \<Rightarrow> (unit, string) result \<Rightarrow> serve_end \<Rightarrow> server
    \<Rightarrow> (unit, serve_error) result \<times> server_action list" where
  "serve_with_shutdown valid register ends sv =
     (let spawned = [SpawnRegistration (registration_message sv), SpawnWarp]
      in case announce_mdns valid register sv of
           (Err e, acts) \<Rightarrow> (Err e, spawned @ acts)
         | (Ok _, acts) \<Rightarrow>
            (case ends of
               ShutdownSignal again \<Rightarrow> (Ok (), spawned @ acts @ [CancelRoot] @ shutdown_mdns again)
             | RegistrationEnded r \<Rightarrow> (task_result RegistrationServer r, spawned @ acts @ [CancelRoot])
             | WarpEnded r \<Rightarrow> (task_result WarpServerFailed r, spawned @ acts @ [CancelRoot])))"

section \<open>Properties\<close>

text \<open>
  A server that was built is consistent: it has a service name and an address, so no \<open>unwrap\<close> of
  serving fails and announcing cannot fail for want of one; its manager satisfies the invariant and
  is empty; and the registration message it serves says what its manager's does, but for IPv6.
\<close>

lemma built_server_consistent:
  assumes "server_build cr now daemon b = Ok sv"
  shows "sb_service_name b = Some (sv_service_name sv) \<and>
    (\<exists>a. uc_bind_addr_v4 (sv_user_config sv) = Some a) \<and> service_info_of sv \<noteq> None \<and>
    mgr_inv (sv_remotes sv) \<and> dom (mg_remotes (sv_remotes sv)) = {} \<and>
    (registration_message sv)\<lparr>sr_ipv6 := []\<rparr> = mg_registration (sv_remotes sv)"
proof -
  obtain name where name: "sb_service_name b = Some name"
    using assms by (auto simp: server_build_def split: option.splits)
  obtain a m where sv: "uc_bind_addr_v4 (sv_user_config sv) = Some a"
    "manager_new (sv_protocol_config sv) (sv_user_config sv) name = Some m" "sv_remotes sv = m"
    "sv_service_name sv = name"
    using assms name by (auto simp: server_build_def Let_def split: option.splits result.splits)
  have "mgr_inv m" using mgr_inv_new [OF sv(2)] .
  moreover have "mg_remotes m = Map.empty"
    "mg_registration m = (registration_message sv)\<lparr>sr_ipv6 := []\<rparr>"
    using sv by (auto simp: manager_new_def registration_message_def Let_def)
  ultimately show ?thesis using name sv by (simp add: service_info_of_def Let_def)
qed

definition sample_builder :: server_builder where
  "sample_builder = server_set (SetUserConfig sample_user) (server_set (SetServiceName ''me'') server_builder_new)"

lemma sample_build: "\<exists>sv. server_build sample_crypto 1000 (Ok ()) sample_builder = Ok sv"
  by (simp add: server_build_def sample_builder_def server_builder_new_def sample_user_def
      authenticator_new_def generate_cert_def sample_crypto_def manager_new_def)

lemma built_server_witness:
  "\<exists>sv. server_build sample_crypto 1000 (Ok ()) sample_builder = Ok sv \<and> sv_service_name sv = ''me'' \<and>
    (registration_message sv)\<lparr>sr_ipv6 := []\<rparr> = mg_registration (sv_remotes sv)"
proof -
  obtain sv where sv: "server_build sample_crypto 1000 (Ok ()) sample_builder = Ok sv"
    using sample_build by blast
  show ?thesis
    using built_server_consistent [OF sv] sv by (auto simp: sample_builder_def)
qed

text \<open>
  How serving ends. Both gRPC servers are spawned before the announcement. If the announcement
  fails, the call returns that error but nothing cancels the root token, so both servers keep
  running without an owner; after any other end it is cancelled. The mDNS service is only withdrawn
  after a shutdown signal: when a server ends by itself it stays announced.
\<close>

theorem serving_ends:
  assumes "uc_bind_addr_v4 (sv_user_config sv) = Some a"
    and "serve_with_shutdown valid register ends sv = (res, acts)"
  shows "{SpawnRegistration (registration_message sv), SpawnWarp} \<subseteq> set acts \<and>
    (CancelRoot \<in> set acts \<longleftrightarrow> valid = Ok () \<and> register = Ok ()) \<and>
    ((\<exists>s. res = Err (MdnsServiceInfo s)) \<longleftrightarrow> CancelRoot \<notin> set acts) \<and>
    (ShutdownMdns \<in> set acts \<longleftrightarrow> CancelRoot \<in> set acts \<and> (\<exists>again. ends = ShutdownSignal again))"
proof -
  obtain info where info: "service_info_of sv = Some info"
    using assms(1) by (simp add: service_info_of_def Let_def)
  have task: "task_result f r \<noteq> Err (MdnsServiceInfo s)" if "f = RegistrationServer \<or> f = WarpServerFailed"
    for f r s
    using that by (auto simp: task_result_def split: option.splits result.splits)
  show ?thesis
    using assms(2) info task
    by (cases valid; cases register; cases ends)
      (auto simp: serve_with_shutdown_def announce_mdns_def shutdown_mdns_def Let_def)
qed

theorem serving_ends_witness:
  "\<exists>sv acts1 acts2. server_build sample_crypto 1000 (Ok ()) sample_builder = Ok sv \<and>
    serve_with_shutdown (Ok ()) (Err ''no network'') (ShutdownSignal False) sv
      = (Err (MdnsServiceInfo ''no network''), acts1) \<and> CancelRoot \<notin> set acts1 \<and> SpawnWarp \<in> set acts1 \<and>
    serve_with_shutdown (Ok ()) (Ok ()) (WarpEnded None) sv = (Err ServiceThread, acts2) \<and>
    CancelRoot \<in> set acts2 \<and> ShutdownMdns \<notin> set acts2"
proof -
  obtain sv where sv: "server_build sample_crypto 1000 (Ok ()) sample_builder = Ok sv"
    using sample_build by blast
  then obtain a where a: "uc_bind_addr_v4 (sv_user_config sv) = Some a"
    by (auto simp: server_build_def Let_def split: option.splits result.splits)
  obtain acts1 where 1: "serve_with_shutdown (Ok ()) (Err ''no network'') (ShutdownSignal False) sv
      = (Err (MdnsServiceInfo ''no network''), acts1)"
    using a by (simp add: serve_with_shutdown_def announce_mdns_def service_info_of_def Let_def)
  obtain acts2 where 2: "serve_with_shutdown (Ok ()) (Ok ()) (WarpEnded None) sv = (Err ServiceThread, acts2)"
    using a by (simp add: serve_with_shutdown_def announce_mdns_def service_info_of_def task_result_def Let_def)
  show ?thesis using serving_ends [OF a 1] serving_ends [OF a 2] sv 1 2 by auto
qed

end
