(* ===== verification/Warp_Discovery.thy ===== *)
theory Warp_Discovery
  imports Warp_Registered Warp_Server
begin

text \<open>
  \<open>src/server/discovery.rs\<close>: the services that the mDNS daemon resolves and removes. A resolved
  service is a value of the \<open>mdns_sd\<close> crate, seen through the calls the code makes: its full name,
  domain, addresses (a set, in the order of its iterator), port, and the text of a property.
\<close>

datatype discovery_error =
    NoValidIpAddress
  | UnsupportedApiVersion nat
  | FlushRegistration
  | MissingTxtProperty string
  | InvalidTxtProperty string string
  | FailedToConnectToRemote connect_remote_error

record resolved_service =
  rv_fullname :: string
  rv_ty_domain :: string
  rv_addresses :: "ip_addr list"
  rv_port :: u16
  rv_property :: "string \<Rightarrow> string option"

definition is_ipv4 :: "ip_addr \<Rightarrow> bool" where
  "is_ipv4 ip = (case ip of V4 a \<Rightarrow> True | V6 a \<Rightarrow> False)"

definition discovered_name :: "string \<Rightarrow> string \<Rightarrow> string" where
  "discovered_name fullname ty = trim_end_matches ''.'' (trim_end_matches (CHR ''.'' # ty) fullname)"

text \<open>What the properties say, or the first complaint: address, authentication port, hostname.\<close>

definition check_service :: "resolved_service \<Rightarrow> (ip_addr \<times> u16 \<times> string, discovery_error) result" where
  "check_service s =
     (case find is_ipv4 (rv_addresses s) of
        None \<Rightarrow> Err NoValidIpAddress
      | Some address \<Rightarrow>
         (case rv_property s ''auth-port'' of
            None \<Rightarrow> Err (MissingTxtProperty ''auth-port'')
          | Some auth_port_str \<Rightarrow>
             (case parse_uint (2 ^ 16) auth_port_str of
                None \<Rightarrow> Err (InvalidTxtProperty ''auth-port'' auth_port_str)
              | Some auth_port \<Rightarrow>
                 (case rv_property s ''hostname'' of
                    None \<Rightarrow> Err (MissingTxtProperty ''hostname'')
                  | Some hostname \<Rightarrow>
                     (let version_str = (case rv_property s ''api-version'' of Some v \<Rightarrow> v | None \<Rightarrow> ''1'')
                      in case parse_uint (2 ^ 8) version_str of
                           None \<Rightarrow> Err (InvalidTxtProperty ''api-version'' version_str)
                         | Some version \<Rightarrow>
                             if version \<noteq> 2 then Err (UnsupportedApiVersion version)
                             else if rv_property s ''type'' = Some ''flush'' then Err FlushRegistration
                             else Ok (address, of_nat auth_port, hostname))))))"

definition discovered_remote :: "string \<Rightarrow> ip_addr \<Rightarrow> u16 \<Rightarrow> u16 \<Rightarrow> string \<Rightarrow> remote" where
  "discovered_remote name address port auth_port hostname =
     (remote_new name address port auth_port name hostname)\<lparr>r_service_available := True\<rparr>"

definition discovered_update :: "ip_addr \<Rightarrow> u16 \<Rightarrow> u16 \<Rightarrow> string \<Rightarrow> remote \<Rightarrow> remote" where
  "discovered_update address port auth_port hostname r =
     r\<lparr>r_hostname := hostname, r_auth_port := auth_port, r_ip := address, r_port := port,
       r_service_available := True\<rparr>"

definition handle_new_service ::
  "access_env \<Rightarrow> resolved_service \<Rightarrow> manager \<Rightarrow> (unit, discovery_error) result \<times> manager" where
  "handle_new_service env s m =
     (let name = discovered_name (rv_fullname s) (rv_ty_domain s)
      in case check_service s of
           Err e \<Rightarrow> (Err e, m)
         | Ok (address, auth_port, hostname) \<Rightarrow>
            (let m0 = ac_others env 0 m
             in case get_remote name m0 of
                  None \<Rightarrow>
                   (let (i, m1) = add_remote_among env
                          (discovered_remote name address (rv_port s) auth_port hostname) m0
                    in case connect (ac_connect env) name i m1 of
                         (Ok _, m2) \<Rightarrow> (Ok (), m2)
                       | (Err e, m2) \<Rightarrow> (Err (FailedToConnectToRemote e), m2))
                | Some r \<Rightarrow>
                   (let m1 = snd (update_remote name (discovered_update address (rv_port s) auth_port hostname)
                          (ac_others env 1 m0))
                    in if needs_reconnect (r_state r)
                       then reconnect env 2 (r_uuid r) (FailedToConnectToRemote RemoteWorkerNotFound)
                              FailedToConnectToRemote m1
                       else (Ok (), m1))))"

datatype service_event =
    ServiceResolved resolved_service
  | ServiceRemoved string string
  | OtherServiceEvent

definition removed_update :: "remote \<Rightarrow> remote" where
  "removed_update r = r\<lparr>r_service_available := False, r_state := Disconnected\<rparr>"

definition discovery_step :: "access_env \<Rightarrow> service_event \<Rightarrow> manager \<Rightarrow> manager" where
  "discovery_step env ev m =
     (case ev of
        ServiceResolved s \<Rightarrow> snd (handle_new_service env s m)
      | ServiceRemoved ty fullname \<Rightarrow> snd (update_remote fullname removed_update (ac_others env 0 m))
      | OtherServiceEvent \<Rightarrow> m)"

text \<open>\<open>start\<close>: until the channel of events is closed.\<close>

fun discovery_loop :: "(access_env \<times> service_event) list \<Rightarrow> manager \<Rightarrow> manager" where
  "discovery_loop [] m = m"
| "discovery_loop ((env, ev) # evs) m = discovery_loop evs (discovery_step env ev m)"

section \<open>Names\<close>

lemma trim_without:
  assumes "CHR ''.'' \<notin> set s"
  shows "trim_end_matches (CHR ''.'' # ty) s = s"
proof (rule trim_end_matches_id)
  show "\<not> suffix (CHR ''.'' # ty) s" using assms by (auto simp: suffix_def)
qed

lemma discovered_name_full:
  assumes "CHR ''.'' \<notin> set name"
  shows "discovered_name (name @ CHR ''.'' # ty) ty = name"
  using assms by (simp add: discovered_name_def trim_end_matches_append trim_without)

text \<open>
  What the daemon is relied on for: a service whose instance name has no dot (a dot is escaped) is
  resolved under that name and its domain, with the first IPv4 address, the port and the properties
  with which it was registered.
\<close>

definition resolves :: "service_info \<Rightarrow> resolved_service \<Rightarrow> bool" where
  "resolves si s \<longleftrightarrow>
     (CHR ''.'' \<notin> set (si_name si) \<longrightarrow>
        rv_fullname s = si_name si @ CHR ''.'' # si_type si \<and> rv_ty_domain s = si_type si) \<and>
     find is_ipv4 (rv_addresses s) = Some (si_ip si) \<and> rv_port s = si_port si \<and>
     (\<forall>k v. map_of (si_properties si) k = Some v \<longrightarrow> rv_property s k = Some v)"

lemma own_service_accepted:
  assumes "service_info_of sv = Some si" and "resolves si s"
  shows "check_service s =
    Ok (si_ip si, uc_reg_port (sv_user_config sv), uc_hostname (sv_user_config sv))"
proof -
  let ?auth = "nat_to_string (unat (uc_reg_port (sv_user_config sv)))"
  have props: "rv_property s ''auth-port'' = Some ?auth"
    "rv_property s ''hostname'' = Some (uc_hostname (sv_user_config sv))"
    "rv_property s ''api-version'' = Some (nat_to_string 2)" "rv_property s ''type'' = Some ''real''"
    using assms by (auto simp: resolves_def service_info_of_def service_api_version_def Let_def)
  have "unat (uc_reg_port (sv_user_config sv)) < 2 ^ 16"
    using unsigned_less [of "uc_reg_port (sv_user_config sv)", where ?'a = nat] by simp
  then have "parse_uint (2 ^ 16) ?auth = Some (unat (uc_reg_port (sv_user_config sv)))"
    "parse_uint (2 ^ 8) (nat_to_string 2) = Some 2"
    by (simp_all add: parse_uint_nat_to_string)
  then show ?thesis
    using assms(2) unfolding check_service_def resolves_def props by (simp add: props)
qed

section \<open>Properties\<close>

lemma announced_whereabouts:
  assumes "service_info_of sv = Some si" and "resolves si s" and "CHR ''.'' \<notin> set (sv_service_name sv)"
    and "calm_access env" and "peaceful (ac_connect env)"
    and "handle_new_service env s m = (res, m')"
  shows "\<exists>service static. map_option whereabouts (get_remote (sv_service_name sv) m') =
      Some (si_ip si, uc_port (sv_user_config sv), uc_reg_port (sv_user_config sv),
            uc_hostname (sv_user_config sv), service, static, True) \<and>
    (get_remote (sv_service_name sv) m = None \<longrightarrow> service = sv_service_name sv \<and> \<not> static) \<and>
    (\<forall>r. get_remote (sv_service_name sv) m = Some r \<longrightarrow>
       service = r_service_name r \<and> static = r_service_static r)"
proof -
  let ?name = "sv_service_name sv" and ?uc = "sv_user_config sv"
  have si: "si_name si = ?name" "si_port si = uc_port ?uc"
    using assms(1) by (auto simp: service_info_of_def Let_def)
  then have name: "discovered_name (rv_fullname s) (rv_ty_domain s) = ?name" "rv_port s = uc_port ?uc"
    using assms(2,3) discovered_name_full by (simp_all add: resolves_def)
  note check = own_service_accepted [OF assms(1,2)]
  show ?thesis
  proof (cases "get_remote ?name m")
    case None
    let ?r = "discovered_remote ?name (si_ip si) (uc_port ?uc) (uc_reg_port ?uc) (uc_hostname ?uc)"
    obtain i m1 where add: "add_remote (ac_token env) ?r m = (i, m1)" by force
    have "r_uuid ?r = ?name" by (simp add: discovered_remote_def remote_new_def)
    then have "get_remote ?name m1 = Some ?r" using add_remote_facts(2) [OF add] by simp
    moreover obtain x m2 where c: "connect (ac_connect env) ?name i m1 = (x, m2)" by force
    moreover have "m' = m2"
      using assms(4,6) name check None add c
      by (cases x) (simp_all add: handle_new_service_def Let_def calm_add_remote)
    ultimately have "map_option whereabouts (get_remote ?name m') = Some (whereabouts ?r)"
      using connect_whereabouts [OF assms(5), of ?name ?name i m1] by simp
    then show ?thesis using None by (auto simp: whereabouts_def discovered_remote_def remote_new_def)
  next
    case (Some r)
    let ?f = "discovered_update (si_ip si) (uc_port ?uc) (uc_reg_port ?uc) (uc_hostname ?uc)"
    let ?m1 = "snd (update_remote ?name ?f m)"
    have known: "get_remote ?name ?m1 = Some (?f r)" using Some by (simp add: get_remote_def)
    have "map_option whereabouts (get_remote ?name m') = map_option whereabouts (get_remote ?name ?m1)"
    proof (cases "needs_reconnect (r_state r)")
      case False
      then show ?thesis using assms(4,6) name check Some by (simp add: handle_new_service_def Let_def)
    next
      case True
      then have re: "reconnect env 2 (r_uuid r) (FailedToConnectToRemote RemoteWorkerNotFound)
          FailedToConnectToRemote ?m1 = (res, m')"
        using assms(4,6) name check Some by (simp add: handle_new_service_def Let_def)
      show ?thesis by (rule reconnect_whereabouts [OF assms(4,5) re])
    qed
    then show ?thesis using known Some by (auto simp: whereabouts_def discovered_update_def)
  qed
qed

text \<open>
  C17. What one server announces, another discovers. A resolved announcement of a built server (with
  no dot in its service name) makes an unknown peer known under its service name, with exactly its
  address, ports and hostname, as available and not static; a known one has these taken over. This
  holds whatever the outcome of the connection that follows, and that outcome is the result.
\<close>

theorem announced_service_is_discovered:
  assumes "service_info_of sv = Some si" and "resolves si s" and "CHR ''.'' \<notin> set (sv_service_name sv)"
    and "calm_access env" and "peaceful (ac_connect env)"
    and "handle_new_service env s m = (res, m')"
  shows "\<exists>service static. map_option whereabouts (get_remote (sv_service_name sv) m') =
      Some (si_ip si, uc_port (sv_user_config sv), uc_reg_port (sv_user_config sv),
            uc_hostname (sv_user_config sv), service, static, True) \<and>
    (get_remote (sv_service_name sv) m = None \<longrightarrow> service = sv_service_name sv \<and> \<not> static) \<and>
    (\<forall>r. get_remote (sv_service_name sv) m = Some r \<longrightarrow>
       service = r_service_name r \<and> static = r_service_static r)"
  by (rule announced_whereabouts [OF assms])

lemma handle_new_service_elsewhere:
  assumes "calm_access env" and "peaceful (ac_connect env)" and "handle_new_service env s m = (res, m')"
    and "u \<noteq> discovered_name (rv_fullname s) (rv_ty_domain s)"
  shows "map_option whereabouts (get_remote u m') = map_option whereabouts (get_remote u m)"
proof (cases "check_service s")
  case (Err e)
  then show ?thesis using assms(3) by (simp add: handle_new_service_def Let_def)
next
  case (Ok checked)
  obtain address auth_port hostname where ok: "check_service s = Ok (address, auth_port, hostname)"
    using Ok by (cases checked) simp
  let ?name = "discovered_name (rv_fullname s) (rv_ty_domain s)"
  show ?thesis
  proof (cases "get_remote ?name m")
    case None
    let ?r = "discovered_remote ?name address (rv_port s) auth_port hostname"
    obtain i m1 where add: "add_remote (ac_token env) ?r m = (i, m1)" by force
    have "get_remote u m1 = get_remote u m"
      using add assms(4)
      by (auto simp: add_remote_def insert_worker_def insert_remote_def announce_remote_def Let_def
          get_remote_def discovered_remote_def remote_new_def)
    moreover obtain x m2 where c: "connect (ac_connect env) ?name i m1 = (x, m2)" by force
    moreover have "m' = m2"
      using assms(1,3) ok None add c
      by (cases x) (simp_all add: handle_new_service_def Let_def calm_add_remote)
    ultimately show ?thesis using connect_whereabouts [OF assms(2), of u ?name i m1] by simp
  next
    case (Some r)
    let ?m1 = "snd (update_remote ?name (discovered_update address (rv_port s) auth_port hostname) m)"
    have same: "get_remote u ?m1 = get_remote u m" using assms(4) by (simp add: get_remote_def)
    show ?thesis
    proof (cases "needs_reconnect (r_state r)")
      case False
      then show ?thesis using assms(1,3) ok Some same by (simp add: handle_new_service_def Let_def)
    next
      case True
      then have re: "reconnect env 2 (r_uuid r) (FailedToConnectToRemote RemoteWorkerNotFound)
          FailedToConnectToRemote ?m1 = (res, m')"
        using assms(1,3) ok Some by (simp add: handle_new_service_def Let_def)
      show ?thesis using reconnect_whereabouts [OF assms(1,2) re, of u] same by simp
    qed
  qed
qed

text \<open>
  C37. A service that disappears is not noticed. Remotes are filed under the instance name, but the
  removal is looked up under the full name, so after a service was discovered and removed again the
  peer is still shown as available (unless some remote is filed under that full name).
\<close>

theorem removed_service_stays_available:
  assumes "service_info_of sv = Some si" and "resolves si s" and "CHR ''.'' \<notin> set (sv_service_name sv)"
    and "calm_access env" and "peaceful (ac_connect env)" and "calm_access env2"
    and "get_remote (rv_fullname s) m = None"
  shows "\<exists>r. get_remote (sv_service_name sv)
      (discovery_loop [(env, ServiceResolved s), (env2, ServiceRemoved (rv_ty_domain s) (rv_fullname s))] m)
        = Some r \<and> r_service_available r"
proof -
  obtain res m' where h: "handle_new_service env s m = (res, m')" by force
  have si: "si_name si = sv_service_name sv"
    using assms(1) by (auto simp: service_info_of_def Let_def)
  then have name: "discovered_name (rv_fullname s) (rv_ty_domain s) = sv_service_name sv"
    "rv_fullname s = sv_service_name sv @ CHR ''.'' # si_type si"
    using assms(2,3) discovered_name_full by (simp_all add: resolves_def)
  then have "map_option whereabouts (get_remote (rv_fullname s) m') = None"
    using handle_new_service_elsewhere [OF assms(4,5) h, of "rv_fullname s"] assms(7) by simp
  then have "get_remote (rv_fullname s) m' = None" by simp
  then have "discovery_step env2 (ServiceRemoved (rv_ty_domain s) (rv_fullname s)) m' = m'"
    using assms(6) by (simp add: discovery_step_def update_remote_def get_remote_def)
  moreover have "\<exists>r. get_remote (sv_service_name sv) m' = Some r \<and> r_service_available r"
    using announced_whereabouts [OF assms(1-5) h] by (auto simp: whereabouts_def)
  ultimately show ?thesis using h by (simp add: discovery_step_def)
qed

definition sample_service :: "server \<Rightarrow> resolved_service" where
  "sample_service sv =
     \<lparr>rv_fullname = sv_service_name sv @ CHR ''.'' # service_domain, rv_ty_domain = service_domain,
      rv_addresses = [V6 1, V4 0x7F000001], rv_port = uc_port (sv_user_config sv),
      rv_property = map_of
        [(''type'', ''real''), (''hostname'', uc_hostname (sv_user_config sv)),
         (''api-version'', nat_to_string (unat service_api_version)),
         (''auth-port'', nat_to_string (unat (uc_reg_port (sv_user_config sv))))]\<rparr>"

lemma sample_discovered:
  "\<exists>sv si. server_build sample_crypto 1000 (Ok ()) sample_builder = Ok sv \<and>
    service_info_of sv = Some si \<and> resolves si (sample_service sv) \<and> sv_service_name sv = ''me''"
proof -
  obtain sv where sv: "server_build sample_crypto 1000 (Ok ()) sample_builder = Ok sv"
    using sample_build by blast
  then have 1: "sv_service_name sv = ''me''" "uc_bind_addr_v4 (sv_user_config sv) = Some 0x7F000001"
    by (auto simp: server_build_def sample_builder_def server_builder_new_def sample_user_def Let_def
        split: option.splits result.splits)
  show ?thesis
    using sv 1 by (simp add: service_info_of_def resolves_def sample_service_def is_ipv4_def Let_def)
qed

theorem announced_service_witness:
  "\<exists>sv m' res. handle_new_service sample_access (sample_service sv) known_manager = (res, m') \<and>
    sv_service_name sv = ''me'' \<and> map_option r_service_available (get_remote ''me'' m') = Some True"
proof -
  obtain sv si where sv: "service_info_of sv = Some si" "resolves si (sample_service sv)"
    "sv_service_name sv = ''me''" using sample_discovered by blast
  obtain res m' where h: "handle_new_service sample_access (sample_service sv) known_manager = (res, m')"
    by force
  then show ?thesis
    using announced_service_is_discovered [OF sv(1,2) _ sample_access_calm sample_access_peaceful h] sv(3)
    by (fastforce simp: whereabouts_def)
qed

theorem removed_service_witness:
  "\<exists>sv r. get_remote ''me''
      (discovery_loop [(sample_access, ServiceResolved (sample_service sv)),
        (sample_access, ServiceRemoved service_domain (''me.'' @ service_domain))] sample_manager) = Some r \<and>
    r_service_available r"
proof -
  obtain sv si where sv: "service_info_of sv = Some si" "resolves si (sample_service sv)"
    "sv_service_name sv = ''me''" using sample_discovered by blast
  have "rv_ty_domain (sample_service sv) = service_domain"
    "rv_fullname (sample_service sv) = ''me.'' @ service_domain"
    by (simp_all add: sample_service_def sv(3))
  then show ?thesis
    using removed_service_stays_available [OF sv(1,2) _ sample_access_calm sample_access_peaceful
        sample_access_calm, of sample_manager] sv(3) sample_manager_empty(1)
    by (auto simp del: discovery_loop.simps)
qed

end
