(* ===== verification/Warp_Machine.thy ===== *)
theory Warp_Machine
  imports Warp_Discovery Warp_Requests
begin

text \<open>
  A whole machine: the two gRPC services and the discovery service that \<open>serve_with_shutdown\<close> and
  \<open>announce_mdns\<close> start, and everything that reaches the manager through them. Requests come from
  peers, so nothing is assumed of their contents.
\<close>

section \<open>The services\<close>

text \<open>
  \<open>WarpServer\<close>, \<open>RegistrationServer\<close> and \<open>DiscoveryService\<close>. All three hold a handle of the same
  manager, which is the state that their methods are given.
\<close>

record warp_server =
  ws_user_config :: user_config
  ws_protocol_config :: protocol_config

record registration_server =
  rs_authenticator :: authenticator
  rs_reg_service_message :: service_registration

record discovery_service =
  ds_service_domain :: string

definition warp_server_new :: "user_config \<Rightarrow> protocol_config \<Rightarrow> warp_server" where
  "warp_server_new uc pc = \<lparr>ws_user_config = uc, ws_protocol_config = pc\<rparr>"

definition registration_server_new :: "authenticator \<Rightarrow> service_registration \<Rightarrow> registration_server" where
  "registration_server_new au message = \<lparr>rs_authenticator = au, rs_reg_service_message = message\<rparr>"

definition discovery_service_new :: "string \<Rightarrow> discovery_service" where
  "discovery_service_new domain = \<lparr>ds_service_domain = domain\<rparr>"

definition registration_server_of :: "server \<Rightarrow> registration_server" where
  "registration_server_of sv = registration_server_new (sv_authenticator sv) (registration_message sv)"

definition warp_server_of :: "server \<Rightarrow> warp_server" where
  "warp_server_of sv = warp_server_new (sv_user_config sv) (sv_protocol_config sv)"

text \<open>What the mDNS daemon answers to the three calls of \<open>start\<close>; the events follow.\<close>

record mdns_answers =
  md_loop_v4 :: "(unit, string) result"
  md_loop_v6 :: "(unit, string) result"
  md_browse :: "string \<Rightarrow> (unit, string) result"

definition discovery_start ::
  "mdns_answers \<Rightarrow> (access_env \<times> service_event) list \<Rightarrow> discovery_service \<Rightarrow> manager \<Rightarrow> (unit, string) result \<times> manager" where
  "discovery_start md evs ds m =
     (case md_loop_v4 md of
        Err e \<Rightarrow> (Err e, m)
      | Ok _ \<Rightarrow>
         (case md_loop_v6 md of
            Err e \<Rightarrow> (Err e, m)
          | Ok _ \<Rightarrow>
             (case md_browse md (ds_service_domain ds) of
                Err e \<Rightarrow> (Err e, m)
              | Ok _ \<Rightarrow> (Ok (), discovery_loop evs m))))"

section \<open>Traffic\<close>

text \<open>
  What can happen: a request to a method of either service, an event of the daemon, a connection
  the user asks for, one iteration of a worker's loop, or an operation of another task. Each brings
  the environment of its task.
\<close>

datatype traffic =
    RequestCertificate crypto bytes
  | RegisterService access_env "connect_remote_error \<Rightarrow> string" service_registration
  | WaitingForDuplex connect_env lookup_name "duplex_input list"
  | GetRemoteMachineInfo
  | GetRemoteMachineAvatar
  | ProcessTransferOpRequest string u64 transfer_op_request
  | StartTransferCall nat "manager \<Rightarrow> manager" op_info
  | PauseTransferOp op_info
  | StopTransferCall nat "manager \<Rightarrow> manager" stop_info
  | CancelTransferCall nat "manager \<Rightarrow> manager" op_info
  | SendTextMessage string u64 text_message
  | PingCall lookup_name
  | ServiceEvent access_env service_event
  | ManualConnection access_env "string \<Rightarrow> bool" "(service_registration, status) result" string
  | WorkerIteration string nat loop_input
  | OtherTask mgr_op

datatype reply =
    CertificateReply "(string, status) result"
  | RegistrationReply "(service_registration, status) result"
  | DuplexReply "bool option"
  | InfoReply remote_machine_info
  | AvatarReply "bytes list"
  | VoidReply "(unit, status) result"
  | StreamReply "(spawned_stream, status) result"
  | ManualReply "(unit, manual_connection_error) result"
  | NoReply

fun replying :: "('a \<Rightarrow> reply) \<Rightarrow> 'a outcome \<times> manager \<Rightarrow> reply outcome \<times> manager" where
  "replying f (Panic, m) = (Panic, m)"
| "replying f (Return a, m) = (Return (f a), m)"

definition answered :: "('a \<Rightarrow> reply) \<Rightarrow> 'a \<times> manager \<Rightarrow> reply outcome \<times> manager" where
  "answered f x = (Return (f (fst x)), snd x)"

text \<open>The connection that \<open>waiting_for_duplex\<close> spawns belongs to the step; its result is dropped.\<close>

definition duplex_call :: "connect_env \<Rightarrow> lookup_name \<Rightarrow> duplex_input list \<Rightarrow> manager \<Rightarrow> bool option \<times> manager" where
  "duplex_call env req xs m =
     (case waiting_for_duplex req m xs of
        (None, answer) \<Rightarrow> (answer, m)
      | (Some i, answer) \<Rightarrow> (answer, snd (connect env (ln_id req) i m)))"

fun serve :: "registration_server \<Rightarrow> warp_server \<Rightarrow> traffic \<Rightarrow> manager \<Rightarrow> reply outcome \<times> manager" where
  "serve rs ws (RequestCertificate cr nonce) m =
     (Return (CertificateReply (request_certificate cr nonce (rs_authenticator rs))), m)"
| "serve rs ws (RegisterService env describe req) m =
     replying RegistrationReply (register_service env describe (rs_reg_service_message rs) req m)"
| "serve rs ws (WaitingForDuplex env req xs) m = answered DuplexReply (duplex_call env req xs m)"
| "serve rs ws GetRemoteMachineInfo m =
     (Return (InfoReply (get_remote_machine_info (ws_user_config ws) (ws_protocol_config ws))), m)"
| "serve rs ws GetRemoteMachineAvatar m = (Return (AvatarReply (get_remote_machine_avatar (ws_user_config ws))), m)"
| "serve rs ws (ProcessTransferOpRequest fresh now req) m =
     replying VoidReply (process_transfer_op_request fresh now req m)"
| "serve rs ws (StartTransferCall q others req) m = answered StreamReply (start_transfer q others req m)"
| "serve rs ws (PauseTransferOp req) m = (Return (VoidReply (pause_transfer_op req)), m)"
| "serve rs ws (StopTransferCall q others req) m = answered VoidReply (handle_stop_transfer q others req m)"
| "serve rs ws (CancelTransferCall q others req) m = answered VoidReply (cancel_transfer_op_request q others req m)"
| "serve rs ws (SendTextMessage fresh now req) m =
     answered VoidReply (send_text_message (ws_protocol_config ws) fresh now req m)"
| "serve rs ws (PingCall req) m = (Return (VoidReply (handle_ping req)), m)"
| "serve rs ws (ServiceEvent env ev) m = (Return NoReply, discovery_step env ev m)"
| "serve rs ws (ManualConnection env reaches answer url) m =
     replying ManualReply (manual_connection env reaches answer url m)"
| "serve rs ws (WorkerIteration uuid i inp) m = (Return NoReply, snd (loop_step uuid i inp m))"
| "serve rs ws (OtherTask e) m = (Return NoReply, mgr_step e m)"

section \<open>What every step keeps\<close>

text \<open>
  The invariant; and no remote, worker or handle of a worker is ever lost. Other tasks are
  \<open>orderly\<close> when they keep both.
\<close>

definition grows :: "manager \<Rightarrow> manager \<Rightarrow> bool" where
  "grows m m' \<longleftrightarrow> dom (mg_remotes m) \<subseteq> dom (mg_remotes m') \<and> dom (mg_workers m) \<subseteq> dom (mg_workers m') \<and>
     length (mg_arena m) \<le> length (mg_arena m')"

definition steady :: "manager \<Rightarrow> manager \<Rightarrow> bool" where
  "steady m m' \<longleftrightarrow> (mgr_inv m \<longrightarrow> mgr_inv m' \<and> grows m m')"

definition orderly :: "(manager \<Rightarrow> manager) \<Rightarrow> bool" where
  "orderly f \<longleftrightarrow> (\<forall>m. steady m (f m))"

definition orderly_shared :: "shared_env \<Rightarrow> bool" where
  "orderly_shared env \<longleftrightarrow> (\<forall>k. orderly (se_others env k))"

definition orderly_access :: "access_env \<Rightarrow> bool" where
  "orderly_access env \<longleftrightarrow> (\<forall>k. orderly (ac_others env k)) \<and> orderly_shared (shared_of (ac_connect env))"

lemma steady_refl [simp, intro]: "steady m m"
  by (simp add: steady_def grows_def)

lemma steady_trans: "steady m m1 \<Longrightarrow> steady m1 m2 \<Longrightarrow> steady m m2"
  unfolding steady_def grows_def by (meson order_trans)

lemma grows_step: "grows m (mgr_step e m)"
proof (cases e)
  case (AddTransfer ru t)
  then show ?thesis by (cases "mg_remotes m ru") (auto simp: grows_def add_transfer_def)
next
  case (RemoveTransfer ru tu)
  then show ?thesis by (auto simp: grows_def remove_transfer_def split: option.splits)
next
  case (AddMessage ru x)
  then show ?thesis by (cases "mg_remotes m ru") (auto simp: grows_def add_message_def)
next
  case (RemoveMessage ru mu)
  then show ?thesis by (auto simp: grows_def remove_message_def split: option.splits)
qed (auto simp: grows_def insert_worker_def insert_remote_def announce_remote_def mg_remotes_update_transfer Let_def)

lemma steady_step: "(mgr_inv m \<Longrightarrow> op_ok e m) \<Longrightarrow> steady m (mgr_step e m)"
  using mgr_step_inv grows_step by (simp add: steady_def)

lemmas steady_ops =
  steady_step [of m "UpdateRemote u f" for m u f, simplified]
  steady_step [of m "UpdateTransfer q ru tu f" for m q ru tu f, simplified]
  steady_step [of m "UpdateWorker i f" for m i f, simplified]
  steady_step [of m "AddMessage ru x" for m ru x, simplified]
  steady_step [of m "AddTransfer ru t" for m ru t, simplified]
  steady_step [of m "CancelToken tok" for m tok, simplified]

lemma orderlyD: "orderly f \<Longrightarrow> steady m (f m)"
  by (simp add: orderly_def)

lemma orderly_then: "orderly f \<Longrightarrow> steady (f m) m' \<Longrightarrow> steady m m'"
  using orderlyD steady_trans by blast

lemma steady_set_state:
  assumes "orderly_shared env"
  shows "steady m (snd (set_state env k u j st m))"
proof -
  have 1: "steady m (send_state j st m)" by (simp add: send_state_def steady_ops)
  have 2: "steady m1 (snd (update_remote u (\<lambda>r. r\<lparr>r_state := st\<rparr>) m1))" for m1
    by (simp add: steady_ops remote_closure_ok_def)
  have "steady (send_state j st m) (se_others env k (send_state j st m))"
    using assms by (simp add: orderly_shared_def orderlyD)
  from steady_trans [OF 1 steady_trans [OF this 2]] 1 show ?thesis
    by (simp add: set_state_def with_manager_def)
qed

interpretation steadily: state_frame "\<lambda>m m'. orderly_shared (shared_of env) \<longrightarrow> steady m m'" env for env
  by unfold_locales
    (auto simp: orderly_shared_def orderlyD steady_ops remote_closure_ok_def whereabouts_def
      intro: steady_trans steady_set_state)

lemma steady_connect: "orderly_shared (shared_of env) \<Longrightarrow> steady m (snd (connect env u i m))"
  by (rule steadily.connect_kept [THEN mp])

section \<open>Requests\<close>

lemma steady_insert_worker: "steady m (snd (insert_worker tok u m))"
  using steady_step [of m "InsertWorker tok u"] by simp

lemma steady_add_remote:
  assumes "orderly_access env" and "r_transfers r = []"
  shows "steady m (snd (add_remote_among env r m))"
proof -
  have o: "\<And>k x. steady x (ac_others env k x)" using assms(1) by (simp add: orderly_access_def orderlyD)
  let ?m0 = "ac_others env 1 m"
  obtain i m1 where ins: "insert_worker (ac_token env) (r_uuid r) ?m0 = (i, m1)" by force
  let ?m2 = "ac_others env 2 m1"
  let ?m3 = "insert_remote r ?m2"
  let ?m4 = "ac_others env 3 ?m3"
  show ?thesis
  proof (cases "mgr_inv m")
    case False
    then show ?thesis by (simp add: steady_def)
  next
    case True
    have s1: "steady m m1" using steady_trans [OF o steady_insert_worker] ins by (metis snd_conv)
    have s2: "steady m ?m2" by (rule steady_trans [OF s1 o])
    have i: "i < length (mg_arena m1)" "r_uuid r \<in> dom (mg_workers m1)"
      using ins by (auto simp: insert_worker_def Let_def)
    have "mgr_inv m1" using s1 True by (simp add: steady_def)
    then have g2: "grows m1 ?m2" using o [of m1 2] by (simp add: steady_def)
    then have "r_uuid r \<in> dom (mg_workers ?m2)" using i(2) by (auto simp: grows_def)
    then have s3: "steady ?m2 ?m3" using steady_step [of ?m2 "InsertRemote r"] assms(2) by simp
    have "mgr_inv ?m3" using steady_trans [OF s2 s3] True by (simp add: steady_def)
    then have "grows ?m3 ?m4" using o [of ?m3 3] by (simp add: steady_def)
    then have "i < length (mg_arena ?m4)" "r_uuid r \<in> dom (mg_remotes ?m4)"
      using i(1) g2 by (auto simp: grows_def insert_remote_def)
    then have "steady ?m4 (announce_remote i (r_uuid r) ?m4)"
      using steady_step [of ?m4 "AnnounceRemote i (r_uuid r)"] by simp
    from steady_trans [OF steady_trans [OF s2 s3] steady_trans [OF o this]] show ?thesis
      using ins by (simp add: add_remote_among_def Let_def)
  qed
qed

lemma steady_reconnect:
  assumes "orderly_access env"
  shows "steady m (snd (reconnect env k u missing failed m))"
proof -
  have o: "steady m (ac_others env k m)" "orderly_shared (shared_of (ac_connect env))"
    using assms by (simp_all add: orderly_access_def orderlyD)
  show ?thesis
    using o(1) steady_trans [OF o(1) steady_connect [OF o(2)]]
    by (auto simp: reconnect_def Let_def split: option.split prod.split result.split) (metis snd_conv)+
qed

lemma remote_new_transfers [simp]: "r_transfers (remote_new u ip p a s h) = []"
  by (simp add: remote_new_def)

lemma registration_update_ok:
  "r_uuid (snd (registration_update ip req r)) = r_uuid r \<and> r_transfers (snd (registration_update ip req r)) = r_transfers r"
  by (simp add: registration_update_def Let_def split: option.split)

lemma steady_update_panicking: "steady m (snd (update_remote_panicking u (registration_update ip req) m))"
proof (cases "mg_remotes m u")
  case (Some r)
  obtain x s where x: "registration_update ip req r = (x, s)" by force
  have wf: "remote_wf u s" if "mgr_inv m"
    using mgr_inv_remote [OF that Some] registration_update_ok [of ip req r] x by (simp add: remote_wf_def)
  let ?m = "snd (update_remote_panicking u (registration_update ip req) m)"
  have m: "?m = put_remote u s m \<or> ?m = send_event (RemoteUpdated u) (put_remote u s m)"
    using Some x by (cases x) (simp_all add: update_remote_panicking_def)
  then have "grows m ?m" by (auto simp: grows_def)
  moreover have "mgr_inv ?m" if "mgr_inv m"
    by (rule mgr_inv_put [OF that _ wf [OF that], where e = "RemoteUpdated u"]) (use Some m in auto)
  ultimately show ?thesis by (simp add: steady_def)
qed (simp add: update_remote_panicking_def)

lemma steady_register:
  assumes "orderly_access env"
  shows "steady m (snd (register_service env describe own req m))"
proof -
  have o: "\<And>k x. steady x (ac_others env k x)" using assms by (simp add: orderly_access_def orderlyD)
  let ?u = "sr_service_id req" and ?m0 = "ac_others env 0 m"
  let ?upd = "\<lambda>ip. update_remote_panicking ?u (registration_update ip req) (ac_others env 1 ?m0)"
  have upd: "steady m (snd (?upd ip))" for ip
    by (rule steady_trans [OF o steady_trans [OF o steady_update_panicking]])
  have re: "steady m (snd (reconnect env 2 ?u e f (snd (?upd ip))))" for ip and e :: status and f
    by (rule steady_trans [OF upd steady_reconnect [OF assms]])
  have add: "steady m (snd (add_remote_among env (remote_new ?u ip p a ?u (sr_hostname req)) ?m0))" for ip p a
    by (rule steady_trans [OF o steady_add_remote [OF assms]]) simp
  show ?thesis
    using o [of m 0] upd re add
    by (auto simp: register_service_def Let_def split: option.split prod.split result.split outcome.split)
      (metis snd_conv)+
qed

section \<open>Discovery, connections by hand, loops\<close>

lemma steady_added_connect:
  assumes "orderly_access env" and "r_transfers r = []" and "add_remote_among env r m = (i, m1)"
  shows "steady m (snd (connect (ac_connect env) u i m1))"
proof -
  have "steady m m1" using steady_add_remote [OF assms(1,2)] assms(3) by (metis snd_conv)
  then show ?thesis using steady_trans steady_connect assms(1) by (auto simp: orderly_access_def)
qed

lemma steady_discovery:
  assumes "orderly_access env"
  shows "steady m (snd (handle_new_service env s m))"
proof (cases "check_service s")
  case (Ok checked)
  obtain address auth_port hostname where ok: "check_service s = Ok (address, auth_port, hostname)"
    using Ok by (cases checked) simp
  have o: "\<And>k x. steady x (ac_others env k x)" using assms by (simp add: orderly_access_def orderlyD)
  let ?name = "discovered_name (rv_fullname s) (rv_ty_domain s)" and ?m0 = "ac_others env 0 m"
  show ?thesis
  proof (cases "get_remote ?name ?m0")
    case None
    let ?r = "discovered_remote ?name address (rv_port s) auth_port hostname"
    obtain i m1 where add: "add_remote_among env ?r ?m0 = (i, m1)" by force
    have "r_transfers ?r = []" by (simp add: discovered_remote_def)
    note c = steady_trans [OF o steady_added_connect [OF assms this add]]
    show ?thesis
      using None ok add c [of ?name] by (auto simp: handle_new_service_def Let_def split: prod.split result.split)
  next
    case (Some r)
    let ?m1 = "snd (update_remote ?name (discovered_update address (rv_port s) auth_port hostname) (ac_others env 1 ?m0))"
    have "steady (ac_others env 1 ?m0) ?m1" by (simp add: steady_ops remote_closure_ok_def discovered_update_def)
    note u = steady_trans [OF o steady_trans [OF o this]]
    have "steady m (snd (reconnect env 2 (r_uuid r) e f ?m1))" for e :: discovery_error and f
      by (rule steady_trans [OF u steady_reconnect [OF assms]])
    then show ?thesis using Some ok u by (simp add: handle_new_service_def Let_def)
  qed
qed (simp add: handle_new_service_def Let_def)

lemma steady_discovery_step:
  assumes "orderly_access env"
  shows "steady m (discovery_step env ev m)"
proof (cases ev)
  case (ServiceRemoved ty fullname)
  have "steady m (ac_others env 0 m)" using assms by (simp add: orderly_access_def orderlyD)
  moreover have "steady x (snd (update_remote fullname removed_update x))" for x
    by (simp add: steady_ops remote_closure_ok_def removed_update_def)
  ultimately show ?thesis using ServiceRemoved steady_trans [of m "ac_others env 0 m"] by (simp add: discovery_step_def)
qed (simp_all add: discovery_step_def steady_discovery [OF assms])

lemma manual_update_ok: "remote_closure_ok (manual_update ip s)"
  by (simp add: remote_closure_ok_def manual_update_def Let_def split: option.split)

lemma steady_manual:
  assumes "orderly_access env"
  shows "steady m (snd (manual_connection env reaches answer url m))"
proof (cases "\<exists>ip port s. split_last_colon url = Some (ip, port) \<and> reaches (''http://'' @ ip @ '':'' @ port) \<and> answer = Ok s")
  case True
  then obtain ip port s where reached: "split_last_colon url = Some (ip, port)" "reaches (''http://'' @ ip @ '':'' @ port)"
    "answer = Ok s" by blast
  have o: "\<And>k x. steady x (ac_others env k x)" using assms by (simp add: orderly_access_def orderlyD)
  let ?u = "sr_service_id s" and ?m0 = "ac_others env 0 m"
  show ?thesis
  proof (cases "get_remote ?u ?m0")
    case None
    show ?thesis
    proof (cases "parse_ip ip")
      case None
      then show ?thesis using reached \<open>get_remote ?u ?m0 = None\<close> o by (simp add: manual_connection_def Let_def)
    next
      case (Some a)
      let ?r = "(remote_new ?u a (ucast (sr_port s)) (ucast (sr_auth_port s)) ?u (sr_hostname s))\<lparr>r_service_static := True\<rparr>"
      obtain i m1 where add: "add_remote_among env ?r ?m0 = (i, m1)" by force
      have "r_transfers ?r = []" by simp
      note c = steady_trans [OF o steady_added_connect [OF assms this add]]
      show ?thesis
        using reached None Some add c [of ?u]
          by (auto simp: manual_connection_def Let_def split: prod.split result.split)
    qed
  next
    case (Some r)
    obtain x m1 where x: "update_remote (r_uuid r) (manual_update ip s) (ac_others env 1 ?m0) = (x, m1)" by force
    have "steady (ac_others env 1 ?m0) m1"
      using steady_ops(1) [OF manual_update_ok, of "ac_others env 1 ?m0" "r_uuid r" ip s] x by simp
    note u = steady_trans [OF o steady_trans [OF o this]]
    show ?thesis
    proof (cases x)
      case (Ok v)
      obtain y m2 where re: "reconnect env 2 (r_uuid r) (FailedToConnect RemoteWorkerNotFound) FailedToConnect m1 = (y, m2)"
        by force
      have "steady m m2"
        using steady_trans [OF u steady_reconnect [OF assms]] re by (metis snd_conv)
      then show ?thesis using reached Some x Ok u re
        by (cases "r_state r") (simp_all add: manual_connection_def Let_def)
    qed (use reached Some x u in \<open>simp add: manual_connection_def Let_def\<close>)
  qed
qed (auto simp: manual_connection_def split: option.split result.split)

fun orderly_input :: "loop_input \<Rightarrow> bool" where
  "orderly_input (LoopCancelled env) = orderly_shared env"
| "orderly_input (LoopSlept env) = orderly_shared (shared_of env)"
| "orderly_input LoopChanged = True"

lemma steady_clear: "steady m (clear_channel i m)"
  by (simp add: clear_channel_def steady_ops)

lemma steady_stop: "orderly_shared env \<Longrightarrow> steady m (snd (stop_loop env u i m))"
  by (simp add: stop_loop_def disconnect_def steady_trans [OF steady_clear steady_set_state])

lemma steady_ping_or_disconnect:
  assumes "orderly_shared (shared_of env)"
  shows "steady m (ping_or_disconnect env u i m)"
proof -
  obtain r m1 where p: "ping (shared_of env) 0 (ce_ping env) i m = (r, m1)" by force
  have 1: "steady m m1"
    using steadily.ping_kept [THEN mp, OF assms, of m 0 "ce_ping env" i] p by simp
  note 2 = steady_trans [OF 1 steady_trans [OF steady_set_state [OF assms] steady_clear]]
  show ?thesis using p 1 2 by (cases r) (simp_all add: ping_or_disconnect_def)
qed

lemma steady_wait:
  assumes "orderly_input inp"
  shows "steady m (snd (wait_then_reconnect u i inp m))"
  using assms by (cases inp) (simp_all add: wait_then_reconnect_def steady_stop steady_connect)

lemma steady_loop_step:
  assumes "orderly_input inp"
  shows "steady m (snd (loop_step u i inp m))"
  using assms steady_wait [OF assms]
  by (cases inp) (auto simp: loop_step_def steady_stop steady_ping_or_disconnect split: remote_state.split)

end
