(* ===== verification/Warp_Traffic.thy ===== *)
theory Warp_Traffic
  imports Warp_Machine
begin

text \<open>
  What peers can do to a machine: every request keeps the manager's invariant, only one kind of
  request ends a handler in a panic, and a call about a transfer changes nothing but the state of
  the transfer it names.
\<close>

section \<open>Calls about transfers and messages\<close>

lemma state_closure_ok: "transfer_closure_ok (\<lambda>t. t\<lparr>t_state := st\<rparr>)"
  by (simp add: transfer_closure_ok_def)

lemma steady_cancel_outgoing: "steady m (cancel_outgoing t m)"
  by (simp add: cancel_outgoing_def steady_ops split: transfer_kind.split)

lemma steady_state_update:
  assumes "orderly others" and "steady m0 m"
  shows "steady m0 (snd (update_transfer q ru tu (\<lambda>t. t\<lparr>t_state := st\<rparr>) (others m)))"
  using steady_trans [OF assms(2) orderly_then [OF assms(1) steady_ops(2) [OF state_closure_ok]]] .

lemma steady_start: "orderly others \<Longrightarrow> steady m (snd (start_transfer q others req m))"
  using steady_state_update [OF _ steady_refl, of others m q]
  by (auto simp: start_transfer_def split: option.split transfer_kind.split prod.split result.split) (metis snd_conv)+

lemma steady_handle_stop: "orderly others \<Longrightarrow> steady m (snd (handle_stop_transfer q others req m))"
  using steady_state_update [OF _ steady_cancel_outgoing]
  by (simp add: handle_stop_transfer_def split: option.split)

lemma steady_handle_cancel: "orderly others \<Longrightarrow> steady m (snd (cancel_transfer_op_request q others req m))"
  using steady_state_update [OF _ steady_refl]
  by (simp add: cancel_transfer_op_request_def split: option.split)

lemma steady_text: "steady m (snd (send_text_message pc fresh now req m))"
  using steady_ops(4) [of m "tm_ident req" "message_from_proto fresh now req"]
  by (auto simp: send_text_message_def split: prod.split result.split)

definition fresh_for :: "string \<Rightarrow> transfer_op_request \<Rightarrow> manager \<Rightarrow> bool" where
  "fresh_for fresh req m \<longleftrightarrow>
     (\<forall>info. tor_info req = Some info \<longrightarrow> get_transfer (oi_ident info) fresh m = None)"

lemma steady_offer:
  assumes "fresh_for fresh req m"
  shows "steady m (snd (process_transfer_op_request fresh now req m))"
proof (cases "tor_info req")
  case (Some info)
  then obtain t where t: "transfer_from_request fresh now req = Return t" "t_remote_uuid t = oi_ident info"
    "t_uuid t = fresh"
    by (simp add: transfer_from_request_def)
  obtain r m1 where r: "add_transfer (oi_ident info) t m = (r, m1)" by force
  have "steady m m1" using steady_ops(5) [of m t "oi_ident info"] assms Some t r by (simp add: fresh_for_def)
  then show ?thesis using Some t r by (cases r) (simp_all add: process_transfer_op_request_def)
qed (simp add: process_transfer_op_request_def)

section \<open>Every step\<close>

text \<open>
  What is asked of a step: the other tasks that run during it are orderly, a UUID that is drawn is
  fresh, and an operation of another task meets its conditions. Requests are arbitrary.
\<close>

fun traffic_ok :: "traffic \<Rightarrow> manager \<Rightarrow> bool" where
  "traffic_ok (RegisterService env describe req) m = orderly_access env"
| "traffic_ok (WaitingForDuplex env req xs) m = orderly_shared (shared_of env)"
| "traffic_ok (ProcessTransferOpRequest fresh now req) m = fresh_for fresh req m"
| "traffic_ok (StartTransferCall q others req) m = orderly others"
| "traffic_ok (StopTransferCall q others req) m = orderly others"
| "traffic_ok (CancelTransferCall q others req) m = orderly others"
| "traffic_ok (ServiceEvent env ev) m = orderly_access env"
| "traffic_ok (ManualConnection env reaches answer url) m = orderly_access env"
| "traffic_ok (WorkerIteration uuid i inp) m = orderly_input inp"
| "traffic_ok (OtherTask e) m = op_ok e m"
| "traffic_ok _ m = True"

lemma snd_replying [simp]: "snd (replying f x) = snd x"
  by (cases "(f, x)" rule: replying.cases) simp_all

lemma fst_replying [simp]: "fst (replying f x) = Panic \<longleftrightarrow> fst x = Panic"
  by (cases "(f, x)" rule: replying.cases) simp_all

lemma answered_simps [simp]: "snd (answered f x) = snd x" "fst (answered f x) = Return (f (fst x))"
  by (simp_all add: answered_def)

lemma steady_duplex: "orderly_shared (shared_of env) \<Longrightarrow> steady m (snd (duplex_call env req xs m))"
  by (simp add: duplex_call_def steady_connect split: prod.split option.split)

lemma serve_steady: "mgr_inv m \<Longrightarrow> traffic_ok x m \<Longrightarrow> steady m (snd (serve rs ws x m))"
  by (cases x)
    (simp_all add: steady_register steady_duplex steady_offer steady_start steady_handle_stop steady_handle_cancel
      steady_text steady_discovery_step steady_manual steady_loop_step steady_step)

interpretation served: invariant_machine "\<lambda>x m. snd (serve rs ws x m)" traffic_ok mgr_inv for rs ws
  by unfold_locales (use serve_steady in \<open>simp add: steady_def\<close>)

section \<open>Panics\<close>

text \<open>A port of the message that does not fit.\<close>

definition oversized :: "service_registration \<Rightarrow> bool" where
  "oversized req \<longleftrightarrow> 2 ^ 16 \<le> unat (sr_port req) \<or> 2 ^ 16 \<le> unat (sr_auth_port req)"

lemma oversized_port: "oversized req \<longleftrightarrow> port_try_into (sr_port req) = None \<or> port_try_into (sr_auth_port req) = None"
  by (simp add: oversized_def port_try_into_def not_less)

lemma registration_update_panics: "fst (registration_update ip req r) = Panic \<longleftrightarrow> oversized req"
  by (auto simp: registration_update_def oversized_port Let_def split: option.split)

lemma register_panics:
  assumes "mgr_inv m" and "orderly_access env"
  shows "fst (register_service env describe own req m) = Panic \<longleftrightarrow>
    parse_ip (sr_ip req) \<noteq> None \<and> oversized req \<and>
    (\<forall>r. get_remote (sr_service_id req) (ac_others env 0 m) = Some r \<longrightarrow> r_state r \<noteq> Connected)"
proof -
  let ?u = "sr_service_id req" and ?m0 = "ac_others env 0 m"
  have o: "\<And>k x. steady x (ac_others env k x)" using assms(2) by (simp add: orderly_access_def orderlyD)
  show ?thesis
  proof (cases "get_remote ?u ?m0")
    case None
    then show ?thesis
      by (auto simp: register_service_def Let_def oversized_port split: option.split)
  next
    case (Some r)
    have "mgr_inv ?m0" using o [of m 0] assms(1) by (simp add: steady_def)
    then have "dom (mg_remotes ?m0) \<subseteq> dom (mg_remotes (ac_others env 1 ?m0))"
      using o [of ?m0 1] by (simp add: steady_def grows_def)
    then obtain r1 where r1: "mg_remotes (ac_others env 1 ?m0) ?u = Some r1"
      using Some by (auto simp: get_remote_def)
    show ?thesis
    proof (cases "parse_ip (sr_ip req)")
      case None
      then show ?thesis using Some by (simp add: register_service_def Let_def)
    next
      case ip: (Some ip)
      obtain x s where x: "registration_update ip req r1 = (x, s)" by force
      have "x = Panic \<longleftrightarrow> oversized req" using registration_update_panics [of ip req r1] x by simp
      then show ?thesis
        using Some ip r1 x
        by (cases x)
          (auto simp: register_service_def update_remote_panicking_def Let_def split: prod.split result.split)
    qed
  qed
qed

lemma manual_never_panics:
  assumes "mgr_inv m" and "orderly_access env"
  shows "fst (manual_connection env reaches answer url m) \<noteq> Panic"
proof -
  have o: "\<And>k x. steady x (ac_others env k x)" using assms(2) by (simp add: orderly_access_def orderlyD)
  have "update_remote (r_uuid r) f (ac_others env 1 (ac_others env 0 m)) \<noteq> (Err e, m1)"
    if "get_remote u (ac_others env 0 m) = Some r" for u r f e m1
  proof -
    have i: "mgr_inv (ac_others env 0 m)" using o [of m 0] assms(1) by (simp add: steady_def)
    then have "dom (mg_remotes (ac_others env 0 m)) \<subseteq> dom (mg_remotes (ac_others env 1 (ac_others env 0 m)))"
      using o [of "ac_others env 0 m" 1] by (simp add: steady_def grows_def)
    moreover have "r_uuid r = u" using mgr_inv_remote [OF i] that by (simp add: get_remote_def remote_wf_def)
    ultimately show ?thesis using that by (auto simp: update_remote_def get_remote_def split: option.split)
  qed
  note never = this
  show ?thesis
    by (auto simp: never simp del: One_nat_def simp: manual_connection_def Let_def split: option.split result.split prod.split remote_state.split)
qed

lemma offer_never_panics: "fst (process_transfer_op_request fresh now req m) \<noteq> Panic"
  by (auto simp: process_transfer_op_request_def transfer_from_request_def split: option.split prod.split result.split)

section \<open>The transfer that is named\<close>

text \<open>The identity and the number in a call about a transfer.\<close>

fun named :: "traffic \<Rightarrow> (string \<times> u64) option" where
  "named (StartTransferCall q others req) = Some (oi_ident req, oi_timestamp req)"
| "named (PauseTransferOp req) = Some (oi_ident req, oi_timestamp req)"
| "named (StopTransferCall q others req) = map_option (\<lambda>info. (oi_ident info, oi_timestamp info)) (si_info req)"
| "named (CancelTransferCall q others req) = Some (oi_ident req, oi_timestamp req)"
| "named _ = None"

fun alone_call :: "traffic \<Rightarrow> bool" where
  "alone_call (StartTransferCall q others req) \<longleftrightarrow> (\<forall>m. others m = m)"
| "alone_call (StopTransferCall q others req) \<longleftrightarrow> (\<forall>m. others m = m)"
| "alone_call (CancelTransferCall q others req) \<longleftrightarrow> (\<forall>m. others m = m)"
| "alone_call _ \<longleftrightarrow> True"

definition state_written :: "transfer option \<Rightarrow> string \<Rightarrow> string \<Rightarrow> manager \<Rightarrow> manager \<Rightarrow> bool" where
  "state_written found ru tu m m' \<longleftrightarrow>
     (\<exists>st. get_transfer ru tu m' = map_option (\<lambda>t. t\<lparr>t_state := st\<rparr>) (get_transfer ru tu m)) \<and>
     (get_transfer ru tu m' \<noteq> get_transfer ru tu m \<longrightarrow> get_transfer ru tu m = found)"

lemma state_same: "get_transfer ru tu m = Some t \<Longrightarrow> get_transfer ru tu m' = Some t \<Longrightarrow> state_written found ru tu m m'"
  by (auto simp: state_written_def intro: exI [of _ "t_state t"])

lemma state_written_update:
  assumes "mgr_inv m" and "transfer_by_protocol_id ident stamp m = Some u" and "get_transfer ru tu m = Some t"
    and "mg_remotes m' = mg_remotes m"
  shows "state_written (transfer_by_protocol_id ident stamp m) ru tu m
    (snd (update_transfer q (t_remote_uuid u) (t_uuid u) (\<lambda>t. t\<lparr>t_state := st\<rparr>) m'))"
proof -
  have u: "t_remote_uuid u = ident" "get_transfer ident (t_uuid u) m = Some u"
    using transfer_by_protocol_id_get [OF assms(1,2)] by simp_all
  have same: "get_transfer a b m' = get_transfer a b m" for a b using assms(4) by (simp add: get_transfer_def)
  let ?f = "\<lambda>t :: transfer. t\<lparr>t_state := st\<rparr>" and ?m = "snd (update_transfer q ident (t_uuid u) (\<lambda>t. t\<lparr>t_state := st\<rparr>) m')"
  have get: "get_transfer ru tu ?m = (if ru = ident \<and> tu = t_uuid u then map_option ?f (get_transfer ru tu m') else get_transfer ru tu m')"
    using transfers.get_modify [OF keeps_uuid_state(1) [of "\<lambda>_. st"], where k = "(ident, t_uuid u)" and s = m' and j = "(ru, tu)" and q = q]
    by simp
  show ?thesis
  proof (cases "ru = ident \<and> tu = t_uuid u")
    case True
    then have "get_transfer ru tu ?m = Some (?f t)" "u = t" using get assms(3) u(2) by (simp_all add: same)
    then show ?thesis using assms(2,3) u(1) by (auto simp: state_written_def)
  next
    case False
    then have "get_transfer ru tu ?m = Some t" using get assms(3) by (auto simp: same)
    then show ?thesis using state_same assms(3) u(1) by simp
  qed
qed

lemma start_written:
  assumes "mgr_inv m" and "get_transfer ru tu m = Some t"
  shows "state_written (transfer_by_protocol_id (oi_ident req) (oi_timestamp req) m) ru tu m
    (snd (start_transfer q (\<lambda>m. m) req m))"
proof (cases "transfer_by_protocol_id (oi_ident req) (oi_timestamp req) m")
  case (Some u)
  obtain r m1 where r: "update_transfer q (t_remote_uuid u) (t_uuid u) (\<lambda>t. t\<lparr>t_state := InProgress\<rparr>) m = (r, m1)" by force
  have "state_written (transfer_by_protocol_id (oi_ident req) (oi_timestamp req) m) ru tu m m1"
    using state_written_update [OF assms(1) Some assms(2) refl, of q InProgress] r by simp
  then show ?thesis using Some r state_same [OF assms(2,2)]
    by (cases "t_kind u"; cases r) (simp_all add: start_transfer_def)
qed (simp add: start_transfer_def state_same [OF assms(2,2)])

lemma stop_written:
  assumes "mgr_inv m" and "get_transfer ru tu m = Some t" and "si_info req = Some info"
  shows "state_written (transfer_by_protocol_id (oi_ident info) (oi_timestamp info) m) ru tu m
    (snd (handle_stop_transfer q (\<lambda>m. m) req m))"
proof (cases "transfer_by_protocol_id (oi_ident info) (oi_timestamp info) m")
  case (Some u)
  have "mg_remotes (cancel_outgoing u m) = mg_remotes m" by simp
  then show ?thesis
    using state_written_update [OF assms(1) Some assms(2)] Some assms(3) by (simp add: handle_stop_transfer_def)
qed (simp add: handle_stop_transfer_def assms(3) state_same [OF assms(2,2)])

lemma cancel_written:
  assumes "mgr_inv m" and "get_transfer ru tu m = Some t"
  shows "state_written (transfer_by_protocol_id (oi_ident req) (oi_timestamp req) m) ru tu m
    (snd (cancel_transfer_op_request q (\<lambda>m. m) req m))"
proof (cases "transfer_by_protocol_id (oi_ident req) (oi_timestamp req) m")
  case (Some u)
  then show ?thesis
    using state_written_update [OF assms(1) Some assms(2) refl] state_same [OF assms(2,2)]
    by (simp add: cancel_transfer_op_request_def)
qed (simp add: cancel_transfer_op_request_def state_same [OF assms(2,2)])

section \<open>Properties\<close>

text \<open>
  C9. Peers cannot break the manager. From a server that was built, whatever requests arrive at both
  gRPC services, whatever services are resolved or removed, whatever connections are asked for and
  whatever the loops and other tasks do, in whatever order and with whatever contents, the
  invariant of the manager holds: every remote is filed under its UUID and has a worker, its
  transfers are distinct and name it, and every event is about a known remote.
\<close>

theorem traffic_keeps_invariant:
  assumes "server_build cr now daemon b = Ok sv"
    and "served.ok_run (registration_server_of sv) (warp_server_of sv) xs (sv_remotes sv)"
  shows "mgr_inv (fold (\<lambda>x m. snd (serve (registration_server_of sv) (warp_server_of sv) x m)) xs (sv_remotes sv))"
  using built_server_consistent [OF assms(1)] assms(2) by (intro served.run_inv) simp

text \<open>
  C11. Which requests make a handler panic: only a registration with a well-formed address and a port
  that does not fit into 16 bits, of a peer that is not connected at the time. No other request,
  event, connection or loop iteration panics, whatever it holds.
\<close>

theorem requests_panic_exactly:
  assumes "mgr_inv m" and "traffic_ok x m"
  shows "fst (serve rs ws x m) = Panic \<longleftrightarrow>
    (\<exists>env describe req. x = RegisterService env describe req \<and> parse_ip (sr_ip req) \<noteq> None \<and> oversized req \<and>
       (\<forall>r. get_remote (sr_service_id req) (ac_others env 0 m) = Some r \<longrightarrow> r_state r \<noteq> Connected))"
  using assms(2) register_panics [OF assms(1)] manual_never_panics [OF assms(1)] offer_never_panics
  by (cases x) simp_all

text \<open>
  C10. A call that names a transfer by an identity and a number (to start, pause, stop or cancel it)
  removes no transfer and changes nothing of any transfer but the state, and that only of the one
  filed first under that identity with that number, whatever the other remotes have.
\<close>

theorem calls_change_named_transfer:
  assumes "mgr_inv m" and "named x = Some (ident, stamp)" and "alone_call x" and "get_transfer ru tu m = Some t"
  shows "\<exists>st. get_transfer ru tu (snd (serve rs ws x m)) = Some (t\<lparr>t_state := st\<rparr>) \<and>
    (st \<noteq> t_state t \<longrightarrow> ru = ident \<and> t_protocol_id t = stamp \<and> transfer_by_protocol_id ident stamp m = Some t)"
proof -
  have "state_written (transfer_by_protocol_id ident stamp m) ru tu m (snd (serve rs ws x m))"
  proof (cases x)
    case (StartTransferCall q others req)
    then have "others = (\<lambda>m. m)" using assms(3) by auto
    then show ?thesis using start_written [OF assms(1,4), of req q] StartTransferCall assms(2) by simp
  next
    case (StopTransferCall q others req)
    then have "others = (\<lambda>m. m)" using assms(3) by auto
    then show ?thesis using stop_written [OF assms(1,4), of req] StopTransferCall assms(2) by auto
  next
    case (CancelTransferCall q others req)
    then have "others = (\<lambda>m. m)" using assms(3) by auto
    then show ?thesis using cancel_written [OF assms(1,4), of req q] CancelTransferCall assms(2) by simp
  qed (use assms(2) state_same [OF assms(4,4)] in simp_all)
  then obtain st where st: "get_transfer ru tu (snd (serve rs ws x m)) = Some (t\<lparr>t_state := st\<rparr>)"
    "t\<lparr>t_state := st\<rparr> \<noteq> t \<longrightarrow> transfer_by_protocol_id ident stamp m = Some t"
    using assms(4) by (auto simp: state_written_def)
  have "st \<noteq> t_state t \<Longrightarrow> t\<lparr>t_state := st\<rparr> \<noteq> t" by (metis transfer.select_convs(4) transfer.surjective transfer.update_convs(4))
  moreover have "ru = ident \<and> t_protocol_id t = stamp" if "transfer_by_protocol_id ident stamp m = Some t"
  proof -
    have "t_remote_uuid t = ru"
    proof -
      obtain r where "mg_remotes m ru = Some r" "find (has_uuid tu) (r_transfers r) = Some t"
        using assms(4) by (auto simp: get_transfer_def split: option.splits)
      then show ?thesis using mgr_inv_remote [OF assms(1)] find_Some_prop by (fastforce simp: remote_wf_def)
    qed
    then show ?thesis using transfer_by_protocol_id_get [OF assms(1) that] by simp
  qed
  ultimately show ?thesis using st by blast
qed

section \<open>A machine\<close>

definition sample_services :: "registration_server \<times> warp_server" where
  "sample_services =
     (registration_server_new \<lparr>au_group_code = ''Warpinator'', au_cert_pem = [1], au_private_key_pem = [2]\<rparr>
        (mg_registration sample_manager),
      warp_server_new sample_user protocol_config_default)"

definition huge_port :: service_registration where
  "huge_port = \<lparr>sr_service_id = ''peer'', sr_ip = ipv4_text 7, sr_port = 65536, sr_hostname = ''new'',
     sr_api_version = 2, sr_auth_port = 50001, sr_ipv6 = []\<rparr>"

lemma orderly_id [simp]: "orderly (\<lambda>m. m)"
  by (simp add: orderly_def)

lemma sample_access_orderly: "orderly_access sample_access"
  by (simp add: orderly_access_def orderly_shared_def sample_access_def answering_def shared_of_def)

definition peer_call :: op_info where
  "peer_call = \<lparr>oi_ident = ''peer'', oi_timestamp = 7, oi_readable_name = [], oi_use_compression = False\<rparr>"

text \<open>A peer registers with a port that does not fit, then calls for transfers nobody has, and goes away.\<close>

definition sample_traffic :: "traffic list" where
  "sample_traffic =
     [RegisterService sample_access (\<lambda>e. []) (huge_port\<lparr>sr_port := 42000\<rparr>),
      RegisterService sample_access (\<lambda>e. []) huge_port, StartTransferCall 0 (\<lambda>m. m) peer_call,
      CancelTransferCall 0 (\<lambda>m. m) peer_call,
      SendTextMessage ''x1'' 5 \<lparr>tm_ident = ''peer'', tm_timestamp = 6, tm_message = ''hello''\<rparr>,
      ServiceEvent sample_access (ServiceRemoved service_domain ''peer''), WorkerIteration ''peer'' 0 LoopChanged]"

lemma traffic_keeps_invariant_witness:
  "\<exists>sv. server_build sample_crypto 1000 (Ok ()) sample_builder = Ok sv \<and>
    mgr_inv (fold (\<lambda>x m. snd (serve (registration_server_of sv) (warp_server_of sv) x m)) sample_traffic (sv_remotes sv))"
proof -
  obtain sv where sv: "server_build sample_crypto 1000 (Ok ()) sample_builder = Ok sv" using sample_build by blast
  have "served.ok_run (registration_server_of sv) (warp_server_of sv) sample_traffic (sv_remotes sv)"
    unfolding sample_traffic_def served.ok_run.simps by (simp add: sample_access_orderly)
  from traffic_keeps_invariant [OF sv this] sv show ?thesis by blast
qed

lemma known_manager_inv: "mgr_inv known_manager"
  unfolding known_manager_def
  by (rule mgr_inv_add_remote [OF mgr_inv_new [OF sample_manager_new]]) (simp add: sample_remote_def)

lemma requests_panic_exactly_witness:
  "fst (serve (fst sample_services) (snd sample_services) (RegisterService sample_access (\<lambda>e. []) huge_port) known_manager) = Panic"
proof -
  have "traffic_ok (RegisterService sample_access (\<lambda>e. []) huge_port) known_manager"
    by (simp add: sample_access_orderly)
  moreover have "oversized huge_port" "parse_ip (sr_ip huge_port) = Some (V4 7)" "sr_service_id huge_port = ''peer''"
    by (simp_all add: oversized_def huge_port_def parse_ipv4_text)
  moreover have "get_remote ''peer'' (ac_others sample_access 0 known_manager) = Some sample_remote"
    using known_manager_facts(1) sample_access_calm by (simp add: get_remote_def)
  moreover have "r_state sample_remote \<noteq> Connected" by (simp add: sample_remote_def remote_new_def)
  ultimately show ?thesis
    using requests_panic_exactly [OF known_manager_inv, of "RegisterService sample_access (\<lambda>e. []) huge_port"] by simp
qed

lemma calls_change_named_transfer_witness:
  "\<exists>st. get_transfer ''peer'' ''t1''
      (snd (serve (fst sample_services) (snd sample_services) (CancelTransferCall 0 (\<lambda>m. m) peer_call) receiving_manager))
    = Some (sample_incoming\<lparr>t_state := st\<rparr>)"
proof -
  have "named (CancelTransferCall 0 (\<lambda>m. m) peer_call) = Some (''peer'', 7)" "alone_call (CancelTransferCall 0 (\<lambda>m. m) peer_call)"
    by (simp_all add: peer_call_def)
  from calls_change_named_transfer [OF receiving_manager_inv this sample_pair(2)] show ?thesis by blast
qed

end
