(* ===== verification/Warp_Service.thy ===== *)
theory Warp_Service
  imports Warp_Requests
begin

text \<open>
  What the handlers of the Warp service promise: no request makes the transfer handler panic, when
  the duplex handler answers yes, and that messages and pictures reach the other side.
\<close>

text \<open>
  The two \<open>expect\<close>s of \<open>From<TransferOpRequest>\<close> are unreachable from the service: the handler
  answers every request, with or without an \<open>OpInfo\<close>, by a status or by success.
\<close>

lemma transfer_request_never_panics:
  "fst (process_transfer_op_request fresh now req m) \<noteq> Panic"
  by (auto simp: process_transfer_op_request_def transfer_from_request_def
      split: option.splits prod.splits result.splits)

text \<open>
  C35. The duplex handler answers yes exactly when it finds the remote awaiting the duplex or connected
  at once, or (if the remote is neither) when an event about the remote is received at a moment at
  which it is so, with no deadline and no lag of the event queue before. It spawns a connection
  exactly when the remote is known, disconnected or in an error state, and has a worker.
\<close>

theorem duplex_answer_exact:
  "(snd (waiting_for_duplex req m xs) = Some True \<longleftrightarrow>
      (\<exists>r. get_remote (ln_id req) m = Some r \<and> duplex_ready (r_state r)) \<or> duplex_hit (ln_id req) xs
        \<and> (\<forall>r. get_remote (ln_id req) m = Some r \<longrightarrow> \<not> duplex_ready (r_state r)))
   \<and> (fst (waiting_for_duplex req m xs) = Some i \<longleftrightarrow>
      (\<exists>r. get_remote (ln_id req) m = Some r \<and> get_worker (ln_id req) m = Some i
        \<and> (r_state r = Disconnected \<or> (\<exists>e. r_state r = RS_Error e))))"
proof (cases "get_remote (ln_id req) m")
  case None
  then show ?thesis by (simp add: waiting_for_duplex_def duplex_loop_True)
next
  case (Some r)
  then show ?thesis
    by (cases "r_state r") (auto simp: waiting_for_duplex_def duplex_loop_True duplex_ready_def Let_def)
qed

definition connecting_manager :: manager where
  "connecting_manager = snd (update_remote ''peer'' (\<lambda>r. r\<lparr>r_state := AwaitingDuplex\<rparr>) known_manager)"

theorem duplex_answer_witness:
  "snd (waiting_for_duplex \<lparr>ln_id = ''peer'', ln_readable_name = []\<rparr> known_manager
     [EventReceived (RemoteUpdated ''peer'') connecting_manager]) = Some True"
proof -
  have "duplex_hit ''peer'' [EventReceived (RemoteUpdated ''peer'') connecting_manager]"
    by (simp add: duplex_hit_Cons event_reports_duplex_def remote_event_for_def get_remote_def
        connecting_manager_def known_manager_facts duplex_ready_def)
  moreover have "\<not> duplex_ready (r_state sample_remote)"
    by (simp add: sample_remote_def remote_new_def duplex_ready_def)
  ultimately show ?thesis
    using duplex_answer_exact [of "\<lparr>ln_id = ''peer'', ln_readable_name = []\<rparr>" known_manager]
    by (simp add: get_remote_def known_manager_facts)
qed

section \<open>Messages\<close>

lemma add_message_known:
  "mg_remotes m u = Some r \<Longrightarrow> \<exists>m'. add_message u x m = (Ok (), m') \<and>
    get_messages u m' = Some (r_messages r @ [x])"
  by (simp add: add_message_def get_messages_def)

text \<open>
  A message is recorded on both sides or on neither: when the receiver supports messages the
  sender's record ends with the sent message and the receiver's with the same text received from the
  sender; otherwise the call fails and both managers are as they were.
\<close>

theorem message_recorded_on_both_sides:
  assumes "alone env" and "worker_client i ma = Some c"
    and "mg_remotes ma peer = Some ra" and "mg_remotes mb (mg_fullname ma) = Some rb"
    and "msg = message_new ua ta peer Sent text"
    and "send_text_message pc ub tb (message_as_proto msg (mg_fullname ma)) mb = (answer, mb')"
    and "send_message env ua ta answer peer i text ma = (r, ma')"
  shows "if features_contains (pc_features pc) message_support
    then r = Ok () \<and> get_messages peer ma' = Some (r_messages ra @ [msg]) \<and>
      get_messages (mg_fullname ma) mb' =
        Some (r_messages rb @ [message_new ub tb (mg_fullname ma) Received text])
    else (\<exists>s. r = Err (RemoteFailed s)) \<and> ma' = ma \<and> mb' = mb"
proof (cases "features_contains (pc_features pc) message_support")
  case True
  have proto: "message_from_proto ub tb (message_as_proto msg (mg_fullname ma)) =
      message_new ub tb (mg_fullname ma) Received text" "tm_ident (message_as_proto msg (mg_fullname ma)) = mg_fullname ma"
    by (simp_all add: assms(5) message_from_proto_def message_as_proto_def message_new_def)
  obtain m1 where 1: "add_message (mg_fullname ma) (message_new ub tb (mg_fullname ma) Received text) mb
      = (Ok (), m1)" "get_messages (mg_fullname ma) m1 =
      Some (r_messages rb @ [message_new ub tb (mg_fullname ma) Received text])"
    using add_message_known [OF assms(4)] by blast
  obtain m2 where 2: "add_message peer msg ma = (Ok (), m2)" "get_messages peer m2 = Some (r_messages ra @ [msg])"
    using add_message_known [OF assms(3)] by blast
  have "answer = Ok ()" "mb' = m1"
    using assms(6) True proto 1(1) by (simp_all add: send_text_message_def)
  moreover have "r = Ok ()" "ma' = m2"
    using assms(2,5,7) 2(1) calculation(1)
    by (simp_all add: send_message_def alone_simps [OF assms(1)] update_or_fail_def Let_def)
  ultimately show ?thesis using True 1(2) 2(2) by simp
next
  case False
  then have "answer = Err (Status Unimplemented ''Messaging feature is disabled'')" "mb' = mb"
    using assms(6) by (simp_all add: send_text_message_def)
  then show ?thesis
    using False assms(2,7) by (auto simp: send_message_def alone_simps [OF assms(1)] Let_def)
qed

theorem message_recorded_witness:
  "\<exists>answer mb' r ma'.
    send_text_message protocol_config_default ''x2'' 6
      (message_as_proto (message_new ''x1'' 5 ''peer'' Sent ''hi'') (mg_fullname connected_manager))
      other_manager = (answer, mb') \<and>
    send_message calm ''x1'' 5 answer ''peer'' 0 ''hi'' connected_manager = (r, ma') \<and> r = Ok () \<and>
    get_messages ''me'' mb' = Some [message_new ''x2'' 6 ''me'' Received ''hi'']"
proof -
  obtain answer mb' where 1: "send_text_message protocol_config_default ''x2'' 6
      (message_as_proto (message_new ''x1'' 5 ''peer'' Sent ''hi'') (mg_fullname connected_manager))
      other_manager = (answer, mb')" by force
  obtain r ma' where 2: "send_message calm ''x1'' 5 answer ''peer'' 0 ''hi'' connected_manager = (r, ma')" by force
  have "mg_remotes other_manager (mg_fullname connected_manager) =
      Some (remote_new ''me'' (V4 2) 42000 42001 ''me'' ''other'')"
    by (simp add: connected_manager_facts)
  from message_recorded_on_both_sides [OF calm_alone connected_manager_facts(1,2) this refl 1 2] 1 2
  show ?thesis
    using features_default_supports_messages connected_manager_facts(4)
    by (auto simp: protocol_config_default_def remote_new_def)
qed

section \<open>Pictures\<close>

text \<open>
  C38. A picture set by the user reaches the other side whole: the avatar stream carries it in chunks
  of at most 64 KiB, the fetching worker stores exactly its bytes and counts a new version (modulo
  256); no picture, or an empty one, clears what was stored.
\<close>

theorem avatar_reaches_remote:
  assumes "alone (shared_of env)" and "worker_client i m = Some c" and "mg_remotes m uuid = Some r"
    and "ce_avatar env = Ok (get_remote_machine_avatar uc, None)"
    and "fetch_avatar env uuid i m = (res, m')"
  shows "res = Ok () \<and> (\<forall>x \<in> set (get_remote_machine_avatar uc). x \<noteq> [] \<and> length x \<le> 65536) \<and>
    (\<exists>r'. mg_remotes m' uuid = Some r' \<and> r_picture_version r' = r_picture_version r + 1 \<and>
      r_picture r' = (case uc_picture uc of None \<Rightarrow> None | Some b \<Rightarrow> if b = [] then None else Some b))"
proof -
  have whole: "concat (get_remote_machine_avatar uc) = (case uc_picture uc of None \<Rightarrow> [] | Some b \<Rightarrow> b)"
    by (simp add: get_remote_machine_avatar_def avatar_chunk_size_def split: option.split)
  have chunks: "\<forall>x \<in> set (get_remote_machine_avatar uc). x \<noteq> [] \<and> length x \<le> 65536"
    using chunks_of_bounds [of avatar_chunk_size]
    by (auto simp: get_remote_machine_avatar_def avatar_chunk_size_def split: option.splits)
  obtain pic where pic: "pic = (if concat (get_remote_machine_avatar uc) \<noteq> []
      then Some (concat (get_remote_machine_avatar uc)) else None)" by simp
  have step: "fetch_avatar env uuid i m =
      (Ok (), send_event (RemoteUpdated uuid) (put_remote uuid (update_avatar pic r) m))"
    using assms(2-4)
    by (simp add: fetch_avatar_def alone_simps [OF assms(1)] update_or_fail_def update_remote_async_def
        pic Let_def del: concat_eq_Nil_conv)
  have "res = Ok ()" "mg_remotes m' uuid = Some (update_avatar pic r)"
    using step assms(5) by simp_all
  moreover have "r_picture (update_avatar pic r) = pic"
    "r_picture_version (update_avatar pic r) = r_picture_version r + 1"
    by (simp_all add: update_avatar_def Let_def split: option.split)
  moreover have "pic = (case uc_picture uc of None \<Rightarrow> None | Some b \<Rightarrow> if b = [] then None else Some b)"
    unfolding pic whole by (simp split: option.split)
  ultimately show ?thesis using chunks by simp
qed

definition avatar_env :: connect_env where
  "avatar_env = answering\<lparr>ce_avatar :=
     Ok (get_remote_machine_avatar (user_config_default\<lparr>uc_picture := Some [1, 2, 3]\<rparr>), None)\<rparr>"

theorem avatar_reaches_remote_witness:
  "\<exists>res m' r'. fetch_avatar avatar_env ''peer'' 0 connected_manager = (res, m') \<and>
    mg_remotes m' ''peer'' = Some r' \<and> r_picture r' = Some [1, 2, 3]"
proof -
  obtain res m' where f: "fetch_avatar avatar_env ''peer'' 0 connected_manager = (res, m')" by force
  have "alone (shared_of avatar_env)"
    by (simp add: alone_def shared_of_def avatar_env_def answering_def)
  moreover have "ce_avatar avatar_env =
      Ok (get_remote_machine_avatar (user_config_default\<lparr>uc_picture := Some [1, 2, 3]\<rparr>), None)"
    by (simp add: avatar_env_def)
  ultimately show ?thesis
    using avatar_reaches_remote [OF _ connected_manager_facts(1,2) _ f] f by fastforce
qed

end
