(* ===== verification/Warp_Examples.thy ===== *)
theory Warp_Examples
  imports Warp_Tui_Mirror Warp_Discovery
begin

text \<open>
  The two programs of \<open>examples\<close>: how \<open>run.rs\<close> and \<open>warpinator_tui.rs\<close> build their server from the
  environment, and the tasks that receive the manager's events. Environment variables, the file of
  the picture, the hostname, the addresses of the machine and the digest are arguments.
\<close>

section \<open>The server of the examples\<close>

record example_env =
  ee_var :: "string \<Rightarrow> string option"
  ee_read :: "string \<Rightarrow> bytes option"
  ee_hostname :: "string option"
  ee_local_v4 :: "ip_addr option"
  ee_local_v6 :: "ip_addr option"

definition group_code_of :: "example_env \<Rightarrow> string" where
  "group_code_of env = unwrap_or (ee_var env ''WARPINATOR_GROUP_CODE'') ''Warpinator''"

definition display_name_of :: "example_env \<Rightarrow> string" where
  "display_name_of env = unwrap_or (ee_var env ''WARPINATOR_DISPLAY_NAME'') ''Warpinator RS''"

definition picture_of :: "example_env \<Rightarrow> bytes option" where
  "picture_of env = Option.bind (ee_var env ''WARPINATOR_PICTURE'') (ee_read env)"

definition username_of :: "example_env \<Rightarrow> string" where
  "username_of env =
     (case ee_var env ''USER'' of
        Some u \<Rightarrow> u
      | None \<Rightarrow>
         (case ee_var env ''USERNAME'' of
            Some u \<Rightarrow> u
          | None \<Rightarrow> unwrap_or (ee_var env ''WARPINATOR_USERNAME'') ''warpinator-rs''))"

definition hostname_of :: "example_env \<Rightarrow> string" where
  "hostname_of env = unwrap_or (ee_hostname env) ''warpinator''"

text \<open>\<open>u64::from_be_bytes\<close> and \<open>{:X}\<close>\<close>

definition from_be_bytes :: "bytes \<Rightarrow> u64" where
  "from_be_bytes bs = fold (\<lambda>b acc. acc * 256 + ucast b) bs 0"

definition upper_hex_char :: "nat \<Rightarrow> char" where
  "upper_hex_char d = (if d < 10 then char_of (48 + d) else char_of (55 + d))"

fun upper_hex :: "nat \<Rightarrow> string" where
  "upper_hex n =
     (if n < 16 then [upper_hex_char n] else upper_hex (n div 16) @ [upper_hex_char (n mod 16)])"

declare upper_hex.simps [simp del]

definition service_id_of :: "(bytes \<Rightarrow> bytes) \<Rightarrow> example_env \<Rightarrow> string" where
  "service_id_of sha256 env =
     (let hash = sha256 (as_bytes (hostname_of env) @ as_bytes (username_of env) @
                         as_bytes (group_code_of env) @ as_bytes (display_name_of env))
      in ''WARPINATOR-'' @ upper_hex (unat (from_be_bytes (take 8 hash))))"

definition example_user_config :: "example_env \<Rightarrow> user_config" where
  "example_user_config env =
     (let b = fold user_set
          [SetDefaultBindV4 (ee_local_v4 env), SetDefaultBindV6 (ee_local_v6 env),
           SetHostname (hostname_of env), SetUsername (username_of env),
           SetDisplayName (display_name_of env), SetGroupCode (group_code_of env)] user_builder_new
      in user_build (case picture_of env of None \<Rightarrow> b | Some pic \<Rightarrow> user_set (SetPicture pic) b))"

definition example_server ::
  "crypto \<Rightarrow> int \<Rightarrow> (unit, string) result \<Rightarrow> example_env \<Rightarrow> (server, build_error) result" where
  "example_server cr now daemon env =
     server_build cr now daemon
       (fold server_set [SetUserConfig (example_user_config env),
          SetServiceName (service_id_of (cr_sha256 cr) env)] server_builder_new)"

lemma upper_hex_dotless: "CHR ''.'' \<notin> set (upper_hex n)"
proof (induction n rule: upper_hex.induct)
  case (1 n)
  have "upper_hex_char d \<noteq> CHR ''.''" if "d < 16" for d
  proof
    assume "upper_hex_char d = CHR ''.''"
    then have "of_char (upper_hex_char d) = (46 :: nat)" by simp
    then show False using that by (auto simp: upper_hex_char_def split: if_splits)
  qed
  then have "upper_hex_char (n mod 16) \<noteq> CHR ''.''" "n < 16 \<Longrightarrow> upper_hex_char n \<noteq> CHR ''.''" by simp_all
  then show ?case using 1 by (subst upper_hex.simps) auto
qed

text \<open>The instance name of an example is one that discovery finds again.\<close>

lemma service_id_dotless: "CHR ''.'' \<notin> set (service_id_of sha256 env)"
  using upper_hex_dotless by (simp add: service_id_of_def Let_def)

text \<open>
  The examples need an IPv4 address, unless the machine has no address at all: with only an IPv6
  address the server is not built, and the programs end (\<open>warpinator_tui\<close> by a panic).
\<close>

lemma example_binds:
  "uc_bind_addr_v4 (example_user_config env) = None \<longleftrightarrow>
    ee_local_v4 env = None \<and> ee_local_v6 env \<noteq> None"
  by (auto simp: example_user_config_def user_build_def user_builder_new_def Let_def split: option.splits)

lemma ipv6_only_example_fails:
  "ee_local_v4 env = None \<Longrightarrow> ee_local_v6 env \<noteq> None \<Longrightarrow>
    example_server cr now daemon env = Err BE_MissingBindAddress"
  using example_binds [of env]
  by (simp add: example_server_def server_build_def server_builder_new_def Let_def)

lemma example_server_name:
  "example_server cr now daemon env = Ok sv \<Longrightarrow> sv_service_name sv = service_id_of (cr_sha256 cr) env"
  by (auto simp: example_server_def server_build_def server_builder_new_def Let_def
      split: option.splits result.splits)

text \<open>Two running examples find each other: the announcement of one makes it known to the other.\<close>

lemma example_is_discovered:
  assumes "example_server cr now daemon ex = Ok sv" and "service_info_of sv = Some si"
    and "resolves si s" and "calm_access env" and "peaceful (ac_connect env)"
    and "handle_new_service env s m = (res, m')"
  shows "map_option (\<lambda>r. (r_ip r, r_port r, r_hostname r, r_service_available r))
      (get_remote (service_id_of (cr_sha256 cr) ex) m') =
    Some (si_ip si, uc_port (sv_user_config sv), uc_hostname (sv_user_config sv), True)"
proof -
  have name: "sv_service_name sv = service_id_of (cr_sha256 cr) ex" by (rule example_server_name [OF assms(1)])
  have "CHR ''.'' \<notin> set (sv_service_name sv)" unfolding name by (rule service_id_dotless)
  from announced_whereabouts [OF assms(2,3) this assms(4-6)] show ?thesis
    by (auto simp: name whereabouts_def)
qed

section \<open>Receiving events\<close>

text \<open>
  What \<open>recv()\<close> on the broadcast channel gives: an event, \<open>Lagged\<close> when the receiver missed some,
  or \<open>Closed\<close>. The manager beside an event is its state when the task reads it.
\<close>

datatype received = Received_Event warp_event manager | Received_Lagged | Received_Closed

text \<open>\<open>warpinator_tui\<close>: the loop ends when \<open>recv()\<close> or the sending fails; \<open>ok\<close> says the latter does not.\<close>

fun forward_events :: "(received \<times> bool) list \<Rightarrow> app_event list" where
  "forward_events [] = []"
| "forward_events ((Received_Event ev m, ok) # rest) =
     (case hydrate ev m of
        None \<Rightarrow> forward_events rest
      | Some x \<Rightarrow> if ok then x # forward_events rest else [])"
| "forward_events ((Received_Lagged, ok) # rest) = []"
| "forward_events ((Received_Closed, ok) # rest) = []"

text \<open>A receiver that falls behind once gets nothing any more: the interface freezes.\<close>

lemma lagging_ends_forwarding:
  "forward_events (xs @ (Received_Lagged, ok) # ys) = forward_events xs"
  by (induction xs rule: forward_events.induct) (auto split: option.splits)

text \<open>\<open>run.rs\<close>: what is printed, \<open>Panic\<close> where an \<open>expect\<close> fails.\<close>

datatype printed =
    PrintRemoteAdded remote
  | PrintRemoteUpdated string remote_state
  | PrintTransferAdded string string transfer
  | PrintTransferUpdated string string
  | PrintTransferRemoved string string

definition print_event :: "warp_event \<Rightarrow> manager \<Rightarrow> printed option outcome" where
  "print_event ev m =
     (case ev of
        RemoteAdded u \<Rightarrow>
         (case get_remote u m of None \<Rightarrow> Panic | Some r \<Rightarrow> Return (Some (PrintRemoteAdded r)))
      | RemoteUpdated u \<Rightarrow>
         (case get_remote u m of None \<Rightarrow> Panic | Some r \<Rightarrow> Return (Some (PrintRemoteUpdated u (r_state r))))
      | TransferAdded ru tu \<Rightarrow>
         (case get_transfer ru tu m of
            None \<Rightarrow> Panic | Some t \<Rightarrow> Return (Some (PrintTransferAdded tu ru t)))
      | TransferUpdated ru tu \<Rightarrow> Return (Some (PrintTransferUpdated tu ru))
      | TransferRemoved ru tu \<Rightarrow> Return (Some (PrintTransferRemoved tu ru))
      | MessageAdded ru mu \<Rightarrow> Return None
      | MessageRemoved ru mu \<Rightarrow> Return None)"

fun print_events :: "received list \<Rightarrow> printed list outcome" where
  "print_events [] = Return []"
| "print_events (Received_Event ev m # rest) =
     (case print_event ev m of
        Panic \<Rightarrow> Panic
      | Return p \<Rightarrow>
         (case print_events rest of
            Panic \<Rightarrow> Panic
          | Return ps \<Rightarrow> Return ((case p of None \<Rightarrow> [] | Some x \<Rightarrow> [x]) @ ps)))"
| "print_events (Received_Lagged # rest) = Return []"
| "print_events (Received_Closed # rest) = Return []"

text \<open>
  The \<open>expect\<close>s on remotes hold, since remotes are never removed: an event that was sent names a
  remote known then and later.
\<close>

lemma remote_events_print:
  assumes "mgr_inv m" and "ev \<in> set (mg_events m)" and "ev = RemoteAdded u \<or> ev = RemoteUpdated u"
  shows "print_event ev m \<noteq> Panic"
proof -
  have "u \<in> dom (mg_remotes m)" using assms by (auto simp: mgr_inv_def)
  then show ?thesis using assms(3) by (auto simp: print_event_def get_remote_def)
qed

text \<open>The one on transfers does not: a transfer removed before its first event is read panics the task.\<close>

lemma removed_transfer_panics_printer:
  "print_events (map (\<lambda>ev. Received_Event ev (fold mgr_step sample_ops sample_manager))
      (mg_events (fold mgr_step sample_ops sample_manager))) = Panic"
  by (simp add: mirror_sample print_event_def get_remote_def)

section \<open>The log of the terminal interface\<close>

text \<open>
  \<open>TuiLogWriter::write\<close>: the line that is offered to the channel, if any, and the length returned.
  \<open>utf8\<close> says whether the buffer is valid UTF-8.
\<close>

definition log_write :: "(string \<Rightarrow> bool) \<Rightarrow> string \<Rightarrow> app_event option \<times> nat" where
  "log_write utf8_ok buf =
     (let line = trim_end_matches [CHR 0x0A] buf
      in (if utf8_ok buf \<and> line \<noteq> [] then Some (AE_Log line) else None, length buf))"

end
