(* ===== verification/Warp_Terminal.thy ===== *)
theory Warp_Terminal
  imports Warp_Examples Warp_Tui_Inv
begin

text \<open>
  The \<open>main\<close> functions of the two examples: what they start, what they do to the terminal, how they
  end, and what an error on the way leaves undone.
\<close>

section \<open>The terminal reader\<close>

text \<open>
  A turn of the reader's loop: the flag \<open>running\<close>, whether the channel holds the shutdown message,
  and how the blocking \<open>read\<close> ends: with an event and the success of \<open>blocking_send\<close>, with an error,
  or not at all. The result is what was sent, and whether the task ended.
\<close>

datatype 'e reading = EventRead 'e bool | ReadError | StillBlocked

record 'e reader_turn =
  rt_running :: bool
  rt_shutdown :: bool
  rt_reading :: "'e reading"

fun terminal_reader :: "'e reader_turn list \<Rightarrow> 'e list \<times> bool" where
  "terminal_reader [] = ([], False)"
| "terminal_reader (t # ts) =
     (if \<not> rt_running t \<or> rt_shutdown t then ([], True)
      else case rt_reading t of
             EventRead e ok \<Rightarrow>
               if ok then (case terminal_reader ts of (es, ended) \<Rightarrow> (e # es, ended)) else ([], True)
           | ReadError \<Rightarrow> terminal_reader ts
           | StillBlocked \<Rightarrow> ([], False))"

section \<open>The terminal interface\<close>

datatype terminal_op = EnableRawMode | EnterAlternateScreen | NewTerminal | DisableRawMode | LeaveAlternateScreen | ShowCursor

datatype main_action =
    SpawnServer server
  | SpawnReader
  | SpawnForwarder
  | InstallLog
  | TerminalOp terminal_op
  | StopReader
  | SignalShutdown

text \<open>Calls with question marks: up to the first that fails, which is still made.\<close>

fun in_turn :: "(terminal_op \<Rightarrow> (unit, string) result) \<Rightarrow> terminal_op list \<Rightarrow> (unit, string) result \<times> main_action list" where
  "in_turn answer [] = (Ok (), [])"
| "in_turn answer (c # cs) =
     (case answer c of
        Err e \<Rightarrow> (Err e, [TerminalOp c])
      | Ok u \<Rightarrow> (case in_turn answer cs of (r, acts) \<Rightarrow> (r, TerminalOp c # acts)))"

text \<open>The server is configured and built as in \<open>run.rs\<close>, but with an \<open>expect\<close>.\<close>

definition tui_server :: "crypto \<Rightarrow> int \<Rightarrow> (unit, string) result \<Rightarrow> example_env \<Rightarrow> server outcome" where
  "tui_server cr now daemon env = (case example_server cr now daemon env of Err e \<Rightarrow> Panic | Ok sv \<Rightarrow> Return sv)"

text \<open>
  \<open>main\<close> once the server is built. Its result is \<open>None\<close> when it waits for ever for the
  reader (whose turns are \<open>ts\<close>), and a panic when the server cannot be built or the loop panics.
\<close>

definition tui_main ::
  "server outcome \<Rightarrow> (terminal_op \<Rightarrow> (unit, string) result) \<Rightarrow> tui_input list \<Rightarrow> 'e reader_turn list
    \<Rightarrow> (unit, string) result outcome option \<times> main_action list" where
  "tui_main built answer inputs ts =
     (case built of
        Panic \<Rightarrow> (Some Panic, [])
      | Return sv \<Rightarrow>
         (let spawned = [SpawnServer sv, SpawnReader, SpawnForwarder, InstallLog]
          in case in_turn answer [EnableRawMode, EnterAlternateScreen, NewTerminal] of
               (Err e, acts) \<Rightarrow> (Some (Return (Err e)), spawned @ acts)
             | (Ok u, acts) \<Rightarrow>
                (case tui_result inputs (app_log ''warpinator-tui started'' app_new) of
                   Panic \<Rightarrow> (Some Panic, spawned @ acts)
                 | Return result \<Rightarrow>
                    (if \<not> snd (terminal_reader ts) then (None, spawned @ acts @ [StopReader])
                     else case in_turn answer [DisableRawMode, LeaveAlternateScreen, ShowCursor] of
                            (Err e, acts2) \<Rightarrow> (Some (Return (Err e)), spawned @ acts @ [StopReader] @ acts2)
                          | (Ok u, acts2) \<Rightarrow>
                              (Some (Return result), spawned @ acts @ [StopReader] @ acts2 @ [SignalShutdown])))))"

section \<open>How they end\<close>

lemma tui_result_returns:
  "tui_run xs a = Return (b, cmds) \<Longrightarrow> \<exists>r. tui_result xs a = Return r"
proof (induction xs a arbitrary: b cmds rule: tui_run.induct)
  case (6 dest code xs a)
  then show ?case by (auto split: outcome.splits bool.splits prod.splits)
qed simp_all

lemma tui_result_started: "\<exists>r. tui_result xs (app_log ''warpinator-tui started'' app_new) = Return r"
proof -
  have "tui_inv (app_log ''warpinator-tui started'' app_new)" by (rule tui_inv_app_log [OF tui_inv_new])
  from tui_run_inv [OF this, of xs] show ?thesis using tui_result_returns by (elim exE conjE)
qed

text \<open>The loop never panics, so neither does \<open>main\<close> once it has a server.\<close>

lemma tui_main_never_panics: "fst (tui_main (Return sv) answer inputs ts) \<noteq> Some Panic"
proof -
  obtain r where "tui_result inputs (app_log ''warpinator-tui started'' app_new) = Return r"
    using tui_result_started by blast
  moreover obtain x acts where "in_turn answer [EnableRawMode, EnterAlternateScreen, NewTerminal] = (x, acts)" by force
  moreover obtain y acts2 where "in_turn answer [DisableRawMode, LeaveAlternateScreen, ShowCursor] = (y, acts2)" by force
  ultimately show ?thesis by (cases x; cases y) (simp_all add: tui_main_def Let_def del: in_turn.simps)
qed

text \<open>
  The reader ends at a turn that finds the flag cleared or the message sent; a turn that began before
  the flag was cleared ends only with its \<open>read\<close>, that is with another event of the terminal. Until
  then \<open>main\<close> waits, after the key that quits, with the terminal still in raw mode.
\<close>

definition goes_on :: "'e reader_turn \<Rightarrow> bool" where
  "goes_on t \<longleftrightarrow> rt_running t \<and> \<not> rt_shutdown t \<and>
     (case rt_reading t of EventRead e ok \<Rightarrow> ok | ReadError \<Rightarrow> True | StillBlocked \<Rightarrow> False)"

lemma reader_goes_on: "list_all goes_on ts \<Longrightarrow> snd (terminal_reader (ts @ us)) = snd (terminal_reader us)"
proof (induction ts)
  case (Cons t ts)
  then show ?case by (cases "rt_reading t") (simp_all add: goes_on_def case_prod_beta)
qed simp

lemma quitting_waits_for_an_event:
  fixes ts :: "'e reader_turn list"
  assumes "list_all goes_on ts"
    and "in_turn answer [EnableRawMode, EnterAlternateScreen, NewTerminal] = (Ok (), acts)"
    and "tui_main (Return sv) answer inputs (ts @ [\<lparr>rt_running = True, rt_shutdown = False, rt_reading = StillBlocked\<rparr>]) = (r, acted)"
  shows "r = None \<and> TerminalOp DisableRawMode \<notin> set acted"
proof -
  let ?ts = "ts @ [\<lparr>rt_running = True, rt_shutdown = False, rt_reading = StillBlocked\<rparr>]"
  have "\<not> snd (terminal_reader ?ts)" using reader_goes_on [OF assms(1)] by simp
  moreover obtain x where "tui_result inputs (app_log ''warpinator-tui started'' app_new) = Return x"
    using tui_result_started by blast
  moreover have "TerminalOp DisableRawMode \<notin> set acts"
    using assms(2) by (auto split: result.splits prod.splits)
  ultimately show ?thesis using assms(2,3) by (auto simp: tui_main_def Let_def simp del: in_turn.simps)
qed

text \<open>An error between raw mode and the loop returns at once and leaves the terminal as it is.\<close>

lemma failed_setup_keeps_raw_mode:
  assumes "answer EnableRawMode = Ok ()" and "answer EnterAlternateScreen = Err e \<or> answer NewTerminal = Err e"
    and "tui_main (Return sv) answer inputs ts = (r, acted)"
  shows "(\<exists>e. r = Some (Return (Err e))) \<and> TerminalOp EnableRawMode \<in> set acted \<and> TerminalOp DisableRawMode \<notin> set acted"
  using assms by (auto simp: tui_main_def Let_def split: result.splits)

section \<open>The command-line example\<close>

datatype run_error = RunBuildFailed build_error | RunServeFailed serve_error

text \<open>
  \<open>run.rs\<close>: the server that is served until ctrl-c (or until it ends otherwise), and the line that is
  printed after it.
\<close>

definition run_main ::
  "(server, build_error) result \<Rightarrow> (unit, string) result \<Rightarrow> (unit, string) result \<Rightarrow> serve_end
    \<Rightarrow> (string, run_error) result \<times> server_action list" where
  "run_main built valid register ends =
     (case built of
        Err e \<Rightarrow> (Err (RunBuildFailed e), [])
      | Ok sv \<Rightarrow>
         (case serve_with_shutdown valid register ends sv of
            (Err e, acts) \<Rightarrow> (Err (RunServeFailed e), acts)
          | (Ok u, acts) \<Rightarrow> (Ok ''Shutting down...'', acts)))"

text \<open>On a machine with an IPv4 address, ctrl-c ends the example with its service withdrawn.\<close>

lemma interrupt_withdraws_service:
  assumes "example_server cr now daemon env = Ok sv"
    and "run_main (example_server cr now daemon env) (Ok ()) (Ok ()) (ShutdownSignal again) = (r, acts)"
  shows "r = Ok ''Shutting down...'' \<and> CancelRoot \<in> set acts \<and> ShutdownMdns \<in> set acts"
proof -
  obtain a where a: "uc_bind_addr_v4 (sv_user_config sv) = Some a"
    using built_server_consistent assms(1) unfolding example_server_def by blast
  obtain res acts' where s: "serve_with_shutdown (Ok ()) (Ok ()) (ShutdownSignal again) sv = (res, acts')" by force
  have "CancelRoot \<in> set acts'" "ShutdownMdns \<in> set acts'" using serving_ends [OF a s] by auto
  moreover have "res = Ok ()"
    using s a by (auto simp: serve_with_shutdown_def announce_mdns_def service_info_of_def Let_def)
  ultimately show ?thesis using assms s by (simp add: run_main_def)
qed

end
