(* ===== verification/Warp_Tui_View.thy ===== *)
theory Warp_Tui_View
  imports Warp_Tui_Inv Warp_Speed
begin

text \<open>
  \<open>examples/tui/ui.rs\<close>: what is drawn for a state of the interface. A widget is its title, the
  colour of its border, its lines, and the index of the highlighted line; placing and painting it
  is the \<open>ratatui\<close> crate's. \<open>ByteSize\<close>'s text is the argument \<open>size_text\<close>. Characters outside
  ASCII are their UTF-8 bytes.
\<close>

section \<open>Texts\<close>

fun join_with :: "string \<Rightarrow> string list \<Rightarrow> string" where
  "join_with sep [] = []"
| "join_with sep [w] = w"
| "join_with sep (w # ws) = w @ sep @ join_with sep ws"

definition utf8 :: "nat list \<Rightarrow> string" where
  "utf8 bs = map char_of bs"

definition duration_parts :: "u64 \<Rightarrow> (nat \<times> char) list" where
  "duration_parts secs =
     (let s = unat secs; hours = s div 3600; minutes = s mod 3600 div 60; seconds = s mod 60;
          p1 = (if 0 < hours then [(hours, CHR ''h'')] else []);
          p2 = (if 0 < minutes then p1 @ [(minutes, CHR ''m'')] else p1)
      in if 0 < seconds \<or> p2 = [] then p2 @ [(seconds, CHR ''s'')] else p2)"

definition fmt_seconds :: "u64 \<Rightarrow> string" where
  "fmt_seconds secs = join_with '' '' (map (\<lambda>(n, c). nat_to_string n @ [c]) (duration_parts secs))"

datatype colour = DarkGray | Yellow | Green | Red | Cyan

fun remote_state_span :: "remote_state \<Rightarrow> string \<times> colour" where
  "remote_state_span Disconnected = (''[disconnected]'', DarkGray)"
| "remote_state_span Connecting = (''[connecting]'', Yellow)"
| "remote_state_span AwaitingDuplex = (''[awaiting]'', Yellow)"
| "remote_state_span Connected = (''[connected]'', Green)"
| "remote_state_span (RS_Error SslError) = (''[ssl error]'', Red)"
| "remote_state_span (RS_Error GroupCodeMismatch) = (''[group mismatch]'', Red)"
| "remote_state_span (RS_Error NoCertificate) = (''[no cert]'', Red)"
| "remote_state_span (RS_Error RC_DuplexError) = (''[duplex err]'', Red)"

fun transfer_state_span :: "transfer_state \<Rightarrow> string \<times> colour" where
  "transfer_state_span Initializing = (''[init]'', DarkGray)"
| "transfer_state_span WaitingPermission = (''[waiting]'', Yellow)"
| "transfer_state_span InProgress = (''[in progress]'', Green)"
| "transfer_state_span Paused = (''[paused]'', Yellow)"
| "transfer_state_span Completed = (''[done]'', Green)"
| "transfer_state_span Canceled = (''[canceled]'', DarkGray)"
| "transfer_state_span Denied = (''[denied]'', Red)"
| "transfer_state_span (Failed e) = (''[failed]'', Red)"
| "transfer_state_span Stopped = (''[stopped]'', DarkGray)"

section \<open>Widgets\<close>

text \<open>A line is a list of spans; \<open>None\<close> is the default colour.\<close>

type_synonym line = "(string \<times> colour option) list"

definition raw :: "string \<Rightarrow> string \<times> colour option" where
  "raw s = (s, None)"

definition styled :: "string \<times> colour \<Rightarrow> string \<times> colour option" where
  "styled p = (fst p, Some (snd p))"

record widget =
  wi_title :: string
  wi_border :: "colour option"
  wi_lines :: "line list"
  wi_selected :: "nat option"

definition focus_style :: "bool \<Rightarrow> colour" where
  "focus_style focused = (if focused then Cyan else DarkGray)"

definition draw_remotes :: "app \<Rightarrow> widget" where
  "draw_remotes a =
     \<lparr>wi_title = '' Remotes '', wi_border = Some (focus_style (ap_focus a = F_Remotes)),
      wi_lines = map (\<lambda>r. [styled (remote_state_span (r_state r)), raw '' '', raw (r_display_name r)])
                   (ap_remotes a),
      wi_selected = (if ap_remotes a = [] then None else Some (ap_selected_remote a))\<rparr>"

text \<open>The title of the two right panes: an em dash and the remote's name when one is selected.\<close>

definition pane_title :: "string \<Rightarrow> app \<Rightarrow> string" where
  "pane_title name a =
     (case current_remote a of
        None \<Rightarrow> '' '' @ name @ '' ''
      | Some r \<Rightarrow> '' '' @ name @ '' '' @ utf8 [226, 128, 148] @ '' '' @ r_display_name r @ '' '')"

definition transfer_base :: "transfer \<Rightarrow> string" where
  "transfer_base t =
     (case t_single_name t of
        Some name \<Rightarrow> name
      | None \<Rightarrow>
         (let names = take 3 (t_entry_names t) @ (if 3 < length (t_entry_names t) then [''...''] else [])
          in join_with '', '' names @ '' '' @ nat_to_string (unat (t_file_count t)) @ '' files''))"

text \<open>Bytes per second and bytes transferred as displayed.\<close>

definition displayed :: "app \<Rightarrow> transfer \<Rightarrow> u64 \<times> u64" where
  "displayed a t =
     (case ap_display a (t_uuid t) of
        Some d \<Rightarrow> (td_bytes_per_second d, td_bytes_transferred d)
      | None \<Rightarrow> (t_bytes_per_second t, t_bytes_transferred t))"

definition transfer_stats :: "(u64 \<Rightarrow> string) \<Rightarrow> u64 \<times> u64 \<Rightarrow> transfer \<Rightarrow> string" where
  "transfer_stats size_text disp t =
     (case disp of (bps, done_bytes) \<Rightarrow>
        if t_state t = InProgress
        then ''('' @ size_text bps @ ''/s, '' @
             (if 0 < bps
              then fmt_seconds (saturating_sub (t_total_bytes t) done_bytes div max bps 1)
              else ''--s'') @ '' remaining)''
        else ''('' @ size_text (t_total_bytes t) @ '')'')"

definition done_ratio :: "u64 \<Rightarrow> transfer \<Rightarrow> rat" where
  "done_ratio done_bytes t = round_f64 (f64_of_u64 done_bytes / f64_of_u64 (t_total_bytes t))"

text \<open>\<open>f64::round\<close> of a non-negative number: half away from zero.\<close>

definition percentage :: "rat \<Rightarrow> u64" where
  "percentage ratio = u64_of_f64 (of_int \<lfloor>round_f64 (ratio * 100) + 1 / 2\<rfloor>)"

definition bar_len :: nat where "bar_len = 10"

definition filled_segments :: "rat \<Rightarrow> nat" where
  "filled_segments ratio = min (unat (u64_of_f64 (of_int \<lfloor>round_f64 (ratio * of_nat bar_len)\<rfloor>))) bar_len"

definition progress_bar :: "rat \<Rightarrow> string" where
  "progress_bar ratio =
     (let filled = filled_segments ratio
      in '' ['' @ concat (replicate filled (utf8 [226, 150, 136])) @
         concat (replicate (bar_len - filled) (utf8 [226, 150, 145])) @ ''] '' @
         nat_to_string (unat (percentage ratio)) @ ''%'')"

definition transfer_bar :: "u64 \<times> u64 \<Rightarrow> transfer \<Rightarrow> string" where
  "transfer_bar disp t =
     (if t_state t = InProgress \<and> 0 < t_total_bytes t
      then progress_bar (done_ratio (snd disp) t) else [])"

definition draw_transfers :: "(u64 \<Rightarrow> string) \<Rightarrow> app \<Rightarrow> widget" where
  "draw_transfers size_text a =
     \<lparr>wi_title = pane_title ''Transfers'' a,
      wi_border = Some (focus_style (ap_focus a = F_Transfers)),
      wi_lines =
        map (\<lambda>t. [raw '' '', styled (transfer_state_span (t_state t)), raw '' '',
                  raw (transfer_base t), raw '' '', raw (transfer_stats size_text (displayed a t) t),
                  raw '' '', raw (transfer_bar (displayed a t) t)])
          (current_transfers a),
      wi_selected = (if current_transfers a = [] then None else Some (ap_selected_transfer a))\<rparr>"

definition draw_messages :: "app \<Rightarrow> widget" where
  "draw_messages a =
     (let items =
        map (\<lambda>x. [styled (case m_direction x of Sent \<Rightarrow> utf8 [226, 134, 146]
                                              | Received \<Rightarrow> utf8 [226, 134, 144], Yellow),
                  raw '' '', raw (m_content x)])
          (current_messages a)
      in \<lparr>wi_title = pane_title ''Messages'' a,
          wi_border = Some (focus_style (ap_focus a = F_Messages)),
          wi_lines = (if items = [] then [[raw []]] else items),
          wi_selected = (if current_messages a = [] then None else Some (ap_selected_message a))\<rparr>)"

text \<open>The last lines that fit between the two borders.\<close>

definition draw_log :: "nat \<Rightarrow> app \<Rightarrow> widget" where
  "draw_log height a =
     (let inner_height = height - 2
      in \<lparr>wi_title = '' Log '', wi_border = None,
          wi_lines = map (\<lambda>s. [raw s]) (rev (take inner_height (rev (ap_log a)))),
          wi_selected = None\<rparr>)"

definition status_keys :: "app \<Rightarrow> string list" where
  "status_keys a =
     [''j/k: nav'', ''Tab: pane'', ''q: quit'', ''s: send file'', ''m: message''] @
     (case ap_focus a of
        F_Remotes \<Rightarrow>
         (case current_remote a of
            None \<Rightarrow> []
          | Some r \<Rightarrow>
             (case r_state r of Disconnected \<Rightarrow> [''c: connect''] | RS_Error e \<Rightarrow> [''c: connect''] | _ \<Rightarrow> []))
      | F_Transfers \<Rightarrow>
         (case current_transfer a of
            None \<Rightarrow> []
          | Some t \<Rightarrow>
             (case t_state t of
                WaitingPermission \<Rightarrow>
                 (case t_kind t of
                    Incoming d \<Rightarrow> [''a: accept'', ''r: reject'']
                  | Outgoing ps tok \<Rightarrow> [''r: cancel''])
              | InProgress \<Rightarrow> [''x: stop'']
              | Failed e \<Rightarrow> [''del: delete'']
              | Completed \<Rightarrow> [''del: delete'']
              | Stopped \<Rightarrow> [''del: delete'']
              | Denied \<Rightarrow> [''del: delete'']
              | Canceled \<Rightarrow> [''del: delete'']
              | _ \<Rightarrow> []))
      | F_Messages \<Rightarrow> if current_message a \<noteq> None then [''del: delete''] else [])"

definition draw_statusbar :: "app \<Rightarrow> widget" where
  "draw_statusbar a =
     (let content =
        (case ap_input_mode a of
           Some IM_FilePath \<Rightarrow> '' Send file: '' @ ap_input_buf a @ ''_''
         | Some IM_AcceptDestination \<Rightarrow>
             '' Accept to: '' @ ap_input_buf a @ ''_  (Enter to confirm, Esc to cancel)''
         | Some IM_Message \<Rightarrow> '' Message: '' @ ap_input_buf a @ ''_''
         | None \<Rightarrow> join_with ''  '' (status_keys a))
      in \<lparr>wi_title = [], wi_border = None,
          wi_lines = [[(content, Some (if ap_input_mode a = None then DarkGray else Yellow))]],
          wi_selected = None\<rparr>)"

text \<open>The five widgets, from top to bottom and left to right; the log pane is six rows high.\<close>

definition draw :: "(u64 \<Rightarrow> string) \<Rightarrow> nat \<Rightarrow> app \<Rightarrow> widget list" where
  "draw size_text log_height a =
     [draw_remotes a, draw_transfers size_text a, draw_messages a, draw_log log_height a,
      draw_statusbar a]"


section \<open>What the drawing relies on\<close>

lemma join_with_Cons: "ws \<noteq> [] \<Longrightarrow> join_with sep (w # ws) = w @ sep @ join_with sep ws"
  by (cases ws) simp_all

text \<open>The parts of a duration add up to it and are in their ranges.\<close>

fun unit_seconds :: "char \<Rightarrow> nat" where
  "unit_seconds c = (if c = CHR ''h'' then 3600 else if c = CHR ''m'' then 60 else 1)"

lemma duration_parts_total:
  "(\<Sum>(n, c) \<leftarrow> duration_parts secs. n * unit_seconds c) = unat secs"
proof -
  let ?s = "unat secs"
  have "?s mod 3600 mod 60 = ?s mod 60" by (rule mod_mod_cancel) simp
  then have m: "?s mod 3600 div 60 * 60 + ?s mod 60 = ?s mod 3600"
    using div_mult_mod_eq [of "?s mod 3600" 60] by simp
  then have "?s div 3600 * 3600 + (?s mod 3600 div 60 * 60 + ?s mod 60) = ?s"
    using div_mult_mod_eq [of ?s 3600] by simp
  then show ?thesis by (auto simp: duration_parts_def Let_def)
qed

lemma duration_parts_bounds:
  "duration_parts secs \<noteq> [] \<and> (\<forall>(n, c) \<in> set (duration_parts secs). c = CHR ''h'' \<or> n < 60)"
  by (auto simp: duration_parts_def Let_def)

text \<open>The bar always has ten segments.\<close>

lemma filled_segments_le: "filled_segments ratio \<le> bar_len"
  by (simp add: filled_segments_def)

text \<open>In a state that meets the invariant, the highlighted line of the first two panes is a line.\<close>

lemma highlighted_line_exists:
  assumes "tui_inv a"
  shows "(wi_selected (draw_remotes a) = Some i \<longrightarrow> i < length (wi_lines (draw_remotes a))) \<and>
    (wi_selected (draw_transfers size_text a) = Some j \<longrightarrow>
      j < length (wi_lines (draw_transfers size_text a)))"
  using assms by (auto simp: tui_inv_def selection_ok_def draw_remotes_def draw_transfers_def)

section \<open>The status bar and the keys\<close>

text \<open>The entries of the status bar that offer a key.\<close>

definition key_hints :: "key_code \<Rightarrow> string list" where
  "key_hints code =
     (if code = K_Char ''c'' then [''c: connect'']
      else if code = K_Char ''a'' then [''a: accept'']
      else if code = K_Char ''r'' then [''r: reject'', ''r: cancel'']
      else if code = K_Char ''x'' then [''x: stop'']
      else if code = K_Delete then [''del: delete''] else [])"

definition offered :: "key_code \<Rightarrow> app \<Rightarrow> bool" where
  "offered code a \<longleftrightarrow> set (key_hints code) \<inter> set (status_keys a) \<noteq> {}"

lemma offered_remotes:
  "ap_focus a = F_Remotes \<Longrightarrow> offered code a \<longleftrightarrow>
    code = K_Char ''c'' \<and> (\<exists>r. current_remote a = Some r \<and> may_connect (r_state r))"
  by (cases "current_remote a")
    (auto simp: offered_def key_hints_def status_keys_def may_connect_def split: remote_state.splits)

lemma offered_messages:
  "ap_focus a = F_Messages \<Longrightarrow> offered code a \<longleftrightarrow> code = K_Delete \<and> current_message a \<noteq> None"
  by (auto simp: offered_def key_hints_def status_keys_def)

lemma offered_transfers:
  "ap_focus a = F_Transfers \<Longrightarrow> offered code a \<longleftrightarrow>
    (\<exists>t. current_transfer a = Some t \<and>
       (code = K_Char ''a'' \<and> t_state t = WaitingPermission \<and> is_incoming t \<or>
        code = K_Char ''r'' \<and> t_state t = WaitingPermission \<or>
        code = K_Char ''x'' \<and> t_state t = InProgress \<or>
        code = K_Delete \<and> is_over (t_state t)))"
  by (cases "current_transfer a")
    (auto simp: offered_def key_hints_def status_keys_def is_incoming_def is_over_def is_failed_def
      split: transfer_state.splits transfer_kind.splits)

lemma transfer_key_Some:
  "(\<exists>b cmds. transfer_key applies command a = Return (Some (b, cmds))) \<longleftrightarrow>
    (\<exists>t. current_transfer a = Some t \<and> applies t)"
proof (cases "current_transfer a")
  case None
  then show ?thesis by (simp add: transfer_key_def)
next
  case (Some t)
  then obtain r where "current_remote a = Some r" using current_transfer_has_remote by blast
  with Some show ?thesis by (simp add: transfer_key_def)
qed

lemma own_key_remotes:
  assumes "ap_input_mode a = None" and "ap_focus a = F_Remotes"
  shows "(\<exists>x. own_key dest code a = Return (Some x)) \<longleftrightarrow>
    code = K_Char ''c'' \<and> (\<exists>r. current_remote a = Some r \<and> may_connect (r_state r))"
  using assms by (auto simp: own_key_def split: option.splits)

lemma own_key_messages:
  assumes "ap_input_mode a = None" and "ap_focus a = F_Messages"
  shows "(\<exists>x. own_key dest code a = Return (Some x)) \<longleftrightarrow> code = K_Delete \<and> current_message a \<noteq> None"
  using assms current_message_has_remote [of a] by (auto simp: own_key_def split: option.splits)

lemma own_key_transfers:
  assumes "ap_input_mode a = None" and "ap_focus a = F_Transfers"
  shows "(\<exists>x. own_key dest code a = Return (Some x)) \<longleftrightarrow>
    (\<exists>t. current_transfer a = Some t \<and>
       (code = K_Char ''a'' \<and> t_state t = WaitingPermission \<and> is_incoming t \<or>
        code = K_Char ''r'' \<and> t_state t = WaitingPermission \<or>
        code = K_Char ''x'' \<and> t_state t = InProgress \<or>
        code = K_Delete \<and> is_over (t_state t)))"
proof (cases "code = K_Char ''a''")
  case True
  then show ?thesis
    using assms current_transfer_has_remote [of a] by (auto simp: own_key_def split: option.splits)
next
  case False
  have own: "own_key dest code a =
      (if code = K_Char ''r'' then transfer_key (\<lambda>t. t_state t = WaitingPermission) CancelTransfer a
       else if code = K_Char ''x'' then transfer_key (\<lambda>t. t_state t = InProgress) StopTransfer a
       else if code = K_Delete then transfer_key (\<lambda>t. is_over (t_state t)) RemoveTransferOf a
       else Return None)"
    using assms False by (simp add: own_key_def)
  show ?thesis unfolding own by (auto simp: transfer_key_Some False)
qed

section \<open>Properties\<close>


definition sample_app :: app where
  "sample_app = app_new\<lparr>ap_remotes := [sample_remote], ap_transfers := [''peer'' \<mapsto> [sample_incoming]],
     ap_focus := F_Transfers\<rparr>"


text \<open>Both sides hold there.\<close>

lemma sample_app_offers_accept: "offered (K_Char ''a'') sample_app"
  by (simp add: offered_transfers sample_app_def app_new_def current_transfer_def
      current_transfers_def current_remote_def nth_opt_def sample_remote_def remote_new_def
      sample_incoming_def transfer_new_outgoing_def is_incoming_def)

section \<open>The log\<close>

text \<open>
  A log line that a key press adds (\<open>Connecting to ...\<close>, \<open>Accepting transfer...\<close>) comes with no
  call of the library: where the main loop acts on a key it does not pass it on to the code that
  logs the action.
\<close>

lemma log_lines_without_action:
  assumes "run_key dest code a = Return (quit, b, cmds)" and "ap_log b \<noteq> ap_log a"
  shows "cmds = []"
proof (cases "code = K_Enter \<and> ap_input_mode a \<noteq> None")
  case True
  then obtain mode where mode: "ap_input_mode a = Some mode" by auto
  let ?a = "a\<lparr>ap_input_mode := None, ap_input_buf := []\<rparr>"
  have "b = fst (confirm_input mode (ap_input_buf a) ?a)"
    using assms(1) True mode
    by (auto simp: run_key_def consume_input_def handle_key_def split: prod.splits)
  then have "ap_log b = ap_log a" by (simp add: confirm_input_def split: input_mode.splits)
  with assms(2) show ?thesis by simp
next
  case False
  then have enter: "(if code = K_Enter then consume_input a else (None, a)) = (None, a)"
    by (auto simp: consume_input_def)
  have "ap_log c = ap_log a" if "own_key dest code a = Return (Some (c, cs))" for c cs
    using that by (auto simp: own_key_def transfer_key_def split: if_splits option.splits)
  then show ?thesis
    using assms by (auto simp: run_key_def enter split: outcome.splits option.splits prod.splits)
qed

end
