(* ===== verification/Warp_Speed_Bounds.thy ===== *)
theory Warp_Speed_Bounds
  imports Warp_Speed
begin

text \<open>
  Rounding to \<open>f64\<close> changes a number by at most one part in 2 to the 52. Hence the samples of the
  moving average, taken over at least a millisecond, are at most 1001 times the bytes of a chunk,
  and their sum, a wrapping \<open>u64\<close> in the code, does not overflow.
\<close>

section \<open>Rounding\<close>

lemma bit_count_0 [simp]: "bit_count 0 = 0"
  by (simp add: bit_count.simps)

lemma bit_count_bounds: "0 < n \<Longrightarrow> 2 ^ bit_count n \<le> 2 * n \<and> n < 2 ^ bit_count n"
proof (induction n rule: bit_count.induct)
  case (1 n)
  then have c: "bit_count n = Suc (bit_count (n div 2))" by (simp add: bit_count.simps)
  show ?case
  proof (cases "n div 2 = 0")
    case True
    then have "n = 1" using 1(2) by auto
    then show ?thesis using c True by simp
  next
    case False
    with 1 have "2 ^ bit_count (n div 2) \<le> 2 * (n div 2)" "n div 2 < 2 ^ bit_count (n div 2)" by auto
    then show ?thesis unfolding c by auto
  qed
qed

lemma pow2_pos [simp]: "0 < pow2 e"
  by (simp add: pow2_def)

lemma pow2_Suc: "pow2 (e + 1) = 2 * pow2 e"
proof (cases "0 \<le> e")
  case True
  then show ?thesis by (simp add: pow2_def nat_add_distrib)
next
  case False
  then have "nat (- e) = Suc (nat (- (e + 1)))" by simp
  with False show ?thesis by (auto simp: pow2_def)
qed

lemma pow2_minus: "pow2 (e - int n) * 2 ^ n = pow2 e"
proof (induction n)
  case (Suc n)
  then show ?case using pow2_Suc [of "e - int (Suc n)"] by simp
qed simp

lemma pow2_diff: "pow2 (int a - int b) = 2 ^ a / 2 ^ b"
  using pow2_minus [of "int a" b] by (simp add: pow2_def field_simps)

text \<open>The exponent that \<open>round_f64\<close> chooses.\<close>

lemma exponent_le:
  assumes x: "0 < x" and q: "quotient_of x = (a, b)"
    and k: "k = int (bit_count (nat a)) - int (bit_count (nat b))"
  shows "pow2 (if pow2 k \<le> x then k else k - 1) \<le> x"
proof (cases "pow2 k \<le> x")
  case False
  have b: "0 < b" using q by (rule quotient_of_denom_pos)
  have xab: "x = of_int a / of_int b" using q by (rule quotient_of_div)
  then have a: "0 < a" using x b by (simp add: zero_less_divide_iff)
  let ?m = "bit_count (nat a)" and ?n = "bit_count (nat b)"
  have na: "2 ^ ?m \<le> 2 * nat a" and nb: "nat b < 2 ^ ?n"
    using bit_count_bounds [of "nat a"] bit_count_bounds [of "nat b"] a b by auto
  have nat_a: "(of_nat (nat a) :: rat) = of_int a" and nat_b: "(of_nat (nat b) :: rat) = of_int b"
    using a b by simp_all
  have "(of_nat (2 ^ ?m) :: rat) \<le> of_nat (2 * nat a)" using na by (simp only: of_nat_le_iff)
  then have "(2 :: rat) ^ ?m \<le> 2 * of_int a" using nat_a by simp
  moreover have "(of_nat (nat b) :: rat) < of_nat (2 ^ ?n)" using nb by (simp only: of_nat_less_iff)
  then have "(of_int b :: rat) < 2 ^ ?n" using nat_b by simp
  ultimately have "2 ^ ?m / 2 ^ ?n \<le> 2 * of_int a / (of_int b :: rat)"
    using b a by (intro frac_le) auto
  then have "pow2 k \<le> 2 * x" unfolding k pow2_diff xab by simp
  then have "pow2 (k - 1) \<le> x" using pow2_Suc [of "k - 1"] by simp
  with False show ?thesis by simp
qed simp

text \<open>Rounding to a multiple of \<open>ulp\<close>.\<close>

definition to_nearest :: "rat \<Rightarrow> int" where
  "to_nearest y =
     (let f = \<lfloor>y\<rfloor>; r = y - of_int f
      in if r < 1 / 2 then f else if 1 / 2 < r then f + 1 else if even f then f else f + 1)"

lemma to_nearest_error: "\<bar>of_int (to_nearest y) - y\<bar> \<le> 1 / 2"
proof -
  have "0 \<le> y - of_int \<lfloor>y\<rfloor>" "y - of_int \<lfloor>y\<rfloor> < 1" by linarith+
  then show ?thesis by (auto simp: to_nearest_def Let_def abs_le_iff)
qed

lemma round_f64_nearest:
  assumes "0 < x"
  obtains e where "pow2 e \<le> x" and "round_f64 x = of_int (to_nearest (x / pow2 (e - 52))) * pow2 (e - 52)"
proof -
  have pos: "(x \<le> 0) = False" using assms by simp
  obtain a b where q: "quotient_of x = (a, b)" by (cases "quotient_of x")
  let ?k = "int (bit_count (nat a)) - int (bit_count (nat b))"
  let ?e = "if pow2 ?k \<le> x then ?k else ?k - 1"
  show thesis
  proof (rule that)
    show "pow2 ?e \<le> x" by (rule exponent_le [OF assms q refl])
    show "round_f64 x = of_int (to_nearest (x / pow2 (?e - 52))) * pow2 (?e - 52)"
      using q pos by (simp only: round_f64_def to_nearest_def Let_def prod.case if_False)
  qed
qed

lemma round_f64_error:
  assumes "0 \<le> x"
  shows "\<bar>round_f64 x - x\<bar> \<le> x / 2 ^ 53"
proof (cases "x = 0")
  case False
  with assms have x: "0 < x" by simp
  then obtain e where e: "pow2 e \<le> x"
    and r: "round_f64 x = of_int (to_nearest (x / pow2 (e - 52))) * pow2 (e - 52)"
    by (rule round_f64_nearest)
  let ?ulp = "pow2 (e - 52)" and ?n = "of_int (to_nearest (x / pow2 (e - 52))) :: rat"
  have p: "0 < ?ulp" "?ulp \<noteq> 0" using pow2_pos [of "e - 52"] by (simp, linarith)
  have u: "?ulp * 2 ^ 52 = pow2 e" using pow2_minus [of e 52] by simp
  have "round_f64 x - x = (?n - x / ?ulp) * ?ulp" unfolding r using p by (simp add: left_diff_distrib less_imp_neq)
  then have "\<bar>round_f64 x - x\<bar> = \<bar>?n - x / ?ulp\<bar> * ?ulp"
    using abs_of_pos [OF p(1)] by (simp only: abs_mult)
  also have "\<dots> \<le> 1 / 2 * ?ulp"
    by (rule mult_right_mono [OF to_nearest_error less_imp_le [OF p(1)]])
  also have "\<dots> \<le> x / 2 ^ 53" using u e by simp
  finally show ?thesis .
qed (simp add: round_f64_def)


lemma round_f64_bounds:
  assumes "0 \<le> x"
  shows "round_f64 x \<le> 10001 / 10000 * x \<and> 9999 / 10000 * x \<le> round_f64 x"
proof -
  have "x / 2 ^ 53 \<le> x / 10000" using assms by (intro divide_left_mono) simp_all
  with round_f64_error [OF assms] have "\<bar>round_f64 x - x\<bar> \<le> x / 10000" by (rule order_trans)
  then have "round_f64 x - x \<le> x / 10000" "x - round_f64 x \<le> x / 10000" by linarith+
  then show ?thesis by linarith
qed

section \<open>The moving average\<close>

lemma unat_u64_of_f64:
  assumes "0 \<le> x"
  shows "of_nat (unat (u64_of_f64 x)) \<le> x"
proof (cases "x = 0 \<or> 2 ^ 64 \<le> x")
  case True
  have "unat (- 1 :: u64) = 2 ^ 64 - 1" by (simp add: unsigned_minus_1_eq_mask mask_eq_exp_minus_1)
  then have "(of_nat (unat (- 1 :: u64)) :: rat) = of_nat (2 ^ 64 - 1)" by (simp only:)
  also have "\<dots> \<le> 2 ^ 64" by simp
  finally show ?thesis using True by (auto simp: u64_of_f64_def)
next
  case False
  then have f: "0 \<le> \<lfloor>x\<rfloor>" "\<lfloor>x\<rfloor> < 2 ^ 64" using assms by (simp_all add: floor_less_iff)
  then have "unat (word_of_int \<lfloor>x\<rfloor> :: u64) = nat \<lfloor>x\<rfloor>" by (simp add: unsigned_of_int take_bit_int_eq_self)
  with False assms f show ?thesis by (simp add: u64_of_f64_def)
qed

definition sample_of :: "u64 \<Rightarrow> rat \<Rightarrow> u64" where
  "sample_of n elapsed = u64_of_f64 (round_f64 (f64_of_u64 n / elapsed))"

lemma sample_bound:
  assumes "round_f64 (1 / 1000) \<le> elapsed"
  shows "unat (sample_of n elapsed) \<le> 1001 * unat n"
proof -
  let ?n = "of_nat (unat n) :: rat"
  have e: "9999 / 10000000 \<le> elapsed" using round_f64_bounds [of "1 / 1000"] assms by simp
  have n: "0 \<le> ?n" by (rule of_nat_0_le_iff)
  have f: "0 \<le> f64_of_u64 n" "f64_of_u64 n \<le> 10001 / 10000 * ?n"
    unfolding f64_of_u64_def using round_f64_bounds [OF n] n by linarith+
  then have "f64_of_u64 n / elapsed \<le> 10001 / 10000 * ?n / (9999 / 10000000)"
    using e f(1) n by (intro frac_le) simp_all
  then have q: "0 \<le> f64_of_u64 n / elapsed" "f64_of_u64 n / elapsed \<le> 10001000 / 9999 * ?n"
    using e f(1) by simp_all
  have "of_nat (unat (sample_of n elapsed)) \<le> round_f64 (f64_of_u64 n / elapsed)"
    unfolding sample_of_def using round_f64_bounds [OF q(1)] q(1) by (intro unat_u64_of_f64) simp
  also have "\<dots> \<le> 10001 / 10000 * (f64_of_u64 n / elapsed)" using round_f64_bounds [OF q(1)] by simp
  also have "\<dots> \<le> 10001 / 10000 * (10001000 / 9999 * ?n)" using q(2) by simp
  also have "\<dots> \<le> 1001 * ?n" using n by linarith
  finally have "of_nat (unat (sample_of n elapsed)) \<le> (of_nat (1001 * unat n) :: rat)" by simp
  then show ?thesis by (simp only: of_nat_le_iff)
qed

definition pushes :: "(u64 \<times> rat) list \<Rightarrow> moving_average \<Rightarrow> moving_average" where
  "pushes ps m = fold (\<lambda>(n, elapsed) m. snd (ma_push m n elapsed)) ps m"

definition samples_le :: "nat \<Rightarrow> moving_average \<Rightarrow> bool" where
  "samples_le hi m \<longleftrightarrow> (\<forall>x \<in> set (ma_samples m). unat x \<le> hi)"

lemma samples_le_push:
  assumes "samples_le hi m" and "unat (sample_of n elapsed) \<le> hi"
  shows "samples_le hi (snd (ma_push m n elapsed))"
proof -
  have "set (tl (ma_samples m @ [y])) \<subseteq> insert y (set (ma_samples m))" for y
    by (cases "ma_samples m") auto
  then have "set (ma_samples (snd (ma_push m n elapsed))) \<subseteq> insert (sample_of n elapsed) (set (ma_samples m))"
    by (auto simp: ma_push_def sample_of_def Let_def)
  then show ?thesis using assms by (auto simp: samples_le_def)
qed

lemma pushes_invariant:
  assumes "ma_wf m" and "samples_le (1001 * bound) m"
    and "\<forall>(n, elapsed) \<in> set ps. unat n \<le> bound \<and> round_f64 (1 / 1000) \<le> elapsed"
  shows "ma_wf (pushes ps m) \<and> samples_le (1001 * bound) (pushes ps m)
    \<and> ma_window (pushes ps m) = ma_window m"
  using assms
proof (induction ps arbitrary: m)
  case Nil
  then show ?case by (simp add: pushes_def)
next
  case (Cons p ps)
  obtain n elapsed where p: "p = (n, elapsed)" by (cases p)
  then have "unat (sample_of n elapsed) \<le> 1001 * bound"
    using Cons.prems(3) sample_bound [of elapsed n] by force
  then have "samples_le (1001 * bound) (snd (ma_push m n elapsed))"
    by (rule samples_le_push [OF Cons.prems(2)])
  then show ?case
    using Cons.IH [of "snd (ma_push m n elapsed)"] Cons.prems ma_wf_push [of m n elapsed]
    by (simp add: pushes_def p)
qed

section \<open>Properties\<close>

text \<open>
  C25. The reported speed never overflows: while no chunk has more than 2 to the 48 bytes and every
  interval counts for at least a millisecond, as both loops ensure, the sum over the window of 30
  samples fits its \<open>u64\<close> and the average is at most 1001 times the largest chunk, however long the
  transfer.
\<close>

theorem reported_speed_bounded:
  assumes "\<forall>(n, elapsed) \<in> set ps. unat n \<le> bound \<and> round_f64 (1 / 1000) \<le> elapsed"
    and "bound \<le> 2 ^ 48"
  shows "sum_list (map unat (ma_samples (pushes ps (ma_new 30)))) < 2 ^ 64
    \<and> unat (current_average (pushes ps (ma_new 30))) \<le> 1001 * bound"
proof -
  let ?m = "pushes ps (ma_new 30)"
  have i: "ma_wf ?m" "samples_le (1001 * bound) ?m" "ma_window ?m = 30"
    using pushes_invariant [OF ma_wf_new _ assms(1)] by (simp_all add: samples_le_def ma_new_def)
  then have len: "length (ma_samples ?m) \<le> 30" by (simp add: ma_wf_def)
  have hi: "\<forall>x \<in> set (ma_samples ?m). unat x \<le> 1001 * bound" using i(2) by (simp add: samples_le_def)
  have "sum_list (map unat (ma_samples ?m)) \<le> length (ma_samples ?m) * (1001 * bound)"
    using hi by (rule sum_unat_bounds)
  also have "\<dots> \<le> 30 * (1001 * 2 ^ 48)" using len assms(2) by (intro mult_le_mono) simp_all
  also have "\<dots> < 2 ^ 64" by simp
  finally have sum: "sum_list (map unat (ma_samples ?m)) < 2 ^ 64" .
  have "unat (current_average ?m) \<le> 1001 * bound"
  proof (cases "ma_samples ?m = []")
    case False
    have "length (ma_samples ?m) < 2 ^ 64" using len by simp
    from current_average_between [OF False this sum _ hi, of 0] show ?thesis by simp
  qed (simp add: current_average_def)
  with sum show ?thesis by simp
qed

lemma reported_speed_witness:
  "sum_list (map unat (ma_samples (pushes (replicate 40 (524288, 1)) (ma_new 30)))) < 2 ^ 64
    \<and> unat (current_average (pushes (replicate 40 (524288, 1)) (ma_new 30))) \<le> 1001 * 524288"
proof (rule reported_speed_bounded)
  show "\<forall>(n, elapsed) \<in> set (replicate 40 (524288 :: u64, 1 :: rat)).
      unat n \<le> 524288 \<and> round_f64 (1 / 1000) \<le> elapsed"
    using round_f64_bounds [of "1 / 1000"] by simp
qed simp

end
