(* ===== verification/Warp_Power.thy ===== *)
theory Warp_Power
  imports Warp_Prelude
begin

text \<open>
  \<open>src/server/power_manager.rs\<close>: the wake lock of the optional feature \<open>power_manager\<close>. The
  application's \<open>PowerManager\<close> is seen by the calls it receives. A \<open>WakeLockGuard\<close> is dropped when
  its scope is left, by a return or by a panic; \<open>connect\<close>, \<open>handle_new_service\<close> and the two
  stream tasks each hold one for their whole body.
\<close>

datatype power_call = AcquireWakeLock | ReleaseWakeLock

record power =
  pw_calls :: "power_call list"
  pw_guards :: "nat list"

text \<open>Guards are told apart by a number, the address of the value.\<close>

definition guard_new :: "nat \<Rightarrow> power \<Rightarrow> power" where
  "guard_new g p = p\<lparr>pw_calls := pw_calls p @ [AcquireWakeLock], pw_guards := g # pw_guards p\<rparr>"

definition guard_drop :: "nat \<Rightarrow> power \<Rightarrow> power" where
  "guard_drop g p = p\<lparr>pw_calls := pw_calls p @ [ReleaseWakeLock], pw_guards := remove1 g (pw_guards p)\<rparr>"

text \<open>A body run under a guard; the guard is dropped however the body ends.\<close>

definition with_wake_lock :: "nat \<Rightarrow> (power \<Rightarrow> 'a outcome \<times> power) \<Rightarrow> power \<Rightarrow> 'a outcome \<times> power" where
  "with_wake_lock g body p = (case body (guard_new g p) of (res, p1) \<Rightarrow> (res, guard_drop g p1))"

datatype guard_op = NewGuard nat | DropGuard nat

fun guard_step :: "guard_op \<Rightarrow> power \<Rightarrow> power" where
  "guard_step (NewGuard g) p = guard_new g p"
| "guard_step (DropGuard g) p = guard_drop g p"

fun guard_ok :: "guard_op \<Rightarrow> power \<Rightarrow> bool" where
  "guard_ok (NewGuard g) p \<longleftrightarrow> g \<notin> set (pw_guards p)"
| "guard_ok (DropGuard g) p \<longleftrightarrow> g \<in> set (pw_guards p)"

text \<open>The calls balance the guards alive: as many acquisitions as releases and guards.\<close>

definition power_inv :: "power \<Rightarrow> bool" where
  "power_inv p \<longleftrightarrow>
     distinct (pw_guards p) \<and>
     count_list (pw_calls p) AcquireWakeLock =
       count_list (pw_calls p) ReleaseWakeLock + length (pw_guards p)"

lemma count_list_snoc: "count_list (xs @ [x]) y = count_list xs y + (if x = y then 1 else 0)"
  by (induction xs) auto

lemma power_inv_step:
  assumes "power_inv p" and "guard_ok op p"
  shows "power_inv (guard_step op p)"
proof (cases op)
  case (NewGuard g)
  then show ?thesis using assms by (simp add: power_inv_def guard_new_def count_list_snoc)
next
  case (DropGuard g)
  then have "length (pw_guards p) = Suc (length (remove1 g (pw_guards p)))"
    using assms(2) length_pos_if_in_set [of g "pw_guards p"] by (simp add: length_remove1)
  then show ?thesis using assms DropGuard by (simp add: power_inv_def guard_drop_def count_list_snoc)
qed

interpretation power: invariant_machine guard_step guard_ok power_inv
  by unfold_locales (rule power_inv_step)

text \<open>
  However the tasks that hold guards interleave, the wake lock was acquired exactly as often as it
  was released once no guard is alive, and at no time was it released more often.
\<close>

lemma guards_balance:
  assumes "power.ok_run ops \<lparr>pw_calls = [], pw_guards = []\<rparr>"
    and "fold guard_step ops \<lparr>pw_calls = [], pw_guards = []\<rparr> = p"
  shows "count_list (pw_calls p) ReleaseWakeLock \<le> count_list (pw_calls p) AcquireWakeLock \<and>
    (pw_guards p = [] \<longrightarrow>
       count_list (pw_calls p) AcquireWakeLock = count_list (pw_calls p) ReleaseWakeLock)"
  using power.run_inv [OF _ assms(1)] assms(2) by (auto simp: power_inv_def)

text \<open>A body that gives back the guards it takes itself, by returning or by panicking, leaves none alive.\<close>

lemma with_wake_lock_guards:
  assumes "body (guard_new g p) = (res, p1)" and "pw_guards p1 = pw_guards (guard_new g p)"
  shows "fst (with_wake_lock g body p) = res \<and>
    pw_guards (snd (with_wake_lock g body p)) = pw_guards p \<and>
    last (pw_calls (snd (with_wake_lock g body p))) = ReleaseWakeLock"
  using assms by (simp add: with_wake_lock_def guard_new_def guard_drop_def)

end
